theory Spec2Isabelle
  imports Complex_Main
begin

section \<open>Names and the collision path pattern\<close>

text \<open>
  Node names are JavaScript strings; they are modelled as \<open>string\<close>, which is exact for
  ASCII names. The pattern of the index builder is
  \<^verbatim>\<open>/(?:^|[_\/])(?:collision|collider|col)(?:[_\/]|$)/i\<close>.
  With the \<open>i\<close> flag an ASCII letter of the pattern matches both of its cases and
  nothing else, which \<open>toLowerCase\<close> expresses: it sets bit 5 of the letters A to Z.
\<close>

definition toLowerCase :: "char \<Rightarrow> char" where
  "toLowerCase c =
     (if 65 \<le> (of_char c :: nat) \<and> (of_char c :: nat) \<le> 90
      then (case c of Char b0 b1 b2 b3 b4 b5 b6 b7 \<Rightarrow> Char b0 b1 b2 b3 b4 True b6 b7)
      else c)"

definition isSeparator :: "char \<Rightarrow> bool" where
  \<comment> \<open>the character class \<^verbatim>\<open>[_\/]\<close>\<close>
  "isSeparator c = (c = CHR ''_'' \<or> c = CHR ''/'')"

fun matchWord :: "string \<Rightarrow> string \<Rightarrow> string option" where
  \<comment> \<open>one alternative of the pattern matched case-insensitively at the head of the
      input; the result is the input left after it\<close>
  "matchWord [] s = Some s"
| "matchWord (w # ws) [] = None"
| "matchWord (w # ws) (c # cs) = (if toLowerCase c = w then matchWord ws cs else None)"

definition collisionWords :: "string list" where
  \<comment> \<open>\<^verbatim>\<open>(?:collision|collider|col)\<close>, in the order of the source\<close>
  "collisionWords = [''collision'', ''collider'', ''col'']"

definition matchTail :: "string \<Rightarrow> bool" where
  \<comment> \<open>\<^verbatim>\<open>(?:[_\/]|$)\<close>: a separator, or the end of the input\<close>
  "matchTail s = (case s of [] \<Rightarrow> True | c # cs \<Rightarrow> isSeparator c)"

definition matchHere :: "string \<Rightarrow> bool" where
  \<comment> \<open>some alternative followed by the tail; backtracking tries every alternative\<close>
  "matchHere s =
     list_ex (\<lambda>w. case matchWord w s of None \<Rightarrow> False | Some r \<Rightarrow> matchTail r) collisionWords"

fun regexScan :: "bool \<Rightarrow> string \<Rightarrow> bool" where
  \<comment> \<open>the unanchored search; the flag says that \<^verbatim>\<open>(?:^|[_\/])\<close> is satisfied just
      before the current position (start of input, or the previous character is a
      separator)\<close>
  "regexScan b [] = False"
| "regexScan b (c # cs) = ((b \<and> matchHere (c # cs)) \<or> regexScan (isSeparator c) cs)"

definition COLLISION_PATH_REGEX :: "string \<Rightarrow> bool" where
  \<comment> \<open>\<^verbatim>\<open>COLLISION_PATH_REGEX.test(name)\<close>\<close>
  "COLLISION_PATH_REGEX name = regexScan True name"

text \<open>
  The reading of the pattern as "a whole path segment": the name is cut at every
  \<open>_\<close> and \<open>/\<close>, and some piece is one of the three words, in any letter case.
\<close>

fun segments :: "string \<Rightarrow> string list" where
  "segments [] = [[]]"
| "segments (c # cs) =
     (if isSeparator c then [] # segments cs
      else (case segments cs of [] \<Rightarrow> [[c]] | g # gs \<Rightarrow> (c # g) # gs))"

definition hasCollisionSegment :: "string \<Rightarrow> bool" where
  "hasCollisionSegment name =
     list_ex (\<lambda>g. map toLowerCase g \<in> set collisionWords) (segments name)"

section \<open>JavaScript numbers\<close>

text \<open>
  A JavaScript number is an IEEE 754 double: a finite value, an infinity or \<open>NaN\<close>.
  The two zeros are not told apart: no operation of the modelled code divides by a
  zero that could be negative (the divisors are square roots or \<^verbatim>\<open>length() || 1\<close>),
  and \<^verbatim>\<open>x !== 0\<close> and \<^verbatim>\<open>x || y\<close> treat both zeros alike. Every arithmetic
  operation computes the exact result of its finite operands and rounds it; the
  rounding is a parameter. The arithmetic of the program is \<open>binary64\<close>: round to
  nearest, ties to even, with 53 bits of precision, gradual underflow, and overflow to
  an infinity. \<open>exact\<close> does not round: it gives the value that the same code computes
  when no operation rounds or overflows.
\<close>

datatype jsnum = Fin real | PosInf | NegInf | NaN

type_synonym rounding = "real \<Rightarrow> jsnum"

definition exact :: rounding where
  "exact x = Fin x"

definition roundHalfEven :: "real \<Rightarrow> int" where
  "roundHalfEven q =
     (let f = \<lfloor>q\<rfloor>; r = q - of_int f
      in if r < 1 / 2 then f else if 1 / 2 < r then f + 1 else if even f then f else f + 1)"

definition nearest64 :: "real \<Rightarrow> real" where
  \<comment> \<open>the nearest multiple of the unit in the last place: 52 binary places below the
      leading bit, and no finer than \<open>2\<^sup>-\<^sup>1\<^sup>0\<^sup>7\<^sup>4\<close>\<close>
  "nearest64 x =
     (if x = 0 then 0
      else let e = max (\<lfloor>log 2 \<bar>x\<bar>\<rfloor> - 52) (- 1074)
           in of_int (roundHalfEven (x / 2 powr of_int e)) * 2 powr of_int e)"

definition binary64 :: rounding where
  \<comment> \<open>from \<open>2\<^sup>1\<^sup>0\<^sup>2\<^sup>4 - 2\<^sup>9\<^sup>7\<^sup>0\<close> on, halfway between the largest double and
      \<open>2\<^sup>1\<^sup>0\<^sup>2\<^sup>4\<close>, the result is an infinity\<close>
  "binary64 x =
     (if 2 ^ 1024 - 2 ^ 970 \<le> \<bar>x\<bar> then (if 0 < x then PosInf else NegInf)
      else Fin (nearest64 x))"

definition signedInf :: "real \<Rightarrow> jsnum" where
  \<comment> \<open>an infinity times a finite factor, by the sign of the factor\<close>
  "signedInf x = (if x = 0 then NaN else if 0 < x then PosInf else NegInf)"

fun jsNeg :: "jsnum \<Rightarrow> jsnum" where
  "jsNeg (Fin x) = Fin (- x)"
| "jsNeg PosInf = NegInf"
| "jsNeg NegInf = PosInf"
| "jsNeg NaN = NaN"

fun jsAdd :: "rounding \<Rightarrow> jsnum \<Rightarrow> jsnum \<Rightarrow> jsnum" where
  "jsAdd rd (Fin x) (Fin y) = rd (x + y)"
| "jsAdd rd NaN b = NaN"
| "jsAdd rd a NaN = NaN"
| "jsAdd rd PosInf NegInf = NaN"
| "jsAdd rd NegInf PosInf = NaN"
| "jsAdd rd PosInf b = PosInf"
| "jsAdd rd a PosInf = PosInf"
| "jsAdd rd NegInf b = NegInf"
| "jsAdd rd a NegInf = NegInf"

definition jsSub :: "rounding \<Rightarrow> jsnum \<Rightarrow> jsnum \<Rightarrow> jsnum" where
  "jsSub rd a b = jsAdd rd a (jsNeg b)"

fun jsMul :: "rounding \<Rightarrow> jsnum \<Rightarrow> jsnum \<Rightarrow> jsnum" where
  "jsMul rd (Fin x) (Fin y) = rd (x * y)"
| "jsMul rd NaN b = NaN"
| "jsMul rd a NaN = NaN"
| "jsMul rd PosInf (Fin y) = signedInf y"
| "jsMul rd (Fin x) PosInf = signedInf x"
| "jsMul rd NegInf (Fin y) = signedInf (- y)"
| "jsMul rd (Fin x) NegInf = signedInf (- x)"
| "jsMul rd PosInf PosInf = PosInf"
| "jsMul rd NegInf NegInf = PosInf"
| "jsMul rd PosInf NegInf = NegInf"
| "jsMul rd NegInf PosInf = NegInf"

fun jsDivide :: "rounding \<Rightarrow> jsnum \<Rightarrow> jsnum \<Rightarrow> jsnum" where
  "jsDivide rd (Fin x) (Fin y) = (if y = 0 then signedInf x else rd (x / y))"
| "jsDivide rd NaN b = NaN"
| "jsDivide rd a NaN = NaN"
| "jsDivide rd (Fin x) PosInf = Fin 0"
| "jsDivide rd (Fin x) NegInf = Fin 0"
| "jsDivide rd PosInf (Fin y) = (if 0 \<le> y then PosInf else NegInf)"
| "jsDivide rd NegInf (Fin y) = (if 0 \<le> y then NegInf else PosInf)"
| "jsDivide rd a b = NaN"

fun jsSqrt :: "rounding \<Rightarrow> jsnum \<Rightarrow> jsnum" where
  "jsSqrt rd (Fin x) = (if x < 0 then NaN else rd (sqrt x))"
| "jsSqrt rd PosInf = PosInf"
| "jsSqrt rd a = NaN"

fun jsAcos :: "rounding \<Rightarrow> jsnum \<Rightarrow> jsnum" where
  \<comment> \<open>\<^verbatim>\<open>Math.acos\<close>, taken as correctly rounded\<close>
  "jsAcos rd (Fin x) = (if x < - 1 \<or> 1 < x then NaN else rd (arccos x))"
| "jsAcos rd a = NaN"

fun jsSign :: "jsnum \<Rightarrow> jsnum" where
  \<comment> \<open>\<^verbatim>\<open>Math.sign\<close>\<close>
  "jsSign (Fin x) = Fin (sgn x)"
| "jsSign PosInf = Fin 1"
| "jsSign NegInf = Fin (- 1)"
| "jsSign NaN = NaN"

fun jsLess :: "jsnum \<Rightarrow> jsnum \<Rightarrow> bool" where
  \<comment> \<open>\<^verbatim>\<open>a < b\<close>\<close>
  "jsLess NaN b = False"
| "jsLess a NaN = False"
| "jsLess (Fin x) (Fin y) = (x < y)"
| "jsLess NegInf NegInf = False"
| "jsLess NegInf b = True"
| "jsLess a NegInf = False"
| "jsLess PosInf b = False"
| "jsLess a PosInf = True"

definition jsMax :: "jsnum \<Rightarrow> jsnum \<Rightarrow> jsnum" where
  \<comment> \<open>\<^verbatim>\<open>Math.max\<close> of two arguments\<close>
  "jsMax a b = (if a = NaN \<or> b = NaN then NaN else if jsLess a b then b else a)"

definition jsMin :: "jsnum \<Rightarrow> jsnum \<Rightarrow> jsnum" where
  \<comment> \<open>\<^verbatim>\<open>Math.min\<close> of two arguments\<close>
  "jsMin a b = (if a = NaN \<or> b = NaN then NaN else if jsLess b a then b else a)"

definition jsOr :: "jsnum \<Rightarrow> jsnum \<Rightarrow> jsnum" where
  \<comment> \<open>\<^verbatim>\<open>a || b\<close> for a number \<open>a\<close>: zero and \<open>NaN\<close> are falsy\<close>
  "jsOr a b = (if a = Fin 0 \<or> a = NaN then b else a)"

definition MathPI :: "rounding \<Rightarrow> jsnum" where
  "MathPI rd = rd pi"

definition numOf :: "real option \<Rightarrow> jsnum" where
  \<comment> \<open>a number-valued property used as a number: \<open>undefined\<close> converts to \<open>NaN\<close>\<close>
  "numOf v = (case v of None \<Rightarrow> NaN | Some x \<Rightarrow> Fin x)"

section \<open>Objects of the scene graph\<close>

text \<open>
  Objects are identified by reference (\<open>ref\<close>); the store maps a reference to the
  fields the modelled code reads or writes. A property that the code only tests for
  truthiness is a \<open>bool\<close>; a property that may be \<open>undefined\<close> is an \<open>option\<close>.
  The numbers that the builder copies and compares are finite and are reals; the
  value of a joint, which the drag computes, is a \<open>jsnum\<close>. The \<open>links\<close> and
  \<open>joints\<close> properties of the robot are plain objects; \<open>robotLinks\<close> and
  \<open>robotJoints\<close> hold their \<^verbatim>\<open>Object.entries\<close>. Every \<^verbatim>\<open>THREE.Object3D\<close> is constructed with a \<open>userData\<close>
  object, so \<open>userData\<close> is always present.
\<close>

type_synonym ref = nat
type_synonym vec3 = "real \<times> real \<times> real"
type_synonym num3 = "real option \<times> real option \<times> real option"

text \<open>A 4x4 matrix, by the entries the code uses: the first three rows of its four
  columns (\<open>elements[0..2]\<close>, \<open>[4..6]\<close>, \<open>[8..10]\<close>, \<open>[12..14]\<close>).\<close>
type_synonym mat4 = "vec3 \<times> vec3 \<times> vec3 \<times> vec3"

datatype axis_raw =
    AxisVector3 real real real
  | AxisObject "real option" "real option" "real option"
  | AxisOther

datatype limit_raw = LimitRaw (lower_raw: "real option") (upper_raw: "real option")
  (effort_raw: "real option") (velocity_raw: "real option")

datatype rpy_raw = RpyRaw (rpy_r: "real option") (rpy_roll: "real option")
  (rpy_p: "real option") (rpy_pitch: "real option")
  (rpy_y: "real option") (rpy_yaw: "real option")

datatype origin_raw = OriginRaw (origin_xyz_raw: "num3 option") (origin_rpy_raw: "rpy_raw option")

datatype inertia_raw = InertiaRaw (ixx_raw: "real option") (ixy_raw: "real option")
  (ixz_raw: "real option") (iyy_raw: "real option") (iyz_raw: "real option")
  (izz_raw: "real option")

datatype inertial_raw = InertialRaw (mass_raw: "real option") (origin_raw: "origin_raw option")
  (inertia_raw: "inertia_raw option")

datatype InertialData = InertialData (mass: real) (centerOfMass: vec3)
  (inertia: "real \<times> real \<times> real \<times> real \<times> real \<times> real")
  (origin_xyz: vec3) (origin_rpy: vec3) (isSensor: bool)

datatype JointLimit = JointLimit (lower: real) (upper: real)
  (effort: "real option") (velocity: "real option")

record userdata =
  ud_isGizmo :: bool
  ud_isURDFCollider :: bool
  ud_isCollisionMesh :: "bool option"
  ud_isVisualMesh :: "bool option"
  ud_isURDFLink :: bool
  ud_linkName :: "string option"
  ud_inertial :: "inertial_raw option"
  ud_inertialData :: "InertialData option"
  ud_isSensor :: bool
  ud_isURDFJoint :: bool
  ud_jointType :: "string option"
  ud_axis :: "num3 option"
  ud_limit :: "JointLimit option"
  ud_parentLinkName :: "string option"
  ud_isInKinematicChain :: "bool option"
  ud_affectingJoints :: "string list option"

record obj =
  name :: string
  otype :: string
  isMesh :: bool
  isURDFCollider :: bool
  isURDFVisual :: bool
  isURDFLink :: bool
  urdfName :: "string option"
  isURDFJoint :: bool
  jointType :: "string option"
  axis :: "axis_raw option"
  limit :: "limit_raw option"
  angle :: "jsnum option"
  hasSetJointValue :: bool
  inertial :: "inertial_raw option"
  inertial_priv :: "inertial_raw option"
  material :: "ref option"
  visible :: bool
  renderOrder :: real
  matrixAutoUpdate :: bool
  matrixWorld :: mat4
  robotLinks :: "(string \<times> ref) list option"
  robotJoints :: "(string \<times> ref) list option"
  userData :: userdata

type_synonym store = "ref \<Rightarrow> obj"

text \<open>
  The shape of the scene graph: the subtree of the robot as a rose tree of references,
  and the ancestors of the robot above it, nearest first. The builder never changes
  \<open>parent\<close> or \<open>children\<close>, so the shape is a parameter and \<open>parent\<close> is read off
  it: \<open>parentChain\<close> lists \<open>n.parent\<close>, \<open>n.parent.parent\<close>, ... up to the root of the
  scene.
\<close>

datatype tree = Node ref "tree list"

record scene =
  robotTree :: tree
  above :: "ref list"

fun rootOf :: "tree \<Rightarrow> ref" where
  "rootOf (Node r ts) = r"

fun pathT :: "ref list \<Rightarrow> tree \<Rightarrow> ref \<Rightarrow> ref list option"
  and pathF :: "ref list \<Rightarrow> tree list \<Rightarrow> ref \<Rightarrow> ref list option" where
  "pathT acc (Node r ts) n = (if r = n then Some acc else pathF (r # acc) ts n)"
| "pathF acc [] n = None"
| "pathF acc (t # ts) n = (case pathT acc t n of Some p \<Rightarrow> Some p | None \<Rightarrow> pathF acc ts n)"

definition parentChain :: "scene \<Rightarrow> ref \<Rightarrow> ref list" where
  "parentChain sc n = (case pathT (above sc) (robotTree sc) n of Some p \<Rightarrow> p | None \<Rightarrow> [])"

fun preorder :: "tree \<Rightarrow> ref list"
  and preorderF :: "tree list \<Rightarrow> ref list" where
  \<comment> \<open>the visiting order of \<^verbatim>\<open>Object3D.traverse\<close>: the node, then each child's subtree\<close>
  "preorder (Node r ts) = r # preorderF ts"
| "preorderF [] = []"
| "preorderF (t # ts) = preorder t @ preorderF ts"

section \<open>Mesh classification and owner resolution\<close>

definition truthyStr :: "string option \<Rightarrow> bool" where
  \<comment> \<open>truthiness of a string-valued property: neither \<open>undefined\<close> nor empty\<close>
  "truthyStr s = (case s of None \<Rightarrow> False | Some v \<Rightarrow> v \<noteq> [])"

fun collisionFlagWalk :: "store \<Rightarrow> ref \<Rightarrow> ref list \<Rightarrow> bool" where
  \<comment> \<open>phase 1 of \<open>isCollisionMeshDeep\<close>: the loop over \<open>current\<close>, given the chain
      \<open>mesh, mesh.parent, ...\<close>; the empty chain is \<open>current = null\<close>\<close>
  "collisionFlagWalk s robot [] = False"
| "collisionFlagWalk s robot (current # rest) =
     (if current = robot then False
      else if isURDFCollider (s current) then True
      else if otype (s current) = ''URDFCollider'' then True
      else if ud_isURDFCollider (userData (s current))
              \<or> ud_isCollisionMesh (userData (s current)) = Some True then True
      else collisionFlagWalk s robot rest)"

fun collisionNameWalk :: "store \<Rightarrow> ref \<Rightarrow> ref list \<Rightarrow> bool" where
  \<comment> \<open>phase 2 of \<open>isCollisionMeshDeep\<close>\<close>
  "collisionNameWalk s robot [] = False"
| "collisionNameWalk s robot (current # rest) =
     (if current = robot then False
      else if name (s current) \<noteq> [] \<and> COLLISION_PATH_REGEX (name (s current)) then True
      else collisionNameWalk s robot rest)"

definition isCollisionMeshDeep :: "scene \<Rightarrow> store \<Rightarrow> ref \<Rightarrow> ref \<Rightarrow> bool" where
  "isCollisionMeshDeep sc s mesh robot =
     (let chain = mesh # parentChain sc mesh in
      if collisionFlagWalk s robot chain then True
      else collisionNameWalk s robot chain)"

definition objectPrototypeKeys :: "string list" where
  \<comment> \<open>a property read \<^verbatim>\<open>robotLinks[k]\<close> on a plain object also finds what the object
      inherits from \<^verbatim>\<open>Object.prototype\<close>; all of these are truthy\<close>
  "objectPrototypeKeys =
     [''constructor'', ''__defineGetter__'', ''__defineSetter__'', ''hasOwnProperty'',
      ''__lookupGetter__'', ''__lookupSetter__'', ''isPrototypeOf'',
      ''propertyIsEnumerable'', ''toString'', ''valueOf'', ''__proto__'',
      ''toLocaleString'']"

definition recordHas :: "(string \<times> ref) list \<Rightarrow> string \<Rightarrow> bool" where
  \<comment> \<open>truthiness of \<^verbatim>\<open>robotLinks[k]\<close>; the own values are objects\<close>
  "recordHas r k = (k \<in> set (map fst r) \<or> k \<in> set objectPrototypeKeys)"

definition strOr :: "string option \<Rightarrow> string \<Rightarrow> string" where
  \<comment> \<open>\<^verbatim>\<open>a || b\<close> for a string-valued \<open>a\<close>\<close>
  "strOr a b = (case a of None \<Rightarrow> b | Some v \<Rightarrow> if v = [] then b else v)"

fun nearestLinkWalk :: "store \<Rightarrow> ref \<Rightarrow> (string \<times> ref) list \<Rightarrow> ref list
    \<Rightarrow> ref option \<times> string" where
  \<comment> \<open>the loop of \<open>findNearestLink\<close>, given the chain \<open>obj.parent, ...\<close>\<close>
  "nearestLinkWalk s robot rl [] = (None, [])"
| "nearestLinkWalk s robot rl (current # rest) =
     (if current = robot then (None, [])
      else if isURDFLink (s current)
        then (Some current, strOr (Some (name (s current))) (strOr (urdfName (s current)) []))
      else if name (s current) \<noteq> [] \<and> recordHas rl (name (s current))
        then (Some current, name (s current))
      else if ud_isURDFLink (userData (s current)) \<and> truthyStr (ud_linkName (userData (s current)))
        then (Some current, strOr (ud_linkName (userData (s current))) [])
      else nearestLinkWalk s robot rl rest)"

definition findNearestLink :: "scene \<Rightarrow> store \<Rightarrow> ref \<Rightarrow> ref \<Rightarrow> (string \<times> ref) list
    \<Rightarrow> ref option \<times> string" where
  "findNearestLink sc s ob robot rl = nearestLinkWalk s robot rl (parentChain sc ob)"

fun affectingJointsWalk :: "store \<Rightarrow> ref \<Rightarrow> ref list \<Rightarrow> ref list" where
  \<comment> \<open>the loop of \<open>findAffectingJoints\<close>; the result lists the joints nearest first\<close>
  "affectingJointsWalk s robot [] = []"
| "affectingJointsWalk s robot (current # rest) =
     (if current = robot then []
      else if isURDFJoint (s current)
              \<and> truthyStr (jointType (s current)) \<and> jointType (s current) \<noteq> Some ''fixed''
        then current # affectingJointsWalk s robot rest
      else affectingJointsWalk s robot rest)"

definition findAffectingJoints :: "scene \<Rightarrow> store \<Rightarrow> ref \<Rightarrow> ref \<Rightarrow> ref list" where
  "findAffectingJoints sc s ob robot = affectingJointsWalk s robot (parentChain sc ob)"

section \<open>Link and joint metadata\<close>

definition nullish :: "'a option \<Rightarrow> 'a \<Rightarrow> 'a" where
  \<comment> \<open>\<^verbatim>\<open>a ?? d\<close>\<close>
  "nullish a d = (case a of None \<Rightarrow> d | Some v \<Rightarrow> v)"

definition orElse :: "'a option \<Rightarrow> 'a option \<Rightarrow> 'a option" where
  \<comment> \<open>\<^verbatim>\<open>a || b\<close> for object-valued operands\<close>
  "orElse a b = (case a of None \<Rightarrow> b | Some v \<Rightarrow> Some v)"

fun isInfixCI :: "string \<Rightarrow> string \<Rightarrow> bool" where
  \<comment> \<open>the lower-case word occurs somewhere in the input, in any letter case\<close>
  "isInfixCI w [] = (w = [])"
| "isInfixCI w (c # cs) = (matchWord w (c # cs) \<noteq> None \<or> isInfixCI w cs)"

definition SENSOR_NAME_REGEX :: "string \<Rightarrow> bool" where
  \<comment> \<open>\<^verbatim>\<open>/(?:imu|radar|lidar|camera|sensor)/i.test(linkName)\<close>\<close>
  "SENSOR_NAME_REGEX linkName =
     list_ex (\<lambda>w. isInfixCI w linkName) [''imu'', ''radar'', ''lidar'', ''camera'', ''sensor'']"

definition extractInertialData :: "obj \<Rightarrow> string \<Rightarrow> InertialData option" where
  "extractInertialData link linkName =
     (case orElse (inertial link) (orElse (ud_inertial (userData link)) (inertial_priv link)) of
        None \<Rightarrow> None
      | Some inert \<Rightarrow>
          let m = nullish (mass_raw inert) 0;
              sensor = (m \<le> 0 \<or> SENSOR_NAME_REGEX linkName);
              org = nullish (origin_raw inert) (OriginRaw None None);
              xyz = nullish (origin_xyz_raw org) (Some 0, Some 0, Some 0);
              rpy = nullish (origin_rpy_raw org) (RpyRaw (Some 0) None (Some 0) None (Some 0) None);
              inertiaData = nullish (inertia_raw inert) (InertiaRaw None None None None None None);
              x = nullish (fst xyz) 0; y = nullish (fst (snd xyz)) 0; z = nullish (snd (snd xyz)) 0
          in Some (InertialData m (x, y, z)
               (nullish (ixx_raw inertiaData) 0, nullish (ixy_raw inertiaData) 0,
                nullish (ixz_raw inertiaData) 0, nullish (iyy_raw inertiaData) 0,
                nullish (iyz_raw inertiaData) 0, nullish (izz_raw inertiaData) 0)
               (x, y, z)
               (nullish (rpy_r rpy) (nullish (rpy_roll rpy) 0),
                nullish (rpy_p rpy) (nullish (rpy_pitch rpy) 0),
                nullish (rpy_y rpy) (nullish (rpy_yaw rpy) 0))
               sensor))"

datatype JointData = JointData (jd_jointType: string) (jd_axis: num3) (jd_limit: JointLimit)
  (jd_affectedMeshes: "ref list")

definition extractJointData :: "obj \<Rightarrow> JointData" where
  "extractJointData joint =
     (let jt = strOr (jointType joint) ''fixed'';
          ax = (case axis joint of
                  None \<Rightarrow> (Some 0, Some 0, Some 1)
                | Some (AxisVector3 x y z) \<Rightarrow> (Some x, Some y, Some z)
                | Some (AxisObject x y z) \<Rightarrow>
                    (if x \<noteq> None then (x, y, z) else (Some 0, Some 0, Some 1))
                | Some AxisOther \<Rightarrow> (Some 0, Some 0, Some 1));
          limitRaw = nullish (limit joint) (LimitRaw None None None None);
          lmt = JointLimit (nullish (lower_raw limitRaw) (- pi)) (nullish (upper_raw limitRaw) pi)
                  (effort_raw limitRaw) (velocity_raw limitRaw)
      in JointData jt ax lmt [])"

section \<open>The flat index and its builder\<close>

record RobotIndex =
  linksVisual :: "string \<rightharpoonup> ref list"
  linksCollision :: "string \<rightharpoonup> ref list"
  joints :: "string \<rightharpoonup> ref"
  jointData :: "string \<rightharpoonup> JointData"
  originalMaterials :: "ref \<rightharpoonup> ref option"
  kinematicMeshes :: "ref list"
  staticMeshes :: "ref list"
  links :: "string \<rightharpoonup> ref"
  linkInertials :: "string \<rightharpoonup> InertialData"
  meshToLink :: "ref \<rightharpoonup> string"
  meshIsCollider :: "ref \<rightharpoonup> bool"
  jointAffectedMeshes :: "string \<rightharpoonup> ref list"

text \<open>A JavaScript \<open>Set\<close> is a duplicate-free list in insertion order.\<close>

definition setAdd :: "'a \<Rightarrow> 'a list \<Rightarrow> 'a list" where
  "setAdd x xs = (if x \<in> set xs then xs else xs @ [x])"

definition createEmptyIndex :: RobotIndex where
  "createEmptyIndex =
     \<lparr> linksVisual = Map.empty, linksCollision = Map.empty, joints = Map.empty,
       jointData = Map.empty, originalMaterials = Map.empty, kinematicMeshes = [],
       staticMeshes = [], links = Map.empty, linkInertials = Map.empty,
       meshToLink = Map.empty, meshIsCollider = Map.empty,
       jointAffectedMeshes = Map.empty \<rparr>"

definition updUserData :: "(userdata \<Rightarrow> userdata) \<Rightarrow> ref \<Rightarrow> store \<Rightarrow> store" where
  \<comment> \<open>an assignment to properties of \<open>r.userData\<close>\<close>
  "updUserData f r s = s(r := (s r)\<lparr>userData := f (userData (s r))\<rparr>)"

definition indexLink :: "string \<times> ref \<Rightarrow> store \<times> RobotIndex \<Rightarrow> store \<times> RobotIndex" where
  \<comment> \<open>the body of the loop of phase 1\<close>
  "indexLink e st =
     (case (e, st) of ((linkName, link), (s, index)) \<Rightarrow>
        let index1 = index\<lparr>links := (links index)(linkName \<mapsto> link)\<rparr>;
            s1 = updUserData (\<lambda>u. u\<lparr>ud_isURDFLink := True, ud_linkName := Some linkName\<rparr>) link s
        in (case extractInertialData (s1 link) linkName of
              None \<Rightarrow> (s1, index1)
            | Some inertialData \<Rightarrow>
                let index2 = index1\<lparr>linkInertials := (linkInertials index1)(linkName \<mapsto> inertialData)\<rparr>;
                    s2 = updUserData (\<lambda>u. u\<lparr>ud_inertialData := Some inertialData\<rparr>) link s1;
                    s3 = (if isSensor inertialData
                          then updUserData (\<lambda>u. u\<lparr>ud_isSensor := True\<rparr>) link s2 else s2)
                in (s3, index2)))"

definition indexJoint :: "string \<times> ref \<Rightarrow> store \<times> RobotIndex \<Rightarrow> store \<times> RobotIndex" where
  \<comment> \<open>the body of the loop of phase 2\<close>
  "indexJoint e st =
     (case (e, st) of ((jointName, joint), (s, index)) \<Rightarrow>
        let jd = extractJointData (s joint);
            index1 = index\<lparr>joints := (joints index)(jointName \<mapsto> joint),
                           jointData := (jointData index)(jointName \<mapsto> jd),
                           jointAffectedMeshes := (jointAffectedMeshes index)(jointName \<mapsto> [])\<rparr>;
            s1 = updUserData (\<lambda>u. u\<lparr>ud_isURDFJoint := True, ud_jointType := Some (jd_jointType jd),
                                        ud_axis := Some (jd_axis jd), ud_limit := Some (jd_limit jd)\<rparr>)
                   joint s
        in (s1, index1))"

definition registerAffected :: "store \<Rightarrow> ref \<Rightarrow> ref \<Rightarrow> RobotIndex \<Rightarrow> RobotIndex" where
  \<comment> \<open>the body of the loop over \<open>affectingJoints\<close>\<close>
  "registerAffected s mesh j index =
     (let jointName = name (s j);
          index1 = (case (if jointName \<noteq> [] then jointAffectedMeshes index jointName else None) of
                      None \<Rightarrow> index
                    | Some ms \<Rightarrow> index\<lparr>jointAffectedMeshes :=
                                         (jointAffectedMeshes index)(jointName \<mapsto> setAdd mesh ms)\<rparr>)
      in (case jointData index1 jointName of
            None \<Rightarrow> index1
          | Some jd \<Rightarrow> index1\<lparr>jointData := (jointData index1)(jointName \<mapsto>
                         JointData (jd_jointType jd) (jd_axis jd) (jd_limit jd)
                           (jd_affectedMeshes jd @ [mesh]))\<rparr>))"

definition pushBucket :: "string \<Rightarrow> ref \<Rightarrow> (string \<rightharpoonup> ref list) \<Rightarrow> (string \<rightharpoonup> ref list)" where
  \<comment> \<open>create the bucket if the map has none, then push\<close>
  "pushBucket k mesh m = m(k \<mapsto> (case m k of None \<Rightarrow> [] | Some ms \<Rightarrow> ms) @ [mesh])"

definition indexMesh :: "scene \<Rightarrow> (string \<times> ref) list \<Rightarrow> ref \<Rightarrow> store \<times> RobotIndex
    \<Rightarrow> store \<times> RobotIndex" where
  \<comment> \<open>the callback of \<open>robot.traverse\<close> in phase 3\<close>
  "indexMesh sc rl child st =
     (case st of (s, index) \<Rightarrow>
        if ud_isGizmo (userData (s child)) then (s, index)
        else if \<not> isMesh (s child) then (s, index)
        else
          let mesh = child;
              robot = rootOf (robotTree sc);
              finalIsCollider = isCollisionMeshDeep sc s mesh robot;
              parentLinkName = snd (findNearestLink sc s mesh robot rl);
              affectingJoints = findAffectingJoints sc s mesh robot;
              isInKinematicChain = (affectingJoints \<noteq> []);
              s1 = updUserData (\<lambda>u. u\<lparr>ud_parentLinkName := Some parentLinkName,
                                          ud_isCollisionMesh := Some finalIsCollider,
                                          ud_isVisualMesh := Some (\<not> finalIsCollider),
                                          ud_isInKinematicChain := Some isInKinematicChain,
                                          ud_affectingJoints := Some (map (\<lambda>j. name (s j)) affectingJoints)\<rparr>)
                     mesh s;
              index1 = (if originalMaterials index mesh = None
                        then index\<lparr>originalMaterials := (originalMaterials index)(mesh \<mapsto> material (s1 mesh))\<rparr>
                        else index);
              index2 = (if parentLinkName \<noteq> []
                        then index1\<lparr>meshToLink := (meshToLink index1)(mesh \<mapsto> parentLinkName)\<rparr>
                        else index1);
              index3 = index2\<lparr>meshIsCollider := (meshIsCollider index2)(mesh \<mapsto> finalIsCollider)\<rparr>;
              index4 = (if parentLinkName \<noteq> []
                        then (if finalIsCollider
                              then index3\<lparr>linksCollision := pushBucket parentLinkName mesh (linksCollision index3)\<rparr>
                              else index3\<lparr>linksVisual := pushBucket parentLinkName mesh (linksVisual index3)\<rparr>)
                        else index3);
              index5 = fold (registerAffected s1 mesh) affectingJoints index4;
              index6 = (if isInKinematicChain
                        then index5\<lparr>kinematicMeshes := setAdd mesh (kinematicMeshes index5)\<rparr>
                        else if \<not> finalIsCollider
                        then index5\<lparr>staticMeshes := setAdd mesh (staticMeshes index5)\<rparr>
                        else index5)
          in (s1, index6))"

definition indexLinksAndJoints :: "store \<Rightarrow> ref \<Rightarrow> store \<times> RobotIndex" where
  \<comment> \<open>phases 1 and 2: the loops over the entries of \<open>robot.links\<close> and \<open>robot.joints\<close>,
      starting from the empty index\<close>
  "indexLinksAndJoints s robot =
     (let rl = nullish (robotLinks (s robot)) [];
          rj = nullish (robotJoints (s robot)) []
      in fold indexJoint rj (fold indexLink rl (s, createEmptyIndex)))"

definition buildRobotIndex :: "scene \<Rightarrow> store \<Rightarrow> store \<times> RobotIndex" where
  \<comment> \<open>the result pairs the store after the builder's writes with the returned index;
      phase 3 is the traversal of the robot\<close>
  "buildRobotIndex sc s =
     (let robot = rootOf (robotTree sc);
          rl = nullish (robotLinks (s robot)) []
      in fold (indexMesh sc rl) (preorder (robotTree sc)) (indexLinksAndJoints s robot))"

section \<open>Highlighting\<close>

datatype SubType = Visual | Collision

definition getLinkMeshes :: "RobotIndex \<Rightarrow> string \<Rightarrow> SubType \<Rightarrow> ref list" where
  "getLinkMeshes index linkName subType =
     (case subType of
        Collision \<Rightarrow> nullish (linksCollision index linkName) []
      | Visual \<Rightarrow> nullish (linksVisual index linkName) [])"

text \<open>
  The map of highlighted meshes is a JavaScript \<open>Map\<close> that the revert iterates, so it
  is an association list in insertion order. A material is a reference (or absent);
  the material objects live in a store of their own, with the properties the revert
  writes. A material value that is an array has \<open>isArray\<close> set and its elements in
  \<open>elems\<close>.
\<close>

type_synonym highlighted = "(ref \<times> ref option) list"

record matobj =
  isArray :: bool
  elems :: "ref option list"
  transparent :: bool
  opacity :: real

type_synonym matstore = "ref \<Rightarrow> matobj"

definition mapHas :: "('k \<times> 'v) list \<Rightarrow> 'k \<Rightarrow> bool" where
  "mapHas m k = (k \<in> set (map fst m))"

definition setVisible :: "bool \<Rightarrow> ref \<Rightarrow> store \<Rightarrow> store" where
  "setVisible v r s = s(r := (s r)\<lparr>visible := v\<rparr>)"

definition highlightMesh :: "scene \<Rightarrow> ref \<Rightarrow> ref \<Rightarrow> store \<times> highlighted \<Rightarrow> store \<times> highlighted" where
  \<comment> \<open>the body of the loop of \<open>highlightLinkMeshes\<close>\<close>
  "highlightMesh sc highlightMaterial mesh st =
     (case st of (s, highlightedMeshes) \<Rightarrow>
        if ud_isGizmo (userData (s mesh)) then (s, highlightedMeshes)
        else
          let hl1 = (if \<not> mapHas highlightedMeshes mesh
                     then highlightedMeshes @ [(mesh, material (s mesh))]
                     else highlightedMeshes);
              s1 = s(mesh := (s mesh)\<lparr>material := Some highlightMaterial\<rparr>);
              s2 = setVisible True mesh s1;
              s3 = (case parentChain sc mesh of [] \<Rightarrow> s2 | p # ps \<Rightarrow> setVisible True p s2)
          in (s3, hl1))"

definition highlightLinkMeshes :: "scene \<Rightarrow> RobotIndex \<Rightarrow> string \<Rightarrow> ref \<Rightarrow> SubType
    \<Rightarrow> store \<times> highlighted \<Rightarrow> store \<times> highlighted" where
  "highlightLinkMeshes sc index linkName highlightMaterial subType st =
     fold (highlightMesh sc highlightMaterial) (getLinkMeshes index linkName subType) st"

definition restoreParents :: "(obj \<Rightarrow> bool) \<Rightarrow> bool \<Rightarrow> ref list \<Rightarrow> store \<Rightarrow> store" where
  \<comment> \<open>the loop \<^verbatim>\<open>while (parent)\<close> of the revert, over the chain of parents\<close>
  "restoreParents isContainer v chain s =
     fold (\<lambda>parent s'. if isContainer (s' parent) then setVisible v parent s' else s') chain s"

definition restoreCollisionMaterial :: "ref option \<Rightarrow> matstore \<Rightarrow> matstore" where
  \<comment> \<open>the loop over \<open>materials\<close> when the collision geometry is shown\<close>
  "restoreCollisionMaterial mat ms =
     (let materials = (case mat of
                         None \<Rightarrow> [None]
                       | Some r \<Rightarrow> if isArray (ms r) then elems (ms r) else [Some r])
      in fold (\<lambda>m ms'. case m of None \<Rightarrow> ms'
                 | Some r \<Rightarrow> ms'(r := (ms' r)\<lparr>transparent := True, opacity := 0.4\<rparr>))
           materials ms)"

definition revertMesh :: "scene \<Rightarrow> bool \<Rightarrow> bool \<Rightarrow> ref \<times> ref option \<Rightarrow> store \<times> matstore
    \<Rightarrow> store \<times> matstore" where
  \<comment> \<open>the callback of \<open>highlightedMeshes.forEach\<close>\<close>
  "revertMesh sc showVisual showCollision e st =
     (case (e, st) of ((mesh, origMaterial), (s, ms)) \<Rightarrow>
        let s1 = s(mesh := (s mesh)\<lparr>material := origMaterial\<rparr>) in
        if ud_isCollisionMesh (userData (s1 mesh)) = Some True then
          let s2 = setVisible showCollision mesh s1;
              s3 = restoreParents (\<lambda>p. isURDFCollider p \<or> otype p = ''URDFCollider'')
                     showCollision (parentChain sc mesh) s2;
              ms1 = (if showCollision then restoreCollisionMaterial (material (s3 mesh)) ms else ms);
              s4 = s3(mesh := (s3 mesh)\<lparr>renderOrder := (if showCollision then 999 else 0)\<rparr>)
          in (s4, ms1)
        else
          let s2 = setVisible showVisual mesh s1;
              s3 = s2(mesh := (s2 mesh)\<lparr>renderOrder := 0\<rparr>);
              s4 = restoreParents (\<lambda>p. isURDFVisual p \<or> otype p = ''URDFVisual'')
                     showVisual (parentChain sc mesh) s3
          in (s4, ms))"

definition restoreAll :: "scene \<Rightarrow> highlighted \<Rightarrow> bool \<Rightarrow> bool \<Rightarrow> store \<times> matstore
    \<Rightarrow> store \<times> matstore" where
  \<comment> \<open>\<open>highlightedMeshes.forEach(...)\<close>: the map is only read\<close>
  "restoreAll sc highlightedMeshes showVisual showCollision st =
     fold (revertMesh sc showVisual showCollision) highlightedMeshes st"

definition revertHighlights :: "scene \<Rightarrow> highlighted \<Rightarrow> bool \<Rightarrow> bool \<Rightarrow> store \<times> matstore
    \<Rightarrow> (store \<times> matstore) \<times> highlighted" where
  \<comment> \<open>the restoring pass, then \<open>highlightedMeshes.clear()\<close>\<close>
  "revertHighlights sc highlightedMeshes showVisual showCollision st =
     (restoreAll sc highlightedMeshes showVisual showCollision st, [])"

section \<open>Freezing static matrices\<close>

text \<open>
  \<^verbatim>\<open>updateMatrix\<close> and \<^verbatim>\<open>updateMatrixWorld(true)\<close> are three.js methods: they
  recompute the local matrix of the mesh, and the world matrix of the mesh and of
  every descendant, from positions, rotations and scales, which are not part of the
  store. The recomputed world matrices are the parameter \<open>worldOf\<close>.
\<close>

fun subtreeT :: "tree \<Rightarrow> ref \<Rightarrow> tree option"
  and subtreeF :: "tree list \<Rightarrow> ref \<Rightarrow> tree option" where
  "subtreeT (Node r ts) n = (if r = n then Some (Node r ts) else subtreeF ts n)"
| "subtreeF [] n = None"
| "subtreeF (t # ts) n = (case subtreeT t n of Some u \<Rightarrow> Some u | None \<Rightarrow> subtreeF ts n)"

definition withDescendants :: "scene \<Rightarrow> ref \<Rightarrow> ref list" where
  "withDescendants sc n = (case subtreeT (robotTree sc) n of None \<Rightarrow> [n] | Some t \<Rightarrow> preorder t)"

definition freezeMesh :: "(ref \<Rightarrow> mat4) \<Rightarrow> scene \<Rightarrow> ref \<Rightarrow> store \<Rightarrow> store" where
  "freezeMesh worldOf sc mesh s =
     (let s1 = s(mesh := (s mesh)\<lparr>matrixAutoUpdate := False\<rparr>)
      in fold (\<lambda>n s'. s'(n := (s' n)\<lparr>matrixWorld := worldOf n\<rparr>)) (withDescendants sc mesh) s1)"

definition freezeStaticMatrices :: "(ref \<Rightarrow> mat4) \<Rightarrow> scene \<Rightarrow> RobotIndex \<Rightarrow> store \<Rightarrow> store" where
  "freezeStaticMatrices worldOf sc index s = fold (freezeMesh worldOf sc) (staticMeshes index) s"

section \<open>Joint dragging\<close>

text \<open>
  The vector operations are those of three.js (\<open>Vector3\<close>, \<open>Plane\<close>, \<open>Ray\<close>,
  \<open>Matrix4\<close>), each with the arithmetic operations in the order in which the library
  applies them (a sum of three products is \<open>(p + q) + r\<close>). The world matrices, the
  axes, the limits and the rays that the drag reads hold finite numbers; everything the
  drag computes from them is a \<open>jsnum\<close>.
\<close>

type_synonym jvec3 = "jsnum \<times> jsnum \<times> jsnum"
type_synonym ray = "vec3 \<times> vec3"

fun toJs :: "vec3 \<Rightarrow> jvec3" where
  "toJs (x, y, z) = (Fin x, Fin y, Fin z)"

fun vadd :: "rounding \<Rightarrow> jvec3 \<Rightarrow> jvec3 \<Rightarrow> jvec3" where
  "vadd rd (ax, ay, az) (bx, by, bz) = (jsAdd rd ax bx, jsAdd rd ay by, jsAdd rd az bz)"

fun vsub :: "rounding \<Rightarrow> jvec3 \<Rightarrow> jvec3 \<Rightarrow> jvec3" where
  "vsub rd (ax, ay, az) (bx, by, bz) = (jsSub rd ax bx, jsSub rd ay by, jsSub rd az bz)"

fun multiplyScalar :: "rounding \<Rightarrow> jvec3 \<Rightarrow> jsnum \<Rightarrow> jvec3" where
  "multiplyScalar rd (x, y, z) k = (jsMul rd x k, jsMul rd y k, jsMul rd z k)"

fun dot :: "rounding \<Rightarrow> jvec3 \<Rightarrow> jvec3 \<Rightarrow> jsnum" where
  "dot rd (ax, ay, az) (bx, by, bz) =
     jsAdd rd (jsAdd rd (jsMul rd ax bx) (jsMul rd ay by)) (jsMul rd az bz)"

fun crossVectors :: "rounding \<Rightarrow> jvec3 \<Rightarrow> jvec3 \<Rightarrow> jvec3" where
  "crossVectors rd (ax, ay, az) (bx, by, bz) =
     (jsSub rd (jsMul rd ay bz) (jsMul rd az by),
      jsSub rd (jsMul rd az bx) (jsMul rd ax bz),
      jsSub rd (jsMul rd ax by) (jsMul rd ay bx))"

definition lengthSq :: "rounding \<Rightarrow> jvec3 \<Rightarrow> jsnum" where
  "lengthSq rd v = dot rd v v"

definition vlength :: "rounding \<Rightarrow> jvec3 \<Rightarrow> jsnum" where
  "vlength rd v = jsSqrt rd (lengthSq rd v)"

definition divideScalar :: "rounding \<Rightarrow> jvec3 \<Rightarrow> jsnum \<Rightarrow> jvec3" where
  \<comment> \<open>\<^verbatim>\<open>multiplyScalar(1 / scalar)\<close>\<close>
  "divideScalar rd v k = multiplyScalar rd v (jsDivide rd (Fin 1) k)"

definition normalize :: "rounding \<Rightarrow> jvec3 \<Rightarrow> jvec3" where
  \<comment> \<open>\<^verbatim>\<open>divideScalar(length() || 1)\<close>\<close>
  "normalize rd v = divideScalar rd v (jsOr (vlength rd v) (Fin 1))"

fun applyLinear :: "rounding \<Rightarrow> mat4 \<Rightarrow> jvec3 \<Rightarrow> jvec3" where
  \<comment> \<open>the upper left 3x3 block of the matrix applied to the vector\<close>
  "applyLinear rd ((e0, e1, e2), (e4, e5, e6), (e8, e9, e10), p) (x, y, z) =
     (jsAdd rd (jsAdd rd (jsMul rd (Fin e0) x) (jsMul rd (Fin e4) y)) (jsMul rd (Fin e8) z),
      jsAdd rd (jsAdd rd (jsMul rd (Fin e1) x) (jsMul rd (Fin e5) y)) (jsMul rd (Fin e9) z),
      jsAdd rd (jsAdd rd (jsMul rd (Fin e2) x) (jsMul rd (Fin e6) y)) (jsMul rd (Fin e10) z))"

definition transformDirection :: "rounding \<Rightarrow> jvec3 \<Rightarrow> mat4 \<Rightarrow> jvec3" where
  "transformDirection rd v m = normalize rd (applyLinear rd m v)"

definition setFromMatrixPosition :: "mat4 \<Rightarrow> jvec3" where
  \<comment> \<open>\<open>elements[12..14]\<close>\<close>
  "setFromMatrixPosition m = toJs (snd (snd (snd m)))"

text \<open>A plane is its normal and its constant.\<close>

definition setFromNormalAndCoplanarPoint :: "rounding \<Rightarrow> jvec3 \<Rightarrow> jvec3 \<Rightarrow> jvec3 \<times> jsnum" where
  "setFromNormalAndCoplanarPoint rd normal point = (normal, jsNeg (dot rd point normal))"

definition distanceToPoint :: "rounding \<Rightarrow> jvec3 \<times> jsnum \<Rightarrow> jvec3 \<Rightarrow> jsnum" where
  "distanceToPoint rd plane point = jsAdd rd (dot rd (fst plane) point) (snd plane)"

definition projectPoint :: "rounding \<Rightarrow> jvec3 \<times> jsnum \<Rightarrow> jvec3 \<Rightarrow> jvec3" where
  \<comment> \<open>the point plus the normal scaled by the negated distance\<close>
  "projectPoint rd plane point =
     vadd rd point (multiplyScalar rd (fst plane) (jsNeg (distanceToPoint rd plane point)))"

definition clamp :: "jsnum \<Rightarrow> jsnum \<Rightarrow> jsnum \<Rightarrow> jsnum" where
  \<comment> \<open>\<^verbatim>\<open>MathUtils.clamp(value, min, max)\<close> is \<^verbatim>\<open>Math.max(min, Math.min(max, value))\<close>\<close>
  "clamp v lo hi = jsMax lo (jsMin hi v)"

definition angleTo :: "rounding \<Rightarrow> jvec3 \<Rightarrow> jvec3 \<Rightarrow> jsnum" where
  \<comment> \<open>\<^verbatim>\<open>Vector3.angleTo\<close>: a zero denominator gives \<^verbatim>\<open>Math.PI / 2\<close>\<close>
  "angleTo rd a b =
     (let denominator = jsSqrt rd (jsMul rd (lengthSq rd a) (lengthSq rd b))
      in if denominator = Fin 0 then jsDivide rd (MathPI rd) (Fin 2)
         else let theta = jsDivide rd (dot rd a b) denominator
              in jsAcos rd (clamp theta (Fin (- 1)) (Fin 1)))"

definition rayAt :: "rounding \<Rightarrow> ray \<Rightarrow> real \<Rightarrow> jvec3" where
  \<comment> \<open>\<^verbatim>\<open>Ray.at(t, target)\<close>: the origin plus the direction scaled by \<open>t\<close>\<close>
  "rayAt rd r t = vadd rd (toJs (fst r)) (multiplyScalar rd (toJs (snd r)) (Fin t))"

datatype error = TypeError

definition axisVector :: "obj \<Rightarrow> error + vec3" where
  \<comment> \<open>\<^verbatim>\<open>joint.axis || new THREE.Vector3(0, 0, 1)\<close>, on which \<open>clone\<close> is then called:
      a truthy axis that is no \<open>Vector3\<close> has no such method\<close>
  "axisVector joint =
     (case axis joint of
        None \<Rightarrow> Inr (0, 0, 1)
      | Some (AxisVector3 x y z) \<Rightarrow> Inr (x, y, z)
      | Some _ \<Rightarrow> Inl TypeError)"

definition worldAxis :: "rounding \<Rightarrow> vec3 \<Rightarrow> mat4 \<Rightarrow> jvec3" where
  \<comment> \<open>\<^verbatim>\<open>axis.clone().transformDirection(m).normalize()\<close>\<close>
  "worldAxis rd ax m = normalize rd (transformDirection rd (toJs ax) m)"

definition projectedRelative :: "rounding \<Rightarrow> jvec3 \<Rightarrow> jvec3 \<Rightarrow> jvec3 \<Rightarrow> jvec3" where
  \<comment> \<open>\<open>projStart\<close> and \<open>projEnd\<close> of \<open>getRevoluteDelta\<close>: the point projected onto the
      plane through the pivot, then made relative to the pivot\<close>
  "projectedRelative rd axisWorld pivotPoint pt =
     (let plane = setFromNormalAndCoplanarPoint rd axisWorld pivotPoint
      in vsub rd (projectPoint rd plane pt) pivotPoint)"

definition getRevoluteDelta :: "rounding \<Rightarrow> obj \<Rightarrow> jvec3 \<Rightarrow> jvec3 \<Rightarrow> error + jsnum" where
  "getRevoluteDelta rd joint startPt endPt =
     (case axisVector joint of
        Inl e \<Rightarrow> Inl e
      | Inr ax \<Rightarrow>
          let axisWorld = worldAxis rd ax (matrixWorld joint);
              pivotPoint = setFromMatrixPosition (matrixWorld joint);
              projStart = projectedRelative rd axisWorld pivotPoint startPt;
              projEnd = projectedRelative rd axisWorld pivotPoint endPt;
              cross = crossVectors rd projStart projEnd;
              direction = jsSign (dot rd cross axisWorld)
          in Inr (jsMul rd direction (angleTo rd projStart projEnd)))"

definition getPrismaticDelta :: "rounding \<Rightarrow> scene \<Rightarrow> store \<Rightarrow> ref \<Rightarrow> jvec3 \<Rightarrow> jvec3
    \<Rightarrow> error + jsnum" where
  \<comment> \<open>\<open>joint.parent\<close> is the head of the joint's chain; none is \<open>null\<close>\<close>
  "getPrismaticDelta rd sc s joint startPt endPt =
     (case axisVector (s joint) of
        Inl e \<Rightarrow> Inl e
      | Inr ax \<Rightarrow>
         (case parentChain sc joint of
            [] \<Rightarrow> Inl TypeError
          | parent # rest \<Rightarrow>
              let axisWorld = worldAxis rd ax (matrixWorld (s parent));
                  delta = vsub rd endPt startPt
              in Inr (dot rd delta axisWorld)))"

text \<open>
  The drag session of the pointer controller. \<open>angle = None\<close> stands for a joint value
  that is \<open>undefined\<close>. \<open>setJointValue\<close> is the loader's method; the model stores the
  value it is given and records the call.
\<close>

record dragSession =
  isDraggingJoint :: bool
  dragJoint :: "ref option"
  dragHitDistance :: real
  lastRay :: ray

datatype event =
    SetJointValue ref jsnum
  | Invalidate
  | JointChange string jsnum

definition defaultLimit :: "rounding \<Rightarrow> jsnum \<times> jsnum" where
  \<comment> \<open>\<^verbatim>\<open>{ lower: -Math.PI, upper: Math.PI }\<close>\<close>
  "defaultLimit rd = (jsNeg (MathPI rd), MathPI rd)"

definition limitBounds :: "rounding \<Rightarrow> obj \<Rightarrow> jsnum \<times> jsnum" where
  \<comment> \<open>\<open>limit.lower\<close> and \<open>limit.upper\<close> of \<^verbatim>\<open>joint.limit || { ... }\<close>\<close>
  "limitBounds rd joint =
     (case limit joint of
        None \<Rightarrow> defaultLimit rd
      | Some lmt \<Rightarrow> (numOf (lower_raw lmt), numOf (upper_raw lmt)))"

definition moveRay :: "rounding \<Rightarrow> scene \<Rightarrow> bool \<Rightarrow> ray \<Rightarrow> store \<times> dragSession
    \<Rightarrow> error + (store \<times> dragSession \<times> event list)" where
  \<comment> \<open>the flag says whether an \<open>onJointChange\<close> callback is installed\<close>
  "moveRay rd sc hasOnJointChange toRay st =
     (case st of (s, d) \<Rightarrow>
        (case (if isDraggingJoint d then dragJoint d else None) of
           None \<Rightarrow> Inr (s, d, [])
         | Some j \<Rightarrow>
            let prevHitPoint = rayAt rd (lastRay d) (dragHitDistance d);
                newHitPoint = rayAt rd toRay (dragHitDistance d);
                jt = jointType (s j);
                deltaR = (if jt = Some ''revolute'' \<or> jt = Some ''continuous''
                          then getRevoluteDelta rd (s j) prevHitPoint newHitPoint
                          else if jt = Some ''prismatic''
                          then getPrismaticDelta rd sc s j prevHitPoint newHitPoint
                          else Inr (Fin 0))
            in (case deltaR of
                  Inl e \<Rightarrow> Inl e
                | Inr delta \<Rightarrow>
                    if delta \<noteq> Fin 0 then
                      let currentAngle = jsOr (nullish (angle (s j)) (Fin 0)) (Fin 0);
                          newAngle0 = jsAdd rd currentAngle delta;
                          lmt = limitBounds rd (s j);
                          newAngle = (if jt = Some ''revolute''
                                      then jsMax (fst lmt) (jsMin (snd lmt) newAngle0)
                                      else newAngle0);
                          s1 = (if hasSetJointValue (s j) then s(j := (s j)\<lparr>angle := Some newAngle\<rparr>) else s);
                          ev1 = (if hasSetJointValue (s j) then [SetJointValue j newAngle, Invalidate] else []);
                          ev2 = (if hasOnJointChange then [JointChange (name (s j)) newAngle] else [])
                      in Inr (s1, d\<lparr>lastRay := toRay\<rparr>, ev1 @ ev2)
                    else Inr (s, d\<lparr>lastRay := toRay\<rparr>, []))))"

section \<open>Vocabulary of the properties\<close>

definition emptyUserData :: userdata where
  "emptyUserData =
     \<lparr> ud_isGizmo = False, ud_isURDFCollider = False, ud_isCollisionMesh = None,
       ud_isVisualMesh = None, ud_isURDFLink = False, ud_linkName = None,
       ud_inertial = None, ud_inertialData = None, ud_isSensor = False,
       ud_isURDFJoint = False, ud_jointType = None, ud_axis = None, ud_limit = None,
       ud_parentLinkName = None, ud_isInKinematicChain = None,
       ud_affectingJoints = None \<rparr>"

definition belowRobot :: "ref \<Rightarrow> ref list \<Rightarrow> ref list" where
  \<comment> \<open>the part of a chain that the loops \<^verbatim>\<open>while (current && current !== robot)\<close> walk\<close>
  "belowRobot robot chain = takeWhile (\<lambda>c. c \<noteq> robot) chain"

text \<open>
  The geometry that the properties of the drag speak of, over the reals: vectors, the
  direction and the position that a world matrix gives, the point of a ray at a
  distance, the part of a point's offset from the pivot that lies in the plane
  perpendicular to a unit vector, and the angle between two vectors with the sign of
  \<open>(a \<times> b) \<sqdot> n\<close>.
\<close>

fun vecSum :: "vec3 \<Rightarrow> vec3 \<Rightarrow> vec3" where
  "vecSum (a1, a2, a3) (b1, b2, b3) = (a1 + b1, a2 + b2, a3 + b3)"

fun vecDiff :: "vec3 \<Rightarrow> vec3 \<Rightarrow> vec3" where
  "vecDiff (a1, a2, a3) (b1, b2, b3) = (a1 - b1, a2 - b2, a3 - b3)"

fun vecScale :: "real \<Rightarrow> vec3 \<Rightarrow> vec3" where
  "vecScale k (a1, a2, a3) = (k * a1, k * a2, k * a3)"

fun scalarProduct :: "vec3 \<Rightarrow> vec3 \<Rightarrow> real" where
  "scalarProduct (a1, a2, a3) (b1, b2, b3) = a1 * b1 + a2 * b2 + a3 * b3"

fun vectorProduct :: "vec3 \<Rightarrow> vec3 \<Rightarrow> vec3" where
  "vectorProduct (a1, a2, a3) (b1, b2, b3) =
     (a2 * b3 - a3 * b2, a3 * b1 - a1 * b3, a1 * b2 - a2 * b1)"

definition euclideanLength :: "vec3 \<Rightarrow> real" where
  "euclideanLength v = sqrt (scalarProduct v v)"

definition unitDirection :: "vec3 \<Rightarrow> vec3" where
  \<comment> \<open>the vector scaled to length one; the zero vector stays as it is\<close>
  "unitDirection v = vecScale (1 / euclideanLength v) v"

fun frameDirection :: "mat4 \<Rightarrow> vec3 \<Rightarrow> vec3" where
  \<comment> \<open>a direction taken to the world frame: the combination of the three axes of the
      frame, without its position\<close>
  "frameDirection (c1, c2, c3, t) (x, y, z) =
     vecSum (vecSum (vecScale x c1) (vecScale y c2)) (vecScale z c3)"

fun framePosition :: "mat4 \<Rightarrow> vec3" where
  "framePosition (c1, c2, c3, t) = t"

definition pointAlong :: "ray \<Rightarrow> real \<Rightarrow> vec3" where
  "pointAlong r t = vecSum (fst r) (vecScale t (snd r))"

definition inPlaneOffset :: "vec3 \<Rightarrow> vec3 \<Rightarrow> vec3 \<Rightarrow> vec3" where
  "inPlaneOffset n pivot p =
     (let v = vecDiff p pivot in vecDiff v (vecScale (scalarProduct v n) n))"

definition signedAngle :: "vec3 \<Rightarrow> vec3 \<Rightarrow> vec3 \<Rightarrow> real" where
  "signedAngle n a b =
     sgn (scalarProduct (vectorProduct a b) n)
       * arccos (scalarProduct a b / (euclideanLength a * euclideanLength b))"

definition zeroVector :: jvec3 where
  "zeroVector = (Fin 0, Fin 0, Fin 0)"

definition isFinite :: "jsnum \<Rightarrow> bool" where
  \<comment> \<open>neither an infinity nor \<open>NaN\<close>\<close>
  "isFinite a = (case a of Fin x \<Rightarrow> True | _ \<Rightarrow> False)"

definition finiteVector :: "jvec3 \<Rightarrow> bool" where
  "finiteVector v = (isFinite (fst v) \<and> isFinite (fst (snd v)) \<and> isFinite (snd (snd v)))"

definition applyHighlights :: "scene \<Rightarrow> RobotIndex \<Rightarrow> (string \<times> ref \<times> SubType) list
    \<Rightarrow> store \<times> highlighted \<Rightarrow> store \<times> highlighted" where
  \<comment> \<open>a sequence of calls of \<open>highlightLinkMeshes\<close>, each with its link name, highlight
      material and sub-type, on the same map of highlighted meshes\<close>
  "applyHighlights sc index calls st =
     fold (\<lambda>c. highlightLinkMeshes sc index (fst c) (fst (snd c)) (snd (snd c))) calls st"

definition captured :: "ref \<Rightarrow> ref option \<Rightarrow> store \<times> highlighted \<Rightarrow> bool" where
  \<comment> \<open>every entry of the map for the mesh holds the material \<open>x\<close>, and a mesh without
      entry still has it\<close>
  "captured m x st =
     ((\<forall>e \<in> set (snd st). fst e = m \<longrightarrow> snd e = x)
      \<and> (mapHas (snd st) m \<or> material (fst st m) = x))"

definition sameOutsideUserData :: "obj \<Rightarrow> obj \<Rightarrow> bool" where
  \<comment> \<open>the two objects agree in every field but \<open>userData\<close>: they are equal once both
      have the same \<open>userData\<close>\<close>
  "sameOutsideUserData a b = (a\<lparr>userData := emptyUserData\<rparr> = b\<lparr>userData := emptyUserData\<rparr>)"

definition otherEntriesKept :: "userdata \<Rightarrow> userdata \<Rightarrow> bool" where
  "otherEntriesKept u u' =
     (ud_isGizmo u' = ud_isGizmo u \<and> ud_isURDFCollider u' = ud_isURDFCollider u
      \<and> ud_inertial u' = ud_inertial u)"

definition linkEntriesKept :: "userdata \<Rightarrow> userdata \<Rightarrow> bool" where
  "linkEntriesKept u u' =
     (ud_isURDFLink u' = ud_isURDFLink u \<and> ud_linkName u' = ud_linkName u
      \<and> ud_inertialData u' = ud_inertialData u \<and> ud_isSensor u' = ud_isSensor u)"

definition jointEntriesKept :: "userdata \<Rightarrow> userdata \<Rightarrow> bool" where
  "jointEntriesKept u u' =
     (ud_isURDFJoint u' = ud_isURDFJoint u \<and> ud_jointType u' = ud_jointType u
      \<and> ud_axis u' = ud_axis u \<and> ud_limit u' = ud_limit u)"

definition meshEntriesKept :: "userdata \<Rightarrow> userdata \<Rightarrow> bool" where
  "meshEntriesKept u u' =
     (ud_parentLinkName u' = ud_parentLinkName u
      \<and> ud_isCollisionMesh u' = ud_isCollisionMesh u
      \<and> ud_isVisualMesh u' = ud_isVisualMesh u
      \<and> ud_isInKinematicChain u' = ud_isInKinematicChain u
      \<and> ud_affectingJoints u' = ud_affectingJoints u)"

definition writesOnly :: "ref set \<Rightarrow> ref set \<Rightarrow> ref set \<Rightarrow> store \<Rightarrow> store \<Rightarrow> bool" where
  \<comment> \<open>from the first store to the second, only \<open>userData\<close> entries change: the link
      entries of the objects in \<open>L\<close>, the joint entries of those in \<open>J\<close>, the mesh entries
      of those in \<open>M\<close>\<close>
  "writesOnly L J M s s' =
     (\<forall>r. sameOutsideUserData (s r) (s' r)
          \<and> otherEntriesKept (userData (s r)) (userData (s' r))
          \<and> (r \<notin> L \<longrightarrow> linkEntriesKept (userData (s r)) (userData (s' r)))
          \<and> (r \<notin> J \<longrightarrow> jointEntriesKept (userData (s r)) (userData (s' r)))
          \<and> (r \<notin> M \<longrightarrow> meshEntriesKept (userData (s r)) (userData (s' r))))"

definition indexedMesh :: "store \<Rightarrow> ref \<Rightarrow> bool" where
  \<comment> \<open>the traversal callback goes past its two early returns\<close>
  "indexedMesh s r = (\<not> ud_isGizmo (userData (s r)) \<and> isMesh (s r))"

definition indexConsistentAt :: "scene \<Rightarrow> store \<Rightarrow> (string \<times> ref) list \<Rightarrow> RobotIndex \<Rightarrow> ref
    \<Rightarrow> bool" where
  \<comment> \<open>what the index says about one mesh fits together: the owner map, the two
      buckets of every link, and the kinematic and the static set, given the owner
      walk and the joint walk of the mesh in the store \<open>s\<close>\<close>
  "indexConsistentAt sc s rl index m =
     (let robot = rootOf (robotTree sc);
          owner = snd (findNearestLink sc s m robot rl);
          js = findAffectingJoints sc s m robot
      in meshToLink index m
           = (if meshIsCollider index m \<noteq> None \<and> owner \<noteq> [] then Some owner else None)
         \<and> (\<forall>L. count_list (getLinkMeshes index L Visual) m
                = (if meshIsCollider index m = Some False \<and> owner = L \<and> L \<noteq> [] then 1 else 0))
         \<and> (\<forall>L. count_list (getLinkMeshes index L Collision) m
                = (if meshIsCollider index m = Some True \<and> owner = L \<and> L \<noteq> [] then 1 else 0))
         \<and> (m \<in> set (kinematicMeshes index) \<longleftrightarrow> meshIsCollider index m \<noteq> None \<and> js \<noteq> [])
         \<and> (m \<in> set (staticMeshes index) \<longleftrightarrow> meshIsCollider index m = Some False \<and> js = []))"

definition meshFieldsOf :: "RobotIndex \<Rightarrow> (string \<rightharpoonup> ref list) \<times> (string \<rightharpoonup> ref list) \<times> ref list
    \<times> ref list \<times> (ref \<rightharpoonup> string) \<times> (ref \<rightharpoonup> bool)" where
  \<comment> \<open>the parts of the index that phase 3 fills per mesh\<close>
  "meshFieldsOf index = (linksVisual index, linksCollision index, kinematicMeshes index,
     staticMeshes index, meshToLink index, meshIsCollider index)"

definition jointAxes :: "RobotIndex \<Rightarrow> string \<rightharpoonup> num3" where
  \<comment> \<open>the axis that the index records for a joint name\<close>
  "jointAxes index = (\<lambda>n. map_option jd_axis (jointData index n))"

definition linkEntriesWritten :: "string \<Rightarrow> obj \<Rightarrow> userdata \<Rightarrow> bool" where
  \<comment> \<open>the entries that the builder writes for a link registered under the name, given
      the link as it is before the build: the flag, the name, and, when the link carries
      inertial data, the extracted data and the sensor mark of a sensor\<close>
  "linkEntriesWritten linkName ob u =
     (ud_isURDFLink u \<and> ud_linkName u = Some linkName
      \<and> (case extractInertialData ob linkName of
            None \<Rightarrow> ud_inertialData u = ud_inertialData (userData ob)
                    \<and> ud_isSensor u = ud_isSensor (userData ob)
          | Some d \<Rightarrow> ud_inertialData u = Some d
                      \<and> ud_isSensor u = (isSensor d \<or> ud_isSensor (userData ob))))"

definition jointEntriesWritten :: "obj \<Rightarrow> userdata \<Rightarrow> bool" where
  \<comment> \<open>the entries that the builder writes for a registered joint, given the joint as it
      is before the build: the flag and the type, axis and limit that the index records\<close>
  "jointEntriesWritten ob u =
     (ud_isURDFJoint u
      \<and> ud_jointType u = Some (jd_jointType (extractJointData ob))
      \<and> ud_axis u = Some (jd_axis (extractJointData ob))
      \<and> ud_limit u = Some (jd_limit (extractJointData ob)))"

definition meshEntriesWritten :: "scene \<Rightarrow> store \<Rightarrow> ref \<Rightarrow> userdata \<Rightarrow> bool" where
  \<comment> \<open>the entries that the builder writes for an indexed mesh, given the store before the
      build: the owner that the owner walk finds once the links and joints are
      registered, the classification, and the non-fixed joints above the mesh, nearest
      first, by name\<close>
  "meshEntriesWritten sc s m u =
     (let robot = rootOf (robotTree sc);
          owner = snd (findNearestLink sc (fst (indexLinksAndJoints s robot)) m robot
                         (nullish (robotLinks (s robot)) []));
          col = isCollisionMeshDeep sc s m robot;
          js = findAffectingJoints sc s m robot
      in ud_parentLinkName u = Some owner
         \<and> ud_isCollisionMesh u = Some col
         \<and> ud_isVisualMesh u = Some (\<not> col)
         \<and> ud_isInKinematicChain u = Some (js \<noteq> [])
         \<and> ud_affectingJoints u = Some (map (\<lambda>j. name (s j)) js))"

definition pathProp :: "ref list \<Rightarrow> (ref \<Rightarrow> ref list option) \<Rightarrow> ref set \<Rightarrow> ref \<Rightarrow> bool" where
  \<comment> \<open>a path found for \<open>n\<close> is a list of nodes followed by the accumulator, and every
      node on it has the rest of the path as its own path\<close>
  "pathProp acc look nodes n =
     (\<forall>p. look n = Some p \<longrightarrow>
        (\<exists>q. p = q @ acc \<and> set q \<subseteq> nodes
             \<and> (\<forall>q1 c q2. q = q1 @ c # q2 \<longrightarrow> look c = Some (q2 @ acc))))"

definition classifiedSoFar :: "scene \<Rightarrow> store \<Rightarrow> store \<Rightarrow> bool" where
  \<comment> \<open>a store during phase 3, seen from the store \<open>s0\<close> at its start: only mesh entries
      differ, and an \<open>isCollisionMesh\<close> entry that differs holds the classification of
      its mesh in \<open>s0\<close>\<close>
  "classifiedSoFar sc s0 sv =
     (writesOnly {} {} UNIV s0 sv
      \<and> (\<forall>x. ud_isCollisionMesh (userData (sv x)) = ud_isCollisionMesh (userData (s0 x))
             \<or> ud_isCollisionMesh (userData (sv x))
                 = Some (isCollisionMeshDeep sc s0 x (rootOf (robotTree sc)))))"

definition explicitCollisionMarker :: "obj \<Rightarrow> bool" where
  \<comment> \<open>an explicit "is collision geometry" marker: class flag, type, or \<open>userData\<close> flag\<close>
  "explicitCollisionMarker ob =
     (isURDFCollider ob \<or> otype ob = ''URDFCollider''
      \<or> ud_isURDFCollider (userData ob) \<or> ud_isCollisionMesh (userData ob) = Some True)"

section \<open>Example scenes\<close>

definition identity4 :: mat4 where
  "identity4 = ((1, 0, 0), (0, 1, 0), (0, 0, 1), (0, 0, 0))"

definition Object3D :: obj where
  \<comment> \<open>a freshly constructed \<^verbatim>\<open>THREE.Object3D\<close>\<close>
  "Object3D =
     \<lparr> name = [], otype = ''Object3D'', isMesh = False, isURDFCollider = False,
       isURDFVisual = False, isURDFLink = False, urdfName = None, isURDFJoint = False,
       jointType = None, axis = None, limit = None, angle = None,
       hasSetJointValue = False, inertial = None, inertial_priv = None, material = None,
       visible = True, renderOrder = 0, matrixAutoUpdate = True, matrixWorld = identity4,
       robotLinks = None, robotJoints = None, userData = emptyUserData \<rparr>"

definition URDFLink :: "string \<Rightarrow> obj" where
  "URDFLink n = Object3D\<lparr>name := n, otype := ''URDFLink'', isURDFLink := True, urdfName := Some n\<rparr>"

definition URDFJoint :: "string \<Rightarrow> string \<Rightarrow> axis_raw \<Rightarrow> real \<Rightarrow> real \<Rightarrow> obj" where
  "URDFJoint n jt ax lo hi =
     Object3D\<lparr>name := n, otype := ''URDFJoint'', isURDFJoint := True, urdfName := Some n,
       jointType := Some jt, axis := Some ax, limit := Some (LimitRaw (Some lo) (Some hi) None None),
       angle := Some (Fin 0), hasSetJointValue := True\<rparr>"

definition Mesh :: "ref \<Rightarrow> obj" where
  "Mesh mat = Object3D\<lparr>otype := ''Mesh'', isMesh := True, material := Some mat\<rparr>"

definition URDFCollider :: obj where
  "URDFCollider = Object3D\<lparr>otype := ''URDFCollider'', isURDFCollider := True\<rparr>"

definition URDFVisual :: obj where
  "URDFVisual = Object3D\<lparr>otype := ''URDFVisual'', isURDFVisual := True\<rparr>"

text \<open>
  A robot (10) with one link \<open>base\<close> (11) that carries inertial data and a collision
  mesh (13) in a collider group (12), and a collider group (14) directly under the robot,
  outside every link, with a mesh (15); a visual mesh (16) hangs directly under the robot.
\<close>

definition staticScene :: scene where
  "staticScene =
     \<lparr> robotTree = Node 10 [Node 11 [Node 12 [Node 13 []]], Node 14 [Node 15 []], Node 16 []],
       above = [] \<rparr>"

definition staticStore :: store where
  "staticStore =
     (\<lambda>r. Object3D)
      (10 := (URDFLink ''robot'')\<lparr>robotLinks := Some [(''base'', 11)], robotJoints := Some []\<rparr>,
       11 := (URDFLink ''base'')\<lparr>inertial := Some (InertialRaw (Some 2) None None)\<rparr>,
       12 := URDFCollider,
       13 := Mesh 100,
       14 := URDFCollider,
       15 := Mesh 101,
       16 := Mesh 102)"

text \<open>
  A robot (10) whose link (11) is named \<open>collision_detector\<close> and carries a mesh (12)
  in a visual group (13); a second link (14) has a grouping node (15) named
  \<open>leg_collision\<close> with a mesh (16), and a node (17) named \<open>collisiondetector\<close> with a
  mesh (18). No node carries an explicit collision marker.
\<close>

definition namingScene :: scene where
  "namingScene =
     \<lparr> robotTree = Node 10 [Node 11 [Node 13 [Node 12 []]],
                            Node 14 [Node 15 [Node 16 []], Node 17 [Node 18 []]]],
       above = [] \<rparr>"

definition namingStore :: store where
  "namingStore =
     (\<lambda>r. Object3D)
      (10 := (URDFLink ''robot'')\<lparr>robotLinks := Some [(''collision_detector'', 11), (''leg'', 14)],
                                robotJoints := Some []\<rparr>,
       11 := URDFLink ''collision_detector'',
       13 := URDFVisual,
       12 := Mesh 100,
       14 := URDFLink ''leg'',
       15 := Object3D\<lparr>name := ''leg_collision''\<rparr>,
       16 := Mesh 101,
       17 := Object3D\<lparr>name := ''collisiondetector''\<rparr>,
       18 := Mesh 102)"

text \<open>
  A chain with two nested revolute joints: robot (10), link \<open>base\<close> (11), joint \<open>j1\<close>
  (12), link \<open>l1\<close> (13), joint \<open>j2\<close> (14), link \<open>l2\<close> (15), a visual group (16) and its
  mesh (17); the base link has a visual mesh (18) of its own.
\<close>

definition chainScene :: scene where
  "chainScene =
     \<lparr> robotTree =
         Node 10 [Node 11 [Node 18 [],
                         Node 12 [Node 13 [Node 14 [Node 15 [Node 16 [Node 17 []]]]]]]],
       above = [] \<rparr>"

definition chainStore :: store where
  "chainStore =
     (\<lambda>r. Object3D)
      (10 := (URDFLink ''robot'')\<lparr>robotLinks := Some [(''base'', 11), (''l1'', 13), (''l2'', 15)],
                                robotJoints := Some [(''j1'', 12), (''j2'', 14)]\<rparr>,
       11 := URDFLink ''base'',
       12 := URDFJoint ''j1'' ''revolute'' (AxisVector3 0 0 1) (- 1.57) 1.57,
       13 := URDFLink ''l1'',
       14 := URDFJoint ''j2'' ''revolute'' (AxisVector3 0 1 0) (- 1) 1,
       15 := URDFLink ''l2'',
       16 := URDFVisual,
       17 := Mesh 100,
       18 := Mesh 101)"

text \<open>
  A prismatic joint \<open>slide\<close> (22) between the links \<open>base\<close> (21) and \<open>carriage\<close>
  (23) of a robot (20); the carriage has a mesh (24). All world matrices are the
  identity.
\<close>

definition sliderScene :: scene where
  "sliderScene = \<lparr> robotTree = Node 20 [Node 21 [Node 22 [Node 23 [Node 24 []]]]], above = [] \<rparr>"

definition sliderStore :: store where
  "sliderStore =
     (\<lambda>r. Object3D)
      (20 := (URDFLink ''robot'')\<lparr>robotLinks := Some [(''base'', 21), (''carriage'', 23)],
                                robotJoints := Some [(''slide'', 22)]\<rparr>,
       21 := URDFLink ''base'',
       22 := URDFJoint ''slide'' ''prismatic'' (AxisVector3 0 0 1) 0 0.5,
       23 := URDFLink ''carriage'',
       24 := Mesh 100)"

text \<open>
  A drag of the joint \<open>j1\<close> (12) of the chain, whose axis is \<open>(0, 0, 1)\<close>, whose pivot
  is the world origin and whose limit is \<open>[-1.57, 1.57]\<close>, starting at the value 1.4:
  the previous ray hits \<open>(1, 0, 1/2)\<close>, above \<open>(1, 0, 0)\<close>, and the new ray hits
  \<open>(0, 1, 1/2)\<close>, above \<open>(0, 1, 0)\<close>, both at the distance 3/2.
\<close>

definition dragStore :: store where
  "dragStore = chainStore(12 := (chainStore 12)\<lparr>angle := Some (Fin 1.4)\<rparr>)"

definition dragStart :: dragSession where
  "dragStart = \<lparr> isDraggingJoint = True, dragJoint = Some 12, dragHitDistance = 3 / 2,
                 lastRay = ((1, 0, - 1), (0, 0, 1)) \<rparr>"

definition dragTarget :: ray where
  "dragTarget = ((0, 1, - 1), (0, 0, 1))"

text \<open>
  The same drag with the value and the limit of the joint as doubles: the doubles
  nearest to 1.4 and to \<open>\<plusminus>1.57\<close>.
\<close>

definition startValue64 :: real where
  "startValue64 = nearest64 1.4"

definition upperLimit64 :: real where
  "upperLimit64 = nearest64 1.57"

definition doubleStore :: store where
  "doubleStore =
     chainStore(12 := (URDFJoint ''j1'' ''revolute'' (AxisVector3 0 0 1)
                         (- upperLimit64) upperLimit64)
                        \<lparr>angle := Some (Fin startValue64)\<rparr>)"

text \<open>
  A continuous joint \<open>j1\<close> (12) in a frame that is turned and moved: the world matrix
  takes the local axes to the world directions \<open>y\<close>, \<open>z\<close> and \<open>x\<close> and the origin to
  \<open>(1, 2, 3)\<close>, and the axis is \<open>(0, 0, 2)\<close>; the value is 1/2. The previous ray hits
  \<open>(8, 4, 3)\<close> and the new ray hits \<open>(-2, 3, 3 - \<surd>3)\<close>, both at the distance 2.
\<close>

definition turnedFrame :: mat4 where
  "turnedFrame = ((0, 1, 0), (0, 0, 1), (1, 0, 0), (1, 2, 3))"

definition turnedStore :: store where
  "turnedStore =
     chainStore(12 := (URDFJoint ''j1'' ''continuous'' (AxisVector3 0 0 2) (- 1.57) 1.57)
                        \<lparr>angle := Some (Fin (1 / 2)), matrixWorld := turnedFrame\<rparr>)"

definition turnedStart :: dragSession where
  "turnedStart = \<lparr> isDraggingJoint = True, dragJoint = Some 12, dragHitDistance = 2,
                   lastRay = ((6, 4, 3), (1, 0, 0)) \<rparr>"

definition turnedTarget :: ray where
  "turnedTarget = ((- 4, 3, 3 - sqrt 3), (1, 0, 0))"

text \<open>
  Drags of a revolute joint \<open>j1\<close> (12) with the axis \<open>(0, 0, 1)\<close>, the limit
  \<open>[-2, 2]\<close> and the value 3/2, in which the previous ray hits the pivot; all numbers
  are doubles. In the first the frame of the joint is moved to \<open>(1, 2, 3)\<close> and the new
  ray hits \<open>(1, 3, 3)\<close>. In the second the pivot is the world origin and the new ray
  hits \<open>(2\<^sup>6\<^sup>0\<^sup>0, 0, 0)\<close>, a point whose squared distance from the pivot is beyond the
  largest double.
\<close>

definition movedFrame :: mat4 where
  "movedFrame = ((1, 0, 0), (0, 1, 0), (0, 0, 1), (1, 2, 3))"








text \<open>
  Drags of the slider. In the first the previous ray hits the world origin and the new
  ray hits \<open>(3/10, -1/10, 1/5)\<close>. In the second the frame of the parent link \<open>base\<close>
  (21) is turned by a quarter turn about \<open>z\<close> and moved to \<open>(5, 6, 7)\<close>, the axis of the
  joint is \<open>(3, 4, 0)\<close>, its value is 1/20, and the rays hit \<open>(1, 2, 3)\<close> and
  \<open>(2, 4, 7)\<close>.
\<close>

definition slideStart :: dragSession where
  "slideStart = \<lparr> isDraggingJoint = True, dragJoint = Some 22, dragHitDistance = 1,
                  lastRay = ((0, 0, - 1), (0, 0, 1)) \<rparr>"

definition slideTarget :: ray where
  "slideTarget = ((3 / 10, - 1 / 10, - 4 / 5), (0, 0, 1))"

definition quarterTurnFrame :: mat4 where
  "quarterTurnFrame = ((0, 1, 0), (- 1, 0, 0), (0, 0, 1), (5, 6, 7))"

definition turnedSliderStore :: store where
  "turnedSliderStore =
     sliderStore(21 := (URDFLink ''base'')\<lparr>matrixWorld := quarterTurnFrame\<rparr>,
                 22 := (URDFJoint ''slide'' ''prismatic'' (AxisVector3 3 4 0) 0 0.5)
                         \<lparr>angle := Some (Fin (1 / 20))\<rparr>)"

definition turnedSlideStart :: dragSession where
  "turnedSlideStart = \<lparr> isDraggingJoint = True, dragJoint = Some 22, dragHitDistance = 1,
                        lastRay = ((1, 2, 2), (0, 0, 1)) \<rparr>"

definition turnedSlideTarget :: ray where
  "turnedSlideTarget = ((2, 4, 6), (0, 0, 1))"

text \<open>
  A robot (40) that has been indexed before: its link \<open>imu_link\<close> (41) carries
  inertial data with the mass 0, and the mesh (42) of the link still has the entries of
  an earlier build, in which the link had the name \<open>old\<close>.
\<close>

definition sensorScene :: scene where
  "sensorScene = \<lparr> robotTree = Node 40 [Node 41 [Node 42 []]], above = [] \<rparr>"

definition sensorStore :: store where
  "sensorStore =
     (\<lambda>r. Object3D)
      (40 := (URDFLink ''robot'')\<lparr>robotLinks := Some [(''imu_link'', 41)], robotJoints := Some []\<rparr>,
       41 := (URDFLink ''imu_link'')\<lparr>inertial := Some (InertialRaw (Some 0) None None)\<rparr>,
       42 := (Mesh 100)\<lparr>userData := emptyUserData\<lparr>ud_parentLinkName := Some ''old'',
                 ud_isCollisionMesh := Some False, ud_isVisualMesh := Some True,
                 ud_isInKinematicChain := Some True, ud_affectingJoints := Some [''gone'']\<rparr>\<rparr>)"

text \<open>
  Two highlights in a row of the link \<open>base\<close> of the chain, whose visual bucket holds
  the mesh (18), with the highlight materials 200 and 201.
\<close>

definition baseBucketIndex :: RobotIndex where
  "baseBucketIndex = createEmptyIndex\<lparr>linksVisual := [''base'' \<mapsto> [18]]\<rparr>"

definition twoHighlights :: "(string \<times> ref \<times> SubType) list" where
  "twoHighlights = [(''base'', 200, Visual), (''base'', 201, Visual)]"

definition plainMaterials :: matstore where
  "plainMaterials = (\<lambda>r. \<lparr> isArray = False, elems = [], transparent = False, opacity = 1 \<rparr>)"

text \<open>
  A robot (30) with a single revolute joint \<open>jz\<close> (31) whose axis is the zero vector,
  and no mesh.
\<close>

definition zeroAxisScene :: scene where
  "zeroAxisScene = \<lparr> robotTree = Node 30 [Node 31 []], above = [] \<rparr>"

definition zeroAxisStore :: store where
  "zeroAxisStore =
     (\<lambda>r. Object3D)
      (30 := (URDFLink ''robot'')\<lparr>robotLinks := Some [], robotJoints := Some [(''jz'', 31)]\<rparr>,
       31 := URDFJoint ''jz'' ''revolute'' (AxisVector3 0 0 0) (- 1) 1)"

section \<open>The collision pattern is a test on path segments\<close>

lemma segments_nonempty: "segments s \<noteq> []"
  by (induction s) (auto split: list.splits)

lemma hd_segments: "hd (segments s) = takeWhile (\<lambda>c. \<not> isSeparator c) s"
  by (induction s) (auto split: list.splits simp: segments_nonempty)

lemma toLowerCase_separator: "isSeparator c \<Longrightarrow> toLowerCase c = c"
  by (auto simp: isSeparator_def toLowerCase_def)

lemma matchWord_takeWhile:
  assumes "\<forall>c \<in> set w. \<not> isSeparator c"
  shows "(case matchWord w s of None \<Rightarrow> False | Some r \<Rightarrow> matchTail r)
         \<longleftrightarrow> map toLowerCase (takeWhile (\<lambda>c. \<not> isSeparator c) s) = w"
  using assms
proof (induction w s rule: matchWord.induct)
  case (1 s)
  then show ?case by (cases s) (auto simp: matchTail_def)
next
  case (2 w ws)
  then show ?case by simp
next
  case (3 w ws c cs)
  then show ?case using toLowerCase_separator[of c] by auto
qed

lemma collisionWords_no_separator:
  "w \<in> set collisionWords \<Longrightarrow> \<forall>c \<in> set w. \<not> isSeparator c"
  by (auto simp: collisionWords_def isSeparator_def)

lemma matchHere_segment:
  "matchHere s \<longleftrightarrow> map toLowerCase (hd (segments s)) \<in> set collisionWords"
proof -
  have "matchHere s \<longleftrightarrow>
        (\<exists>w \<in> set collisionWords. map toLowerCase (takeWhile (\<lambda>c. \<not> isSeparator c) s) = w)"
    unfolding matchHere_def list_ex_iff
    by (rule bex_cong[OF refl]) (rule matchWord_takeWhile[OF collisionWords_no_separator])
  then show ?thesis by (simp add: hd_segments)
qed

lemma regexScan_segments:
  "regexScan b s \<longleftrightarrow>
     (b \<and> map toLowerCase (hd (segments s)) \<in> set collisionWords)
     \<or> (\<exists>g \<in> set (tl (segments s)). map toLowerCase g \<in> set collisionWords)"
proof (induction s arbitrary: b)
  case Nil
  then show ?case by (simp add: collisionWords_def)
next
  case (Cons c cs)
  obtain g gs where seg: "segments cs = g # gs"
    using segments_nonempty[of cs] by (cases "segments cs") auto
  have nil: "[] \<notin> set collisionWords" by (simp add: collisionWords_def)
  show ?case
  proof (cases "isSeparator c")
    case True
    then show ?thesis
      using seg nil by (simp add: Cons.IH[of True] matchHere_segment)
  next
    case False
    then show ?thesis
      using seg by (simp add: Cons.IH[of False] matchHere_segment)
  qed
qed

lemma regex_is_segment_test: "COLLISION_PATH_REGEX n = hasCollisionSegment n"
proof -
  obtain g gs where seg: "segments n = g # gs"
    using segments_nonempty[of n] by (cases "segments n") auto
  show ?thesis
    unfolding COLLISION_PATH_REGEX_def hasCollisionSegment_def list_ex_iff regexScan_segments
    using seg by simp
qed

lemmas regex_eval = COLLISION_PATH_REGEX_def matchHere_def collisionWords_def matchTail_def
  isSeparator_def toLowerCase_def

lemma regex_empty: "\<not> COLLISION_PATH_REGEX []"
  by (simp add: COLLISION_PATH_REGEX_def)

lemma regex_collision_detector: "COLLISION_PATH_REGEX ''collision_detector''"
  by (simp add: regex_eval)

lemma regex_leg_collision: "COLLISION_PATH_REGEX ''leg_collision''"
  by (simp add: regex_eval)

lemma regex_collisiondetector: "\<not> COLLISION_PATH_REGEX ''collisiondetector''"
  by (simp add: regex_eval)

section \<open>The two phases of the classifier\<close>

lemma collisionFlagWalk_iff:
  "collisionFlagWalk s robot chain
     \<longleftrightarrow> (\<exists>c \<in> set (belowRobot robot chain). explicitCollisionMarker (s c))"
  by (induction chain) (auto simp: belowRobot_def explicitCollisionMarker_def)

lemma collisionNameWalk_iff:
  "collisionNameWalk s robot chain
     \<longleftrightarrow> (\<exists>c \<in> set (belowRobot robot chain). COLLISION_PATH_REGEX (name (s c)))"
  by (induction chain) (auto simp: belowRobot_def regex_empty)

lemma example_no_marker:
  "\<not> explicitCollisionMarker (URDFLink n)"
  "\<not> explicitCollisionMarker (Mesh k)"
  "\<not> explicitCollisionMarker URDFVisual"
  "\<not> explicitCollisionMarker (Object3D\<lparr>name := n\<rparr>)"
  by (simp_all add: explicitCollisionMarker_def URDFLink_def Mesh_def URDFVisual_def
        Object3D_def emptyUserData_def)

lemma example_names:
  "name (URDFLink n) = n" "name (Mesh k) = []" "name URDFVisual = []"
  "name (Object3D\<lparr>name := n\<rparr>) = n"
  by (simp_all add: URDFLink_def Mesh_def URDFVisual_def Object3D_def)

lemma namingStore_at:
  "namingStore 11 = URDFLink ''collision_detector''"
  "namingStore 12 = Mesh 100"
  "namingStore 13 = URDFVisual"
  "namingStore 14 = URDFLink ''leg''"
  "namingStore 15 = Object3D\<lparr>name := ''leg_collision''\<rparr>"
  "namingStore 16 = Mesh 101"
  by (simp_all add: namingStore_def)

lemma naming_chains:
  "parentChain namingScene 12 = [13, 11, 10]"
  "parentChain namingScene 16 = [15, 14, 10]"
  by (simp_all add: parentChain_def namingScene_def)

text \<open>
  Claim C2, as the code has it. For a mesh with no explicit collision marker on itself
  or on any ancestor below the robot, the classifier answers "collision" exactly when
  the name of the mesh or of one of these ancestors has \<open>collision\<close>, \<open>collider\<close> or
  \<open>col\<close>, in any letter case, as a whole segment, where the segments of a name are
  its pieces between the separators \<open>_\<close> and \<open>/\<close>.
\<close>

theorem naming_phase_whole_segment:
  assumes "\<forall>c \<in> set (belowRobot robot (mesh # parentChain sc mesh)).
             \<not> explicitCollisionMarker (s c)"
  shows "isCollisionMeshDeep sc s mesh robot
         \<longleftrightarrow> (\<exists>c \<in> set (belowRobot robot (mesh # parentChain sc mesh)).
                hasCollisionSegment (name (s c)))"
  using assms
  by (simp add: isCollisionMeshDeep_def collisionFlagWalk_iff collisionNameWalk_iff
        regex_is_segment_test)

text \<open>The mesh (16) under the node named \<open>leg_collision\<close> is classified as collision.\<close>

theorem naming_phase_whole_segment_witness:
  "\<not> explicitCollisionMarker (namingStore 16) \<and> \<not> explicitCollisionMarker (namingStore 15)
   \<and> \<not> explicitCollisionMarker (namingStore 14)
   \<and> hasCollisionSegment (name (namingStore 15))
   \<and> isCollisionMeshDeep namingScene namingStore 16 10"
proof -
  have chain: "belowRobot 10 (16 # parentChain namingScene 16) = [16, 15, 14]"
    by (simp add: belowRobot_def naming_chains)
  have hyp: "\<forall>c \<in> set (belowRobot 10 (16 # parentChain namingScene 16)).
               \<not> explicitCollisionMarker (namingStore c)"
    by (simp add: chain namingStore_at example_no_marker)
  have seg: "hasCollisionSegment (name (namingStore 15))"
    using regex_leg_collision by (simp add: regex_is_segment_test namingStore_at example_names)
  show ?thesis
    using naming_phase_whole_segment[OF hyp] seg
    by (simp add: chain namingStore_at example_no_marker)
qed

text \<open>
  Claim C2 as stated fails: the mesh (12) of the link named \<open>collision_detector\<close>, with
  no explicit marker on the mesh, its visual group or the link, is classified as
  collision, because the pattern takes \<open>_\<close> for a segment boundary.
\<close>

theorem collision_detector_classified_collision:
  "\<not> explicitCollisionMarker (namingStore 12) \<and> \<not> explicitCollisionMarker (namingStore 13)
   \<and> \<not> explicitCollisionMarker (namingStore 11)
   \<and> parentChain namingScene 12 = [13, 11, 10]
   \<and> name (namingStore 11) = ''collision_detector''
   \<and> isCollisionMeshDeep namingScene namingStore 12 10"
  by (simp add: isCollisionMeshDeep_def collisionFlagWalk_iff collisionNameWalk_iff belowRobot_def
        naming_chains namingStore_at example_no_marker example_names regex_collision_detector)

section \<open>Facts about the example objects\<close>

lemma chainStore_12: "chainStore 12 = URDFJoint ''j1'' ''revolute'' (AxisVector3 0 0 1) (- 1.57) 1.57"
  by (simp add: chainStore_def)

lemma URDFJoint_fields:
  "jointType (URDFJoint n jt ax lo hi) = Some jt"
  "axis (URDFJoint n jt ax lo hi) = Some ax"
  "limit (URDFJoint n jt ax lo hi) = Some (LimitRaw (Some lo) (Some hi) None None)"
  "angle (URDFJoint n jt ax lo hi) = Some (Fin 0)"
  "hasSetJointValue (URDFJoint n jt ax lo hi)"
  "matrixWorld (URDFJoint n jt ax lo hi) = identity4"
  "name (URDFJoint n jt ax lo hi) = n"
  by (simp_all add: URDFJoint_def Object3D_def)

lemma chainScene_chain_12: "parentChain chainScene 12 = [11, 10]"
  by (simp add: parentChain_def chainScene_def)

lemma sliderStore_at:
  "sliderStore 21 = URDFLink ''base''"
  "sliderStore 22 = URDFJoint ''slide'' ''prismatic'' (AxisVector3 0 0 1) 0 0.5"
  by (simp_all add: sliderStore_def)

lemma slider_chain_22: "parentChain sliderScene 22 = [21, 20]"
  by (simp add: parentChain_def sliderScene_def)

lemma URDFLink_matrixWorld: "matrixWorld (URDFLink n) = identity4"
  by (simp add: URDFLink_def Object3D_def)

section \<open>Rounding to doubles\<close>

lemma roundHalfEven_of_int: "roundHalfEven (of_int m) = m"
  by (simp add: roundHalfEven_def)

lemma binary64_zero: "binary64 0 = Fin 0"
  by (simp add: binary64_def nearest64_def)

lemma nearest64_representable:
  assumes "x = of_int n * 2 powr of_int k" and "\<bar>n\<bar> < 2 ^ 53" and "- 1074 \<le> k"
  shows "nearest64 x = x"
proof (cases "x = 0")
  case True
  then show ?thesis by (simp add: nearest64_def)
next
  case False
  define e where "e = max (\<lfloor>log 2 \<bar>x\<bar>\<rfloor> - 52) (- 1074)"
  have absx: "\<bar>x\<bar> = of_int \<bar>n\<bar> * 2 powr of_int k"
    using assms(1) by (simp add: abs_mult)
  have "of_int \<bar>n\<bar> < (2::real) ^ 53"
    using assms(2) by (metis of_int_less_iff of_int_numeral of_int_power)
  then have "\<bar>x\<bar> < 2 ^ 53 * 2 powr of_int k"
    using absx by simp
  also have "\<dots> = 2 powr (53 + of_int k)"
    by (simp add: powr_add powr_realpow[symmetric])
  finally have lt: "\<bar>x\<bar> < 2 powr (53 + of_int k)" .
  have pos: "0 < \<bar>x\<bar>" using False by simp
  have "log 2 \<bar>x\<bar> < 53 + of_int k"
    using lt pos by (simp add: log_less_iff)
  then have "\<lfloor>log 2 \<bar>x\<bar>\<rfloor> < 53 + k"
    by (simp add: floor_less_iff)
  then have ek: "e \<le> k" using assms(3) by (simp add: e_def)
  define m where "m = n * 2 ^ nat (k - e)"
  have pw: "(2::real) powr of_int k = 2 ^ nat (k - e) * 2 powr of_int e"
  proof -
    have "(2::real) powr of_int k = 2 powr (of_int (k - e) + of_int e)" by simp
    also have "\<dots> = 2 powr of_int (k - e) * 2 powr of_int e"
      by (simp only: powr_add)
    also have "2 powr (of_int (k - e) :: real) = 2 ^ nat (k - e)"
      using ek by (subst powr_real_of_int) simp_all
    finally show ?thesis .
  qed
  have q: "x / 2 powr of_int e = of_int m"
    by (simp add: assms(1) pw m_def)
  have "nearest64 x = of_int m * 2 powr of_int e"
    using False by (simp add: nearest64_def Let_def e_def[symmetric] q roundHalfEven_of_int)
  also have "\<dots> = x"
    by (simp add: assms(1) pw m_def)
  finally show ?thesis .
qed

lemma binary64_of_int:
  assumes "\<bar>n\<bar> < 2 ^ 53"
  shows "binary64 (of_int n) = Fin (of_int n)"
proof -
  have "\<bar>of_int n :: real\<bar> < 2 ^ 53"
    using assms by (metis of_int_abs of_int_less_iff of_int_numeral of_int_power)
  also have "(2::real) ^ 53 < 2 ^ 1024 - 2 ^ 970" by simp
  finally show ?thesis
    using nearest64_representable[of "of_int n" n 0] assms by (simp add: binary64_def)
qed

lemma binary64_small:
  "binary64 0 = Fin 0" "binary64 1 = Fin 1" "binary64 2 = Fin 2" "binary64 3 = Fin 3"
  "binary64 (- 1) = Fin (- 1)" "binary64 (- 2) = Fin (- 2)" "binary64 (- 3) = Fin (- 3)"
  using binary64_of_int[of 0] binary64_of_int[of 1] binary64_of_int[of 2] binary64_of_int[of 3]
    binary64_of_int[of "- 1"] binary64_of_int[of "- 2"] binary64_of_int[of "- 3"]
  by simp_all




section \<open>The vector operations without rounding\<close>

declare exact_def [simp]

lemma jsSub_Fin [simp]: "jsSub rd (Fin x) (Fin y) = rd (x - y)"
  by (simp add: jsSub_def)

lemma vadd_exact: "vadd exact (toJs a) (toJs b) = toJs (vecSum a b)"
  by (cases a, cases b) simp

lemma vsub_exact: "vsub exact (toJs a) (toJs b) = toJs (vecDiff a b)"
  by (cases a, cases b) simp

lemma multiplyScalar_exact: "multiplyScalar exact (toJs a) (Fin k) = toJs (vecScale k a)"
  by (cases a) (simp add: mult.commute)

lemma dot_exact: "dot exact (toJs a) (toJs b) = Fin (scalarProduct a b)"
  by (cases a, cases b) simp

lemma crossVectors_exact: "crossVectors exact (toJs a) (toJs b) = toJs (vectorProduct a b)"
  by (cases a, cases b) simp

lemma scalarProduct_self_nonneg: "0 \<le> scalarProduct v v"
  by (cases v) simp

lemma scalarProduct_self_zero: "scalarProduct v v = 0 \<longleftrightarrow> v = (0, 0, 0)"
  by (cases v) (auto simp: add_nonneg_eq_0_iff)

lemma euclideanLength_zero: "euclideanLength v = 0 \<longleftrightarrow> v = (0, 0, 0)"
  by (simp add: euclideanLength_def scalarProduct_self_zero)

lemma euclideanLength_nonneg: "0 \<le> euclideanLength v"
  by (simp add: euclideanLength_def scalarProduct_self_nonneg)

lemma lengthSq_exact: "lengthSq exact (toJs v) = Fin (scalarProduct v v)"
  by (simp add: lengthSq_def dot_exact)

lemma vlength_exact: "vlength exact (toJs v) = Fin (euclideanLength v)"
  using scalarProduct_self_nonneg[of v]
  by (simp add: vlength_def lengthSq_exact euclideanLength_def exact_def)

lemma vecScale_one: "vecScale 1 v = v"
  by (cases v) simp

lemma normalize_exact: "normalize exact (toJs v) = toJs (unitDirection v)"
proof (cases "v = (0, 0, 0)")
  case True
  then show ?thesis
    by (simp add: normalize_def divideScalar_def vlength_def lengthSq_def jsOr_def
          unitDirection_def euclideanLength_def)
next
  case False
  then have "euclideanLength v \<noteq> 0" by (simp add: euclideanLength_zero)
  then show ?thesis
    by (simp add: normalize_def divideScalar_def vlength_exact jsOr_def exact_def
          multiplyScalar_exact unitDirection_def)
qed

lemma applyLinear_exact: "applyLinear exact m (toJs v) = toJs (frameDirection m v)"
  by (cases m rule: prod_cases4, cases v)
     (auto simp: mult.commute split: prod.splits)


lemma euclideanLength_vecScale: "euclideanLength (vecScale k v) = \<bar>k\<bar> * euclideanLength v"
proof -
  have "scalarProduct (vecScale k v) (vecScale k v) = k\<^sup>2 * scalarProduct v v"
    by (cases v) (simp add: power2_eq_square algebra_simps)
  then show ?thesis
    by (simp add: euclideanLength_def real_sqrt_mult)
qed

lemma unitDirection_zero: "unitDirection (0, 0, 0) = (0, 0, 0)"
  by (simp add: unitDirection_def)

lemma euclideanLength_unitDirection:
  "v \<noteq> (0, 0, 0) \<Longrightarrow> euclideanLength (unitDirection v) = 1"
  using euclideanLength_nonneg[of v]
  by (simp add: unitDirection_def euclideanLength_vecScale euclideanLength_zero)

lemma unitDirection_idem: "unitDirection (unitDirection v) = unitDirection v"
proof (cases "v = (0, 0, 0)")
  case True
  then show ?thesis by (simp add: unitDirection_zero)
next
  case False
  then have "euclideanLength (unitDirection v) = 1" by (rule euclideanLength_unitDirection)
  then show ?thesis
    unfolding unitDirection_def[of "vecScale (1 / euclideanLength v) v"]
    by (simp add: unitDirection_def vecScale_one)
qed

lemma worldAxis_exact: "worldAxis exact ax m = toJs (unitDirection (frameDirection m ax))"
  by (simp add: worldAxis_def transformDirection_def applyLinear_exact normalize_exact
        unitDirection_idem)

lemma setFromMatrixPosition_framePosition: "setFromMatrixPosition m = toJs (framePosition m)"
  by (cases m rule: prod_cases4) (simp add: setFromMatrixPosition_def)

lemma projectedRelative_exact:
  "projectedRelative exact (toJs n) (toJs pivot) (toJs p) = toJs (inPlaneOffset n pivot p)"
proof -
  obtain n1 n2 n3 where n: "n = (n1, n2, n3)" by (cases n)
  obtain v1 v2 v3 where v: "pivot = (v1, v2, v3)" by (cases pivot)
  obtain p1 p2 p3 where p: "p = (p1, p2, p3)" by (cases p)
  show ?thesis
    unfolding n v p
    by (simp add: projectedRelative_def setFromNormalAndCoplanarPoint_def projectPoint_def
          distanceToPoint_def inPlaneOffset_def Let_def algebra_simps)
qed

lemma rayAt_exact: "rayAt exact r t = toJs (pointAlong r t)"
  by (simp add: rayAt_def pointAlong_def multiplyScalar_exact vadd_exact)

lemma cauchy_schwarz3:
  "(scalarProduct a b)\<^sup>2 \<le> scalarProduct a a * scalarProduct b b"
proof -
  obtain a1 a2 a3 where a: "a = (a1, a2, a3)" by (cases a)
  obtain b1 b2 b3 where b: "b = (b1, b2, b3)" by (cases b)
  have "scalarProduct a a * scalarProduct b b - (scalarProduct a b)\<^sup>2
        = (a2 * b3 - a3 * b2)\<^sup>2 + (a3 * b1 - a1 * b3)\<^sup>2 + (a1 * b2 - a2 * b1)\<^sup>2"
    unfolding a b by (simp add: power2_eq_square algebra_simps)
  moreover have "0 \<le> (a2 * b3 - a3 * b2)\<^sup>2 + (a3 * b1 - a1 * b3)\<^sup>2 + (a1 * b2 - a2 * b1)\<^sup>2"
    by simp
  ultimately show ?thesis by linarith
qed

lemma cosine_bounds:
  assumes "a \<noteq> (0, 0, 0)" and "b \<noteq> (0, 0, 0)"
  shows "\<bar>scalarProduct a b / (euclideanLength a * euclideanLength b)\<bar> \<le> 1"
proof -
  have pos: "0 < euclideanLength a * euclideanLength b"
    using assms euclideanLength_nonneg[of a] euclideanLength_nonneg[of b]
    by (simp add: euclideanLength_zero less_le)
  have "\<bar>scalarProduct a b\<bar> \<le> sqrt (scalarProduct a a * scalarProduct b b)"
    using cauchy_schwarz3[of a b] by (simp add: real_le_rsqrt abs_le_iff)
  also have "\<dots> = euclideanLength a * euclideanLength b"
    by (simp add: euclideanLength_def real_sqrt_mult)
  finally show ?thesis using pos by simp
qed

lemma jsMin_Fin [simp]: "jsMin (Fin x) (Fin y) = Fin (min x y)"
  by (simp add: jsMin_def min_def)

lemma jsMax_Fin [simp]: "jsMax (Fin x) (Fin y) = Fin (max x y)"
  by (simp add: jsMax_def max_def)

lemma clamp_Fin: "clamp (Fin t) (Fin lo) (Fin hi) = Fin (max lo (min hi t))"
  by (simp add: clamp_def)

lemma clamp_unit: "\<bar>t\<bar> \<le> 1 \<Longrightarrow> max (- 1) (min 1 t) = (t::real)"
  by (simp add: max_def min_def abs_le_iff)

lemma jsAcos_exact: "\<bar>t\<bar> \<le> 1 \<Longrightarrow> jsAcos exact (Fin t) = Fin (arccos t)"
  by (simp add: abs_le_iff not_less)

lemma angleTo_exact:
  assumes "a \<noteq> (0, 0, 0)" and "b \<noteq> (0, 0, 0)"
  shows "angleTo exact (toJs a) (toJs b)
         = Fin (arccos (scalarProduct a b / (euclideanLength a * euclideanLength b)))"
proof -
  have nn: "0 \<le> scalarProduct a a * scalarProduct b b"
    by (simp add: scalarProduct_self_nonneg)
  have den: "sqrt (scalarProduct a a * scalarProduct b b) = euclideanLength a * euclideanLength b"
    by (simp add: euclideanLength_def real_sqrt_mult)
  have nz: "euclideanLength a * euclideanLength b \<noteq> 0"
    using assms by (simp add: euclideanLength_zero)
  have bd: "\<bar>scalarProduct a b / (euclideanLength a * euclideanLength b)\<bar> \<le> 1"
    using assms by (rule cosine_bounds)
  have cl: "max (- 1) (min 1 (scalarProduct a b / (euclideanLength a * euclideanLength b)))
            = scalarProduct a b / (euclideanLength a * euclideanLength b)"
    using bd by (rule clamp_unit)
  have ac: "jsAcos exact (Fin (scalarProduct a b / (euclideanLength a * euclideanLength b)))
            = Fin (arccos (scalarProduct a b / (euclideanLength a * euclideanLength b)))"
    using bd by (rule jsAcos_exact)
  have dn: "jsSqrt exact (jsMul exact (lengthSq exact (toJs a)) (lengthSq exact (toJs b)))
            = Fin (euclideanLength a * euclideanLength b)"
    using nn by (simp add: lengthSq_exact den not_less)
  show ?thesis
    unfolding angleTo_def Let_def dn dot_exact
    using nz by (simp add: clamp_Fin cl ac del: jsAcos.simps)
qed

lemma getRevoluteDelta_exact:
  assumes "axisVector joint = Inr ax"
    and "n = unitDirection (frameDirection (matrixWorld joint) ax)"
    and "a = inPlaneOffset n (framePosition (matrixWorld joint)) p"
    and "b = inPlaneOffset n (framePosition (matrixWorld joint)) q"
    and "a \<noteq> (0, 0, 0)" and "b \<noteq> (0, 0, 0)"
  shows "getRevoluteDelta exact joint (toJs p) (toJs q) = Inr (Fin (signedAngle n a b))"
  using assms(1)
  by (simp add: getRevoluteDelta_def worldAxis_exact setFromMatrixPosition_framePosition
        projectedRelative_exact assms(2,3,4)[symmetric] crossVectors_exact dot_exact
        angleTo_exact[OF assms(5,6)] signedAngle_def Let_def)

lemma getPrismaticDelta_exact:
  assumes "axisVector (s joint) = Inr ax" and "parentChain sc joint = parent # rest"
  shows "getPrismaticDelta exact sc s joint (toJs p) (toJs q)
         = Inr (Fin (scalarProduct (vecDiff q p)
                       (unitDirection (frameDirection (matrixWorld (s parent)) ax))))"
  using assms
  by (simp add: getPrismaticDelta_def worldAxis_exact vsub_exact dot_exact Let_def)


section \<open>Drag steps\<close>

lemma moveRay_revolute:
  assumes "isDraggingJoint d" and "dragJoint d = Some j"
    and "jointType (s j) = Some ''revolute'' \<or> jointType (s j) = Some ''continuous''"
    and "getRevoluteDelta rd (s j) (rayAt rd (lastRay d) (dragHitDistance d))
           (rayAt rd toRay (dragHitDistance d)) = Inr delta"
  shows "moveRay rd sc cb toRay (s, d) =
         (if delta \<noteq> Fin 0 then
            let newAngle0 = jsAdd rd (jsOr (nullish (angle (s j)) (Fin 0)) (Fin 0)) delta;
                newAngle = (if jointType (s j) = Some ''revolute''
                            then jsMax (fst (limitBounds rd (s j)))
                                   (jsMin (snd (limitBounds rd (s j))) newAngle0)
                            else newAngle0)
            in Inr (if hasSetJointValue (s j) then s(j := (s j)\<lparr>angle := Some newAngle\<rparr>) else s,
                    d\<lparr>lastRay := toRay\<rparr>,
                    (if hasSetJointValue (s j) then [SetJointValue j newAngle, Invalidate] else [])
                    @ (if cb then [JointChange (name (s j)) newAngle] else []))
          else Inr (s, d\<lparr>lastRay := toRay\<rparr>, []))"
  using assms by (auto simp: moveRay_def Let_def)

lemma moveRay_prismatic:
  assumes "isDraggingJoint d" and "dragJoint d = Some j"
    and "jointType (s j) = Some ''prismatic''"
    and "getPrismaticDelta rd sc s j (rayAt rd (lastRay d) (dragHitDistance d))
           (rayAt rd toRay (dragHitDistance d)) = Inr delta"
  shows "moveRay rd sc cb toRay (s, d) =
         (if delta \<noteq> Fin 0 then
            let newAngle = jsAdd rd (jsOr (nullish (angle (s j)) (Fin 0)) (Fin 0)) delta
            in Inr (if hasSetJointValue (s j) then s(j := (s j)\<lparr>angle := Some newAngle\<rparr>) else s,
                    d\<lparr>lastRay := toRay\<rparr>,
                    (if hasSetJointValue (s j) then [SetJointValue j newAngle, Invalidate] else [])
                    @ (if cb then [JointChange (name (s j)) newAngle] else []))
          else Inr (s, d\<lparr>lastRay := toRay\<rparr>, []))"
  using assms by (auto simp: moveRay_def Let_def)

lemma axisVector_cases:
  assumes "axis joint = Some (AxisVector3 x y z) \<or> axis joint = None \<and> (x, y, z) = (0, 0, 1)"
  shows "axisVector joint = Inr (x, y, z)"
  using assms by (auto simp: axisVector_def)

lemma jsOr_Fin: "jsOr (Fin v) (Fin 0) = Fin v"
  by (simp add: jsOr_def)

lemma quarter_turn: "signedAngle (0, 0, 1) (1, 0, 0) (0, 1, 0) = pi / 2"
  by (simp add: signedAngle_def euclideanLength_def)

text \<open>
  Claim C4. In a drag step of a revolute or continuous joint whose axis is a vector (or
  absent, which stands for \<open>(0, 0, 1)\<close>), whose limit has both bounds, whose value is
  a finite number and which has a setter, computed without rounding: let \<open>n\<close> be the
  axis taken to the world frame of the joint and scaled to unit length, let the pivot
  be the position of that frame, and let \<open>a\<close> and \<open>b\<close> be the offsets from the pivot
  of the previous and the new hit point, each without its part along \<open>n\<close>; both are
  nonzero. The delta is the angle between \<open>a\<close> and \<open>b\<close> with the sign of
  \<open>(a \<times> b) \<sqdot> n\<close>. A nonzero delta is added to the value of the joint, and the sum is
  clamped to \<open>[lower, upper]\<close> for a revolute joint and taken as it is for a continuous
  one; the new value is passed to the setter and to the callback. With the axis
  \<open>(0, 0, 1)\<close> and the offsets \<open>(1, 0, 0)\<close> and \<open>(0, 1, 0)\<close> the delta is \<open>\<pi>/2\<close>, and
  from the value 1.4 with the limit \<open>[-1.57, 1.57]\<close> the new value is 1.57.
\<close>

theorem revolute_drag_step:
  assumes "isDraggingJoint d" and "dragJoint d = Some j"
    and "jointType (s j) = Some ''revolute'' \<or> jointType (s j) = Some ''continuous''"
    and "axis (s j) = Some (AxisVector3 x y z) \<or> axis (s j) = None \<and> (x, y, z) = (0, 0, 1)"
    and "limit (s j) = Some (LimitRaw (Some lo) (Some hi) ef vl)"
    and "angle (s j) = Some (Fin cur)"
    and "hasSetJointValue (s j)"
    and "n = unitDirection (frameDirection (matrixWorld (s j)) (x, y, z))"
    and "pivot = framePosition (matrixWorld (s j))"
    and "a = inPlaneOffset n pivot (pointAlong (lastRay d) (dragHitDistance d))"
    and "b = inPlaneOffset n pivot (pointAlong toRay (dragHitDistance d))"
    and "a \<noteq> (0, 0, 0)" and "b \<noteq> (0, 0, 0)"
    and "delta = signedAngle n a b"
    and "newAngle = (if jointType (s j) = Some ''revolute''
                     then max lo (min hi (cur + delta)) else cur + delta)"
  shows "getRevoluteDelta exact (s j) (toJs (pointAlong (lastRay d) (dragHitDistance d)))
           (toJs (pointAlong toRay (dragHitDistance d))) = Inr (Fin delta)
       \<and> moveRay exact sc cb toRay (s, d)
           = (if delta = 0 then Inr (s, d\<lparr>lastRay := toRay\<rparr>, [])
              else Inr (s(j := (s j)\<lparr>angle := Some (Fin newAngle)\<rparr>), d\<lparr>lastRay := toRay\<rparr>,
                        [SetJointValue j (Fin newAngle), Invalidate]
                        @ (if cb then [JointChange (name (s j)) (Fin newAngle)] else [])))
       \<and> (n = (0, 0, 1) \<and> a = (1, 0, 0) \<and> b = (0, 1, 0) \<longrightarrow> delta = pi / 2)
       \<and> (jointType (s j) = Some ''revolute'' \<and> delta = pi / 2 \<and> cur = 1.4
            \<and> lo = - 1.57 \<and> hi = 1.57 \<longrightarrow> newAngle = 1.57)"
proof -
  have ax: "axisVector (s j) = Inr (x, y, z)"
    using assms(4) by (rule axisVector_cases)
  have dl: "getRevoluteDelta exact (s j) (toJs (pointAlong (lastRay d) (dragHitDistance d)))
              (toJs (pointAlong toRay (dragHitDistance d))) = Inr (Fin delta)"
    unfolding assms(14)
    using assms(12,13)
    by (intro getRevoluteDelta_exact[OF ax assms(8)]) (simp_all add: assms(9,10,11))
  have lb: "limitBounds exact (s j) = (Fin lo, Fin hi)"
    using assms(5) by (simp add: limitBounds_def numOf_def)
  have mv: "moveRay exact sc cb toRay (s, d)
           = (if delta = 0 then Inr (s, d\<lparr>lastRay := toRay\<rparr>, [])
              else Inr (s(j := (s j)\<lparr>angle := Some (Fin newAngle)\<rparr>), d\<lparr>lastRay := toRay\<rparr>,
                        [SetJointValue j (Fin newAngle), Invalidate]
                        @ (if cb then [JointChange (name (s j)) (Fin newAngle)] else [])))"
    using moveRay_revolute[where rd=exact and d=d and j=j and s=s and toRay=toRay
        and delta="Fin delta" and sc=sc and cb=cb] assms(1,2,3,6,7) dl
    by (simp add: rayAt_exact Let_def lb nullish_def jsOr_Fin assms(15))
  have quarter: "n = (0, 0, 1) \<and> a = (1, 0, 0) \<and> b = (0, 1, 0) \<longrightarrow> delta = pi / 2"
    using assms(14) quarter_turn by simp
  have sat: "jointType (s j) = Some ''revolute'' \<and> delta = pi / 2 \<and> cur = 1.4
            \<and> lo = - 1.57 \<and> hi = 1.57 \<longrightarrow> newAngle = 1.57"
    using assms(15) pi_ge_two by (auto simp: min_def max_def)
  show ?thesis using dl mv quarter sat by blast
qed

text \<open>
  Claim C6. In a drag step of a prismatic joint whose axis is a vector (or absent),
  whose value is a finite number and which has a setter, computed without rounding:
  the delta is the scalar product of the displacement \<open>newPoint - previousPoint\<close> with
  the joint axis taken to the world frame of the joint's parent and scaled to unit
  length (for all points, and so for the hit points of the two rays), and a nonzero
  delta is added to the value of the joint. When that world axis is \<open>(0, 0, 1)\<close>, the
  previous point \<open>(0, 0, 0)\<close> and a new point \<open>(dx, dy, 0.2)\<close> give the delta 0.2,
  whatever \<open>dx\<close> and \<open>dy\<close> are.
\<close>

theorem prismatic_delta_projection:
  assumes "isDraggingJoint d" and "dragJoint d = Some j"
    and "jointType (s j) = Some ''prismatic''"
    and "axis (s j) = Some (AxisVector3 x y z) \<or> axis (s j) = None \<and> (x, y, z) = (0, 0, 1)"
    and "parentChain sc j = parent # rest"
    and "angle (s j) = Some (Fin cur)"
    and "hasSetJointValue (s j)"
    and "axisWorld = unitDirection (frameDirection (matrixWorld (s parent)) (x, y, z))"
    and "previousPoint = pointAlong (lastRay d) (dragHitDistance d)"
    and "newPoint = pointAlong toRay (dragHitDistance d)"
    and "delta = scalarProduct (vecDiff newPoint previousPoint) axisWorld"
  shows "getPrismaticDelta exact sc s j (toJs p) (toJs q)
           = Inr (Fin (scalarProduct (vecDiff q p) axisWorld))
       \<and> moveRay exact sc cb toRay (s, d)
           = (if delta = 0 then Inr (s, d\<lparr>lastRay := toRay\<rparr>, [])
              else Inr (s(j := (s j)\<lparr>angle := Some (Fin (cur + delta))\<rparr>), d\<lparr>lastRay := toRay\<rparr>,
                        [SetJointValue j (Fin (cur + delta)), Invalidate]
                        @ (if cb then [JointChange (name (s j)) (Fin (cur + delta))] else [])))
       \<and> (axisWorld = (0, 0, 1)
            \<longrightarrow> getPrismaticDelta exact sc s j (toJs (0, 0, 0)) (toJs (dx, dy, 0.2))
                  = Inr (Fin 0.2))"
proof -
  have ax: "axisVector (s j) = Inr (x, y, z)"
    using assms(4) by (rule axisVector_cases)
  have dl: "getPrismaticDelta exact sc s j (toJs p') (toJs q')
           = Inr (Fin (scalarProduct (vecDiff q' p') axisWorld))" for p' q'
    unfolding assms(8)
    using ax assms(5) by (rule getPrismaticDelta_exact[where s=s and joint=j])
  have mv: "moveRay exact sc cb toRay (s, d)
           = (if delta = 0 then Inr (s, d\<lparr>lastRay := toRay\<rparr>, [])
              else Inr (s(j := (s j)\<lparr>angle := Some (Fin (cur + delta))\<rparr>), d\<lparr>lastRay := toRay\<rparr>,
                        [SetJointValue j (Fin (cur + delta)), Invalidate]
                        @ (if cb then [JointChange (name (s j)) (Fin (cur + delta))] else [])))"
    using moveRay_prismatic[where rd=exact and d=d and j=j and s=s and toRay=toRay
        and delta="Fin delta" and sc=sc and cb=cb] assms(1,2,3,6,7)
      dl[of "pointAlong (lastRay d) (dragHitDistance d)" "pointAlong toRay (dragHitDistance d)"]
    by (simp add: rayAt_exact Let_def nullish_def jsOr_Fin assms(9,10,11))
  have inst: "axisWorld = (0, 0, 1)
            \<longrightarrow> getPrismaticDelta exact sc s j (toJs (0, 0, 0)) (toJs (dx, dy, 0.2))
                  = Inr (Fin 0.2)"
    using dl[of "(0, 0, 0)" "(dx, dy, 0.2)"] by simp
  show ?thesis using dl mv inst by blast
qed


lemma dragStore_12:
  "dragStore 12 = (URDFJoint ''j1'' ''revolute'' (AxisVector3 0 0 1) (- 1.57) 1.57)\<lparr>angle := Some (Fin 1.4)\<rparr>"
  by (simp add: dragStore_def chainStore_12)

lemma turnedStore_12:
  "turnedStore 12 = (URDFJoint ''j1'' ''continuous'' (AxisVector3 0 0 2) (- 1.57) 1.57)
                        \<lparr>angle := Some (Fin (1 / 2)), matrixWorld := turnedFrame\<rparr>"
  by (simp add: turnedStore_def)

lemma unitDirection_axes:
  "unitDirection (0, 0, 1) = (0, 0, 1)"
  "unitDirection (2, 0, 0) = (1, 0, 0)"
  "unitDirection (- 4, 3, 0) = (- 4 / 5, 3 / 5, 0)"
proof -
  have "sqrt 25 = 5" by (rule real_sqrt_unique) simp_all
  then show "unitDirection (- 4, 3, 0) = (- 4 / 5, 3 / 5, 0)"
    by (simp add: unitDirection_def euclideanLength_def)
  have "sqrt 4 = 2" by (rule real_sqrt_unique) simp_all
  then show "unitDirection (2, 0, 0) = (1, 0, 0)"
    by (simp add: unitDirection_def euclideanLength_def)
  show "unitDirection (0, 0, 1) = (0, 0, 1)"
    by (simp add: unitDirection_def euclideanLength_def)
qed

lemma third_turn: "signedAngle (1, 0, 0) (0, 2, 0) (0, 1, - sqrt 3) = - (pi / 3)"
proof -
  have s4: "sqrt 4 = 2" by (rule real_sqrt_unique) simp_all
  have "sgn (- (2 * sqrt 3)) = (- 1 :: real)" by (simp add: sgn_if)
  then show ?thesis
    by (simp add: signedAngle_def euclideanLength_def s4 arccos_one_half)
qed

text \<open>
  The drag of the joint \<open>j1\<close> from 1.4 by a quarter turn ends at 1.57; the drag of the
  continuous joint in the turned frame from 1/2 by a sixth of a turn backwards ends at
  \<open>1/2 - \<pi>/3\<close>.
\<close>

theorem revolute_drag_step_witness:
  "getRevoluteDelta exact (dragStore 12) (toJs (1, 0, 1 / 2)) (toJs (0, 1, 1 / 2))
     = Inr (Fin (pi / 2))
   \<and> moveRay exact chainScene True dragTarget (dragStore, dragStart)
       = Inr (dragStore(12 := (dragStore 12)\<lparr>angle := Some (Fin 1.57)\<rparr>),
              dragStart\<lparr>lastRay := dragTarget\<rparr>,
              [SetJointValue 12 (Fin 1.57), Invalidate, JointChange ''j1'' (Fin 1.57)])
   \<and> getRevoluteDelta exact (turnedStore 12) (toJs (8, 4, 3)) (toJs (- 2, 3, 3 - sqrt 3))
       = Inr (Fin (- (pi / 3)))
   \<and> moveRay exact chainScene False turnedTarget (turnedStore, turnedStart)
       = Inr (turnedStore(12 := (turnedStore 12)\<lparr>angle := Some (Fin (1 / 2 - pi / 3))\<rparr>),
              turnedStart\<lparr>lastRay := turnedTarget\<rparr>,
              [SetJointValue 12 (Fin (1 / 2 - pi / 3)), Invalidate])"
proof -
  have a1: "isDraggingJoint dragStart" and a2: "dragJoint dragStart = Some 12"
    by (simp_all add: dragStart_def)
  have a3: "jointType (dragStore 12) = Some ''revolute'' \<or> jointType (dragStore 12) = Some ''continuous''"
    by (simp add: dragStore_12 URDFJoint_fields)
  have a4: "axis (dragStore 12) = Some (AxisVector3 0 0 1)
            \<or> axis (dragStore 12) = None \<and> (0, 0, 1) = ((0, 0, 1) :: vec3)"
    by (simp add: dragStore_12 URDFJoint_fields)
  have a5: "limit (dragStore 12) = Some (LimitRaw (Some (- 1.57)) (Some 1.57) None None)"
    by (simp add: dragStore_12 URDFJoint_fields)
  have a6: "angle (dragStore 12) = Some (Fin 1.4)"
    by (simp add: dragStore_12)
  have a7: "hasSetJointValue (dragStore 12)"
    by (simp add: dragStore_12 URDFJoint_fields)
  have mw: "matrixWorld (dragStore 12) = identity4"
    by (simp add: dragStore_12 URDFJoint_fields)
  have a8: "(0, 0, 1) = unitDirection (frameDirection (matrixWorld (dragStore 12)) (0, 0, 1))"
    by (simp add: mw identity4_def unitDirection_axes)
  have a9: "(0, 0, 0) = framePosition (matrixWorld (dragStore 12))"
    by (simp add: mw identity4_def)
  have p1: "pointAlong (lastRay dragStart) (dragHitDistance dragStart) = (1, 0, 1 / 2)"
    and q1: "pointAlong dragTarget (dragHitDistance dragStart) = (0, 1, 1 / 2)"
    by (simp_all add: pointAlong_def dragStart_def dragTarget_def)
  have a10: "(1, 0, 0) = inPlaneOffset (0, 0, 1) (0, 0, 0)
                           (pointAlong (lastRay dragStart) (dragHitDistance dragStart))"
    and a11: "(0, 1, 0) = inPlaneOffset (0, 0, 1) (0, 0, 0)
                           (pointAlong dragTarget (dragHitDistance dragStart))"
    by (simp_all add: p1 q1 inPlaneOffset_def)
  have a12: "(1, 0, 0) \<noteq> ((0, 0, 0) :: vec3)" and a13: "(0, 1, 0) \<noteq> ((0, 0, 0) :: vec3)"
    by simp_all
  have a14: "pi / 2 = signedAngle (0, 0, 1) (1, 0, 0) (0, 1, 0)"
    by (simp add: quarter_turn)
  have a15: "(1.57::real) = (if jointType (dragStore 12) = Some ''revolute''
                     then max (- 1.57) (min 1.57 (1.4 + pi / 2)) else 1.4 + pi / 2)"
    using pi_ge_two by (simp add: dragStore_12 URDFJoint_fields min_def max_def)
  note first = revolute_drag_step[where sc=chainScene and cb=True and s=dragStore and j=12,
      OF a1 a2 a3 a4 a5 a6 a7 a8 a9 a10 a11 a12 a13 a14 a15]
  have b1: "isDraggingJoint turnedStart" and b2: "dragJoint turnedStart = Some 12"
    by (simp_all add: turnedStart_def)
  have b3: "jointType (turnedStore 12) = Some ''revolute'' \<or> jointType (turnedStore 12) = Some ''continuous''"
    by (simp add: turnedStore_12 URDFJoint_fields)
  have b4: "axis (turnedStore 12) = Some (AxisVector3 0 0 2)
            \<or> axis (turnedStore 12) = None \<and> (0, 0, 2) = ((0, 0, 1) :: vec3)"
    by (simp add: turnedStore_12 URDFJoint_fields)
  have b5: "limit (turnedStore 12) = Some (LimitRaw (Some (- 1.57)) (Some 1.57) None None)"
    by (simp add: turnedStore_12 URDFJoint_fields)
  have b6: "angle (turnedStore 12) = Some (Fin (1 / 2))"
    by (simp add: turnedStore_12)
  have b7: "hasSetJointValue (turnedStore 12)"
    by (simp add: turnedStore_12 URDFJoint_fields)
  have mw2: "matrixWorld (turnedStore 12) = turnedFrame"
    by (simp add: turnedStore_12)
  have b8: "(1, 0, 0) = unitDirection (frameDirection (matrixWorld (turnedStore 12)) (0, 0, 2))"
    by (simp add: mw2 turnedFrame_def unitDirection_axes)
  have b9: "(1, 2, 3) = framePosition (matrixWorld (turnedStore 12))"
    by (simp add: mw2 turnedFrame_def)
  have p2: "pointAlong (lastRay turnedStart) (dragHitDistance turnedStart) = (8, 4, 3)"
    and q2: "pointAlong turnedTarget (dragHitDistance turnedStart) = (- 2, 3, 3 - sqrt 3)"
    by (simp_all add: pointAlong_def turnedStart_def turnedTarget_def)
  have b10: "(0, 2, 0) = inPlaneOffset (1, 0, 0) (1, 2, 3)
                           (pointAlong (lastRay turnedStart) (dragHitDistance turnedStart))"
    and b11: "(0, 1, - sqrt 3) = inPlaneOffset (1, 0, 0) (1, 2, 3)
                           (pointAlong turnedTarget (dragHitDistance turnedStart))"
    by (simp_all add: p2 q2 inPlaneOffset_def)
  have b12: "(0, 2, 0) \<noteq> ((0, 0, 0) :: vec3)" and b13: "(0, 1, - sqrt 3) \<noteq> ((0, 0, 0) :: vec3)"
    by simp_all
  have b14: "- (pi / 3) = signedAngle (1, 0, 0) (0, 2, 0) (0, 1, - sqrt 3)"
    by (simp add: third_turn)
  have b15: "1 / 2 - pi / 3 = (if jointType (turnedStore 12) = Some ''revolute''
                     then max (- 1.57) (min 1.57 (1 / 2 + - (pi / 3))) else 1 / 2 + - (pi / 3))"
    by (simp add: turnedStore_12 URDFJoint_fields)
  note second = revolute_drag_step[where sc=chainScene and cb=False and s=turnedStore and j=12,
      OF b1 b2 b3 b4 b5 b6 b7 b8 b9 b10 b11 b12 b13 b14 b15]
  have nz: "pi / 2 \<noteq> (0::real)" "- (pi / 3) \<noteq> (0::real)" by simp_all
  show ?thesis
    using first second nz
    by (simp add: p1 q1 p2 q2 dragStore_12 turnedStore_12 URDFJoint_fields)
qed

lemma turnedSliderStore_at:
  "turnedSliderStore 21 = (URDFLink ''base'')\<lparr>matrixWorld := quarterTurnFrame\<rparr>"
  "turnedSliderStore 22 = (URDFJoint ''slide'' ''prismatic'' (AxisVector3 3 4 0) 0 0.5)
                             \<lparr>angle := Some (Fin (1 / 20))\<rparr>"
  by (simp_all add: turnedSliderStore_def)

text \<open>
  The slider moved from the origin to \<open>(3/10, -1/10, 1/5)\<close> has the delta 1/5. The
  slider in the turned frame, whose world axis is \<open>(-4/5, 3/5, 0)\<close>, moved from
  \<open>(1, 2, 3)\<close> to \<open>(2, 4, 7)\<close> has the delta 2/5, and its value goes from 1/20 to 9/20.
\<close>

theorem prismatic_delta_projection_witness:
  "getPrismaticDelta exact sliderScene sliderStore 22 (toJs (0, 0, 0)) (toJs (3 / 10, - 1 / 10, 0.2))
     = Inr (Fin 0.2)
   \<and> moveRay exact sliderScene False slideTarget (sliderStore, slideStart)
       = Inr (sliderStore(22 := (sliderStore 22)\<lparr>angle := Some (Fin (1 / 5))\<rparr>),
              slideStart\<lparr>lastRay := slideTarget\<rparr>,
              [SetJointValue 22 (Fin (1 / 5)), Invalidate])
   \<and> getPrismaticDelta exact sliderScene turnedSliderStore 22 (toJs (1, 2, 3)) (toJs (2, 4, 7))
       = Inr (Fin (2 / 5))
   \<and> moveRay exact sliderScene True turnedSlideTarget (turnedSliderStore, turnedSlideStart)
       = Inr (turnedSliderStore(22 := (turnedSliderStore 22)\<lparr>angle := Some (Fin (9 / 20))\<rparr>),
              turnedSlideStart\<lparr>lastRay := turnedSlideTarget\<rparr>,
              [SetJointValue 22 (Fin (9 / 20)), Invalidate, JointChange ''slide'' (Fin (9 / 20))])"
proof -
  have a1: "isDraggingJoint slideStart" and a2: "dragJoint slideStart = Some 22"
    by (simp_all add: slideStart_def)
  have a3: "jointType (sliderStore 22) = Some ''prismatic''"
    by (simp add: sliderStore_at URDFJoint_fields)
  have a4: "axis (sliderStore 22) = Some (AxisVector3 0 0 1)
            \<or> axis (sliderStore 22) = None \<and> (0, 0, 1) = ((0, 0, 1) :: vec3)"
    by (simp add: sliderStore_at URDFJoint_fields)
  have a6: "angle (sliderStore 22) = Some (Fin 0)"
    by (simp add: sliderStore_at URDFJoint_fields)
  have a7: "hasSetJointValue (sliderStore 22)"
    by (simp add: sliderStore_at URDFJoint_fields)
  have a8: "(0, 0, 1) = unitDirection (frameDirection (matrixWorld (sliderStore 21)) (0, 0, 1))"
    by (simp add: sliderStore_at URDFLink_matrixWorld identity4_def unitDirection_axes)
  have a9: "(0, 0, 0) = pointAlong (lastRay slideStart) (dragHitDistance slideStart)"
    and a10: "(3 / 10, - 1 / 10, 1 / 5) = pointAlong slideTarget (dragHitDistance slideStart)"
    by (simp_all add: pointAlong_def slideStart_def slideTarget_def)
  have a11: "1 / 5 = scalarProduct (vecDiff (3 / 10, - 1 / 10, 1 / 5) (0, 0, 0)) (0, 0, 1)"
    by simp
  note first = prismatic_delta_projection[where sc=sliderScene and cb=False
      and p="(0, 0, 0)" and q="(3 / 10, - 1 / 10, 0.2)" and dx="3 / 10" and dy="- 1 / 10"
      and s=sliderStore and j=22,
      OF a1 a2 a3 a4 slider_chain_22 a6 a7 a8 a9 a10 a11]
  have b1: "isDraggingJoint turnedSlideStart" and b2: "dragJoint turnedSlideStart = Some 22"
    by (simp_all add: turnedSlideStart_def)
  have b3: "jointType (turnedSliderStore 22) = Some ''prismatic''"
    by (simp add: turnedSliderStore_at URDFJoint_fields)
  have b4: "axis (turnedSliderStore 22) = Some (AxisVector3 3 4 0)
            \<or> axis (turnedSliderStore 22) = None \<and> (3, 4, 0) = ((0, 0, 1) :: vec3)"
    by (simp add: turnedSliderStore_at URDFJoint_fields)
  have b6: "angle (turnedSliderStore 22) = Some (Fin (1 / 20))"
    by (simp add: turnedSliderStore_at)
  have b7: "hasSetJointValue (turnedSliderStore 22)"
    by (simp add: turnedSliderStore_at URDFJoint_fields)
  have b8: "(- 4 / 5, 3 / 5, 0)
            = unitDirection (frameDirection (matrixWorld (turnedSliderStore 21)) (3, 4, 0))"
    by (simp add: turnedSliderStore_at quarterTurnFrame_def unitDirection_axes)
  have b9: "(1, 2, 3) = pointAlong (lastRay turnedSlideStart) (dragHitDistance turnedSlideStart)"
    and b10: "(2, 4, 7) = pointAlong turnedSlideTarget (dragHitDistance turnedSlideStart)"
    by (simp_all add: pointAlong_def turnedSlideStart_def turnedSlideTarget_def)
  have b11: "2 / 5 = scalarProduct (vecDiff (2, 4, 7) (1, 2, 3)) (- 4 / 5, 3 / 5, 0)"
    by simp
  note second = prismatic_delta_projection[where sc=sliderScene and cb=True
      and p="(1, 2, 3)" and q="(2, 4, 7)" and s=turnedSliderStore and j=22,
      OF b1 b2 b3 b4 slider_chain_22 b6 b7 b8 b9 b10 b11]
  show ?thesis
    using first second
    by (simp add: sliderStore_at turnedSliderStore_at URDFJoint_fields)
qed

section \<open>A drag through the pivot\<close>

lemma roundHalfEven_error: "\<bar>of_int (roundHalfEven q) - q\<bar> \<le> 1 / 2"
proof -
  define f where "f = \<lfloor>q\<rfloor>"
  define r where "r = q - of_int f"
  have r: "0 \<le> r" "r < 1" unfolding r_def f_def by linarith+
  have q: "q = of_int f + r" by (simp add: r_def)
  have rh: "roundHalfEven q
            = (if r < 1 / 2 then f else if 1 / 2 < r then f + 1 else if even f then f else f + 1)"
    unfolding roundHalfEven_def Let_def f_def[symmetric] r_def[symmetric] by (rule refl)
  consider "r < 1 / 2" | "1 / 2 < r" | "r = 1 / 2" by linarith
  then show ?thesis
  proof cases
    case 1
    then show ?thesis unfolding rh using r by (simp add: q)
  next
    case 2
    then show ?thesis unfolding rh using r by (simp add: q)
  next
    case 3
    then show ?thesis unfolding rh by (simp add: q)
  qed
qed



lemma isFinite_simps [simp]:
  "isFinite (Fin x)" "\<not> isFinite PosInf" "\<not> isFinite NegInf" "\<not> isFinite NaN"
  by (simp_all add: isFinite_def)



lemma finiteVector_iff: "finiteVector (x, y, z) \<longleftrightarrow> isFinite x \<and> isFinite y \<and> isFinite z"
  by (simp add: finiteVector_def)


lemma finiteVector_cases:
  assumes "finiteVector v"
  obtains x y z where "v = (Fin x, Fin y, Fin z)"
proof -
  obtain a b c where v: "v = (a, b, c)" by (cases v)
  from assms have "isFinite a" "isFinite b" "isFinite c"
    by (simp_all add: v finiteVector_iff)
  then obtain x y z where "a = Fin x" "b = Fin y" "c = Fin z"
    by (cases a; cases b; cases c) simp_all
  then show ?thesis using that v by simp
qed
















lemma worldAxis_z:
  "worldAxis binary64 (0, 0, 1) identity4 = (Fin 0, Fin 0, Fin 1)"
  "worldAxis binary64 (0, 0, 1) movedFrame = (Fin 0, Fin 0, Fin 1)"
  by (simp_all add: worldAxis_def transformDirection_def normalize_def divideScalar_def
        vlength_def lengthSq_def jsOr_def identity4_def movedFrame_def binary64_small)





section \<open>The examples in doubles\<close>

text \<open>
  A point that is the pivot projects to the zero vector, for every rounding that keeps
  zero and the coordinates of the pivot, when the normal is finite and its scalar
  product with the pivot does not overflow.
\<close>

lemma projectedRelative_at_pivot:
  assumes "rd 0 = Fin 0" and "rd x = Fin x" and "rd y = Fin y" and "rd z = Fin z"
    and "finiteVector n" and "isFinite (dot rd (Fin x, Fin y, Fin z) n)"
  shows "projectedRelative rd n (Fin x, Fin y, Fin z) (Fin x, Fin y, Fin z) = zeroVector"
proof -
  obtain n1 n2 n3 where n: "n = (Fin n1, Fin n2, Fin n3)"
    using assms(5) by (rule finiteVector_cases)
  obtain D where D: "dot rd (Fin x, Fin y, Fin z) n = Fin D"
    using assms(6) by (cases "dot rd (Fin x, Fin y, Fin z) n") simp_all
  have D': "dot rd n (Fin x, Fin y, Fin z) = Fin D"
    using D by (simp add: n mult.commute)
  show ?thesis
    unfolding projectedRelative_def setFromNormalAndCoplanarPoint_def projectPoint_def
      distanceToPoint_def Let_def fst_conv snd_conv D D'
    by (simp add: n assms(1,2,3,4) zeroVector_def)
qed

text \<open>
  The slider along \<open>z\<close> in doubles: from the origin to a point whose coordinates are
  doubles, the delta is the \<open>z\<close> coordinate of the point.
\<close>

lemma prismatic_delta_in_doubles:
  assumes "axis (s j) = Some (AxisVector3 0 0 1) \<or> axis (s j) = None"
    and "parentChain sc j = parent # rest"
    and "matrixWorld (s parent) = identity4"
    and "binary64 dx = Fin dx" and "binary64 dy = Fin dy" and "binary64 dz = Fin dz"
  shows "getPrismaticDelta binary64 sc s j (Fin 0, Fin 0, Fin 0) (Fin dx, Fin dy, Fin dz)
         = Inr (Fin dz)"
proof -
  have ax: "axisVector (s j) = Inr (0, 0, 1)"
    using assms(1) by (auto simp: axisVector_def)
  show ?thesis
    by (simp add: getPrismaticDelta_def ax assms(2,3) worldAxis_z Let_def assms(4,5,6)
          binary64_zero)
qed

lemma roundHalfEven_floor: "\<lfloor>q\<rfloor> \<le> roundHalfEven q" "roundHalfEven q \<le> \<lfloor>q\<rfloor> + 1"
  by (simp_all add: roundHalfEven_def Let_def)

lemma nearest64_idem: "nearest64 (nearest64 x) = nearest64 x"
proof (cases "x = 0")
  case True
  then show ?thesis by (simp add: nearest64_def)
next
  case False
  define e where "e = max (\<lfloor>log 2 \<bar>x\<bar>\<rfloor> - 52) (- 1074)"
  define u where "u = 2 powr (of_int e :: real)"
  define m where "m = roundHalfEven (x / u)"
  have upos: "0 < u" by (simp add: u_def)
  have y: "nearest64 x = of_int m * 2 powr of_int e"
    using False by (simp add: nearest64_def Let_def e_def u_def m_def)
  have e1: "- 1074 \<le> e" and e2: "\<lfloor>log 2 \<bar>x\<bar>\<rfloor> - 52 \<le> e" by (simp_all add: e_def)
  have "log 2 \<bar>x\<bar> < of_int (\<lfloor>log 2 \<bar>x\<bar>\<rfloor> + 1)" by simp
  also have "\<dots> \<le> of_int (e + 53)" using e2 by (simp only: of_int_le_iff)
  finally have "log 2 \<bar>x\<bar> < of_int (e + 53)" .
  then have "\<bar>x\<bar> < 2 powr of_int (e + 53)"
    using False by (simp add: log_less_iff)
  also have "\<dots> = u * 2 ^ 53"
    by (simp add: u_def powr_add powr_realpow[symmetric])
  finally have b: "\<bar>x\<bar> < u * 2 ^ 53" .
  have "x < 2 ^ 53 * u" and "- (2 ^ 53) * u < x" using b by (simp_all add: mult.commute)
  then have q: "- (2 ^ 53) < x / u" "x / u < 2 ^ 53"
    by (simp_all only: pos_divide_less_eq[OF upos] pos_less_divide_eq[OF upos])
  have "\<lfloor>x / u\<rfloor> < 2 ^ 53" using q(2) by (simp add: floor_less_iff)
  then have m2: "m \<le> 2 ^ 53" using roundHalfEven_floor(2)[of "x / u"] unfolding m_def by linarith
  have "- (2 ^ 53) \<le> \<lfloor>x / u\<rfloor>" using q(1) by (simp add: le_floor_iff)
  then have m1: "- (2 ^ 53) \<le> m" using roundHalfEven_floor(1)[of "x / u"] unfolding m_def by linarith
  consider "\<bar>m\<bar> < 2 ^ 53" | "m = 2 ^ 53" | "m = - (2 ^ 53)" using m1 m2 by linarith
  then have "nearest64 (nearest64 x) = nearest64 x"
  proof cases
    case 1
    then show ?thesis
      using nearest64_representable[of "nearest64 x" m e] y e1 by simp
  next
    case 2
    have "nearest64 x = of_int 1 * 2 powr of_int (e + 53)"
      by (simp add: y 2 powr_add powr_realpow[symmetric])
    then show ?thesis
      using nearest64_representable[of "nearest64 x" 1 "e + 53"] e1 by simp
  next
    case 3
    have "nearest64 x = of_int (- 1) * 2 powr of_int (e + 53)"
      by (simp add: y 3 powr_add powr_realpow[symmetric])
    then show ?thesis
      using nearest64_representable[of "nearest64 x" "- 1" "e + 53"] e1 by simp
  qed
  then show ?thesis .
qed

lemma nearest64_close: "\<bar>nearest64 x - x\<bar> \<le> \<bar>x\<bar> / 100 + 1 / 100"
proof (cases "x = 0")
  case True
  then show ?thesis by (simp add: nearest64_def)
next
  case False
  define e where "e = max (\<lfloor>log 2 \<bar>x\<bar>\<rfloor> - 52) (- 1074)"
  define u where "u = 2 powr (of_int e :: real)"
  have upos: "0 < u" by (simp add: u_def)
  have y: "nearest64 x = of_int (roundHalfEven (x / u)) * u"
    using False by (simp add: nearest64_def Let_def e_def u_def)
  have "of_int (roundHalfEven (x / u)) * u - x = (of_int (roundHalfEven (x / u)) - x / u) * u"
    using upos by (simp add: left_diff_distrib)
  then have "\<bar>of_int (roundHalfEven (x / u)) * u - x\<bar> = \<bar>of_int (roundHalfEven (x / u)) - x / u\<bar> * \<bar>u\<bar>"
    by (simp only: abs_mult)
  also have "\<dots> = \<bar>of_int (roundHalfEven (x / u)) - x / u\<bar> * u"
    using upos by simp
  also have "\<dots> \<le> 1 / 2 * u"
    using roundHalfEven_error[of "x / u"] upos by (intro mult_right_mono) simp_all
  finally have err: "\<bar>nearest64 x - x\<bar> \<le> u / 2" by (simp add: y)
  have small: "(2::real) powr (- 6) = 1 / 64"
    by (simp add: powr_minus_divide)
  have "u \<le> \<bar>x\<bar> / 64 + 1 / 64"
  proof (cases "\<lfloor>log 2 \<bar>x\<bar>\<rfloor> - 52 \<le> - 1074")
    case True
    then have "e = - 1074" by (simp add: e_def)
    then have "u = 2 powr (- 1074)" by (simp add: u_def)
    also have "\<dots> \<le> 2 powr (- 6)" by (intro powr_mono) simp_all
    finally show ?thesis by (simp add: small)
  next
    case False
    then have "e = \<lfloor>log 2 \<bar>x\<bar>\<rfloor> - 52" by (simp add: e_def)
    then have "of_int e \<le> log 2 \<bar>x\<bar> + (- 6)" by simp linarith
    then have "u \<le> 2 powr (log 2 \<bar>x\<bar> + (- 6))"
      unfolding u_def by (intro powr_mono) simp_all
    also have "\<dots> = \<bar>x\<bar> * 2 powr (- 6)"
      using \<open>x \<noteq> 0\<close> by (simp only: powr_add) simp
    finally show ?thesis by (simp add: small)
  qed
  then show ?thesis using err by linarith
qed


lemma binary64_halves:
  "binary64 (1 / 2) = Fin (1 / 2)" "binary64 (- (1 / 2)) = Fin (- (1 / 2))"
  "binary64 (3 / 2) = Fin (3 / 2)"
proof -
  have up: "(2::real) < 2 ^ 1024 - 2 ^ 970" by simp
  have h: "(2::real) powr (- 1) = 1 / 2" by (simp add: powr_minus_divide)
  have "nearest64 (1 / 2) = 1 / 2"
    using nearest64_representable[of "1 / 2" 1 "- 1"] by (simp add: h)
  then show "binary64 (1 / 2) = Fin (1 / 2)" using up by (simp add: binary64_def)
  have "nearest64 (- (1 / 2)) = - (1 / 2)"
    using nearest64_representable[of "- (1 / 2)" "- 1" "- 1"] by (simp add: h)
  then show "binary64 (- (1 / 2)) = Fin (- (1 / 2))" using up by (simp add: binary64_def)
  have "nearest64 (3 / 2) = 3 / 2"
    using nearest64_representable[of "3 / 2" 3 "- 1"] by (simp add: h)
  then show "binary64 (3 / 2) = Fin (3 / 2)" using up by (simp add: binary64_def)
qed

lemma binary64_moderate: "\<bar>x\<bar> \<le> 100 \<Longrightarrow> binary64 x = Fin (nearest64 x)"
proof -
  assume "\<bar>x\<bar> \<le> 100"
  also have "(100::real) < 2 ^ 1024 - 2 ^ 970" by simp
  finally show ?thesis by (simp add: binary64_def)
qed

lemma nearest64_between:
  assumes "0 \<le> x"
  shows "99 / 100 * x - 1 / 100 \<le> nearest64 x" and "nearest64 x \<le> 101 / 100 * x + 1 / 100"
  using nearest64_close[of x] assms by linarith+

lemma doubleStore_12:
  "doubleStore 12 = (URDFJoint ''j1'' ''revolute'' (AxisVector3 0 0 1)
                         (- upperLimit64) upperLimit64)
                        \<lparr>angle := Some (Fin startValue64)\<rparr>"
  by (simp add: doubleStore_def)

lemma drag_hits_in_doubles:
  "rayAt binary64 (lastRay dragStart) (dragHitDistance dragStart) = (Fin 1, Fin 0, Fin (1 / 2))"
  "rayAt binary64 dragTarget (dragHitDistance dragStart) = (Fin 0, Fin 1, Fin (1 / 2))"
  by (simp_all add: rayAt_def dragStart_def dragTarget_def binary64_small binary64_halves)

lemma drag_projections_in_doubles:
  "projectedRelative binary64 (Fin 0, Fin 0, Fin 1) (Fin 0, Fin 0, Fin 0) (Fin 1, Fin 0, Fin (1 / 2))
     = (Fin 1, Fin 0, Fin 0)"
  "projectedRelative binary64 (Fin 0, Fin 0, Fin 1) (Fin 0, Fin 0, Fin 0) (Fin 0, Fin 1, Fin (1 / 2))
     = (Fin 0, Fin 1, Fin 0)"
  by (simp_all add: projectedRelative_def setFromNormalAndCoplanarPoint_def projectPoint_def
        distanceToPoint_def Let_def binary64_small binary64_halves)

text \<open>
  The quarter turn in doubles: the delta is the double nearest to \<open>\<pi>/2\<close>, and the
  value of the joint goes from the double nearest to 1.4 to the double nearest to 1.57,
  the upper limit.
\<close>

lemma quarter_turn_in_doubles:
  "getRevoluteDelta binary64 (doubleStore 12)
     (rayAt binary64 (lastRay dragStart) (dragHitDistance dragStart))
     (rayAt binary64 dragTarget (dragHitDistance dragStart)) = Inr (Fin (nearest64 (pi / 2)))
   \<and> moveRay binary64 chainScene True dragTarget (doubleStore, dragStart)
       = Inr (doubleStore(12 := (doubleStore 12)\<lparr>angle := Some (Fin upperLimit64)\<rparr>),
              dragStart\<lparr>lastRay := dragTarget\<rparr>,
              [SetJointValue 12 (Fin upperLimit64), Invalidate,
               JointChange ''j1'' (Fin upperLimit64)])"
proof -
  define q where "q = nearest64 (pi / 2)"
  define v where "v = nearest64 (startValue64 + q)"
  have pi2: "1 \<le> pi / 2" "pi / 2 \<le> 2" using pi_ge_two pi_less_4 by simp_all
  have p0: "0 \<le> pi / 2" using pi2 by simp
  have q1: "9 / 10 \<le> q" using nearest64_between(1)[OF p0] pi2 unfolding q_def by linarith
  have q2: "q \<le> 21 / 10" using nearest64_between(2)[OF p0] pi2 unfolding q_def by linarith
  have a00: "0 \<le> (1.4::real)" by simp
  have a1: "13 / 10 \<le> startValue64" using nearest64_between(1)[OF a00] unfolding startValue64_def by simp
  have a2: "startValue64 \<le> 15 / 10" using nearest64_between(2)[OF a00] unfolding startValue64_def by simp
  have h00: "0 \<le> (1.57::real)" by simp
  have hb1: "0 \<le> upperLimit64" using nearest64_between(1)[OF h00] unfolding upperLimit64_def by simp
  have hb2: "upperLimit64 \<le> 16 / 10" using nearest64_between(2)[OF h00] unfolding upperLimit64_def by simp
  have s0: "0 \<le> startValue64 + q" using a1 q1 by linarith
  have "99 / 100 * (startValue64 + q) = 99 / 100 * startValue64 + 99 / 100 * q" by (simp add: distrib_left)
  then have vb: "2 \<le> v" using nearest64_between(1)[OF s0] a1 q1 unfolding v_def by linarith
  note qb = q1 q2 and ab = a1 a2 and hb = hb1 hb2
  have h1: "isDraggingJoint dragStart" and h2: "dragJoint dragStart = Some 12"
    by (simp_all add: dragStart_def)
  have h3: "jointType (doubleStore 12) = Some ''revolute'' \<or> jointType (doubleStore 12) = Some ''continuous''"
    by (simp add: doubleStore_12 URDFJoint_fields)
  have ax: "axisVector (doubleStore 12) = Inr (0, 0, 1)"
    by (simp add: axisVector_def doubleStore_12 URDFJoint_fields)
  have mw: "matrixWorld (doubleStore 12) = identity4"
    by (simp add: doubleStore_12 URDFJoint_fields)
  have pv: "setFromMatrixPosition identity4 = (Fin 0, Fin 0, Fin 0)"
    by (simp add: setFromMatrixPosition_def identity4_def)
  have ac: "binary64 (pi / 2) = Fin q"
    unfolding q_def using pi2 by (intro binary64_moderate) simp
  have ang: "angleTo binary64 (Fin 1, Fin 0, Fin 0) (Fin 0, Fin 1, Fin 0) = Fin q"
    by (simp add: angleTo_def Let_def lengthSq_def binary64_small clamp_def ac)
  have qq: "binary64 q = Fin q"
    using binary64_moderate[of q] qb nearest64_idem[of "pi / 2"] by (simp add: q_def)
  have dl: "getRevoluteDelta binary64 (doubleStore 12)
     (rayAt binary64 (lastRay dragStart) (dragHitDistance dragStart))
     (rayAt binary64 dragTarget (dragHitDistance dragStart)) = Inr (Fin q)"
    by (simp add: getRevoluteDelta_def Let_def ax mw pv worldAxis_z drag_hits_in_doubles
          drag_projections_in_doubles ang binary64_small qq)
  have sum: "binary64 (startValue64 + q) = Fin v"
    unfolding v_def using qb ab by (intro binary64_moderate) simp
  have lb: "limitBounds binary64 ((URDFJoint n jt a lo hi)\<lparr>angle := an\<rparr>) = (Fin lo, Fin hi)"
    for n jt a lo hi an
    by (simp add: limitBounds_def numOf_def URDFJoint_fields)
  have cl: "max (- upperLimit64) (min upperLimit64 v) = upperLimit64" using hb vb by simp
  have q0: "Fin q \<noteq> Fin 0" using qb by simp
  have mv: "moveRay binary64 chainScene True dragTarget (doubleStore, dragStart)
       = Inr (doubleStore(12 := (doubleStore 12)\<lparr>angle := Some (Fin upperLimit64)\<rparr>),
              dragStart\<lparr>lastRay := dragTarget\<rparr>,
              [SetJointValue 12 (Fin upperLimit64), Invalidate, JointChange ''j1'' (Fin upperLimit64)])"
    using moveRay_revolute[where rd=binary64 and d=dragStart and j=12 and s=doubleStore
        and toRay=dragTarget and delta="Fin q" and sc=chainScene and cb=True, OF h1 h2 h3 dl] q0
    by (simp add: Let_def lb doubleStore_12 URDFJoint_fields nullish_def jsOr_Fin
          sum cl)
  show ?thesis
    using dl mv by (simp add: q_def)
qed

section \<open>Highlight and revert\<close>

lemma setVisible_material [simp]: "material (setVisible v r s x) = material (s x)"
  by (simp add: setVisible_def)

lemma setVisible_userData [simp]: "userData (setVisible v r s x) = userData (s x)"
  by (simp add: setVisible_def)

lemma restoreParents_material [simp]:
  "material (restoreParents P v chain s x) = material (s x)"
  unfolding restoreParents_def by (induction chain arbitrary: s) simp_all

lemma revertMesh_material:
  "material (fst (revertMesh sc sv scol (k, v) (s, ms)) m) = (if k = m then v else material (s m))"
  by (simp add: revertMesh_def Let_def)

lemma restoreAll_material:
  assumes "\<forall>e \<in> set hl. fst e = m \<longrightarrow> snd e = x"
    and "mapHas hl m \<or> material (s m) = x"
  shows "material (fst (restoreAll sc hl sv scol (s, ms)) m) = x"
  using assms unfolding restoreAll_def
proof (induction hl arbitrary: s ms)
  case Nil
  then show ?case by (simp add: mapHas_def)
next
  case (Cons e hl)
  obtain k v where e: "e = (k, v)" by (cases e)
  obtain s' ms' where st: "revertMesh sc sv scol (k, v) (s, ms) = (s', ms')"
    by (cases "revertMesh sc sv scol (k, v) (s, ms)")
  have mat: "material (s' m) = (if k = m then v else material (s m))"
    using revertMesh_material[of sc sv scol k v s ms m] st by simp
  have "mapHas hl m \<or> material (s' m) = x"
    using Cons.prems e mat by (auto simp: mapHas_def)
  moreover have "\<forall>e \<in> set hl. fst e = m \<longrightarrow> snd e = x"
    using Cons.prems by simp
  ultimately show ?case
    using Cons.IH[of s' ms'] e st by simp
qed

lemma highlightMesh_captured:
  assumes "captured m x st"
  shows "captured m x (highlightMesh sc hm mesh st)"
proof -
  obtain s hl where st: "st = (s, hl)" by (cases st)
  show ?thesis
    using assms unfolding st captured_def highlightMesh_def
    by (auto simp: Let_def mapHas_def split: list.splits)
qed

lemma highlightLinkMeshes_captured:
  assumes "captured m x st"
  shows "captured m x (highlightLinkMeshes sc index l hm sub st)"
proof -
  have "captured m x (fold (highlightMesh sc hm) meshes st)" for meshes
    using assms by (induction meshes arbitrary: st) (simp_all add: highlightMesh_captured)
  then show ?thesis by (simp add: highlightLinkMeshes_def)
qed

lemma applyHighlights_captured:
  assumes "captured m x st"
  shows "captured m x (applyHighlights sc index calls st)"
  using assms unfolding applyHighlights_def
  by (induction calls arbitrary: st) (simp_all add: highlightLinkMeshes_captured)

text \<open>
  Claim C3. Take a mesh \<open>m\<close> that has no entry in the map of highlighted meshes, apply
  any sequence of highlights, and revert. Then \<open>m.material\<close> is the reference it was
  before the first highlight. After the highlights every entry of the map for \<open>m\<close>
  holds that first material (an entry is written only when the mesh has none), and a
  mesh without entry still has it. The revert restores from the map, which it only
  reads, and clears the map afterwards.
\<close>

theorem highlight_round_trip:
  assumes "\<not> mapHas hl0 m"
    and "applyHighlights sc index calls (s0, hl0) = (s1, hl1)"
    and "revertHighlights sc hl1 showVisual showCollision (s1, ms) = ((s2, ms2), hl2)"
  shows "material (s2 m) = material (s0 m)
       \<and> (\<forall>e \<in> set hl1. fst e = m \<longrightarrow> snd e = material (s0 m))
       \<and> (mapHas hl1 m \<or> material (s1 m) = material (s0 m))
       \<and> (s2, ms2) = restoreAll sc hl1 showVisual showCollision (s1, ms)
       \<and> hl2 = []"
proof -
  have "captured m (material (s0 m)) (s0, hl0)"
    using assms(1) by (auto simp: captured_def mapHas_def)
  then have cap: "captured m (material (s0 m)) (s1, hl1)"
    using applyHighlights_captured[of m "material (s0 m)" "(s0, hl0)" sc index calls] assms(2)
    by simp
  have rev: "(s2, ms2) = restoreAll sc hl1 showVisual showCollision (s1, ms)" and "hl2 = []"
    using assms(3) by (simp_all add: revertHighlights_def)
  have "material (fst (restoreAll sc hl1 showVisual showCollision (s1, ms)) m) = material (s0 m)"
    using cap by (intro restoreAll_material) (simp_all add: captured_def)
  then have "material (s2 m) = material (s0 m)"
    using rev by (metis fst_conv)
  then show ?thesis
    using cap rev \<open>hl2 = []\<close> by (simp add: captured_def)
qed

lemma chainStore_18: "chainStore 18 = Mesh 101"
  by (simp add: chainStore_def)

lemma Mesh_fields:
  "material (Mesh k) = Some k" "\<not> ud_isGizmo (userData (Mesh k))" "isMesh (Mesh k)"
  by (simp_all add: Mesh_def Object3D_def emptyUserData_def)

lemma highlightMesh_self:
  "\<not> ud_isGizmo (userData (s mesh)) \<Longrightarrow>
   material (fst (highlightMesh sc hm mesh (s, hl)) mesh) = Some hm
   \<and> userData (fst (highlightMesh sc hm mesh (s, hl)) mesh) = userData (s mesh)"
  by (auto simp: highlightMesh_def Let_def setVisible_def split: list.splits)

text \<open>
  The mesh (18) with the material 101 is highlighted with 200 and then with 201, and
  the revert gives it the material 101 again.
\<close>

theorem highlight_round_trip_witness:
  "material (chainStore 18) = Some 101
   \<and> material (fst (applyHighlights chainScene baseBucketIndex twoHighlights (chainStore, [])) 18)
       = Some 201
   \<and> material (fst (fst (revertHighlights chainScene
         (snd (applyHighlights chainScene baseBucketIndex twoHighlights (chainStore, [])))
         True False
         (fst (applyHighlights chainScene baseBucketIndex twoHighlights (chainStore, [])),
          plainMaterials))) 18) = Some 101"
proof -
  have h1: "\<not> mapHas ([] :: highlighted) 18" by (simp add: mapHas_def)
  obtain s1 hl1 where h2: "applyHighlights chainScene baseBucketIndex twoHighlights (chainStore, []) = (s1, hl1)"
    by (cases "applyHighlights chainScene baseBucketIndex twoHighlights (chainStore, [])")
  obtain s2 ms2 hl2 where h3: "revertHighlights chainScene hl1 True False (s1, plainMaterials) = ((s2, ms2), hl2)"
    by (cases "revertHighlights chainScene hl1 True False (s1, plainMaterials)") auto
  have bucket: "getLinkMeshes baseBucketIndex ''base'' Visual = [18]"
    by (simp add: getLinkMeshes_def baseBucketIndex_def nullish_def)
  obtain sa hla where first: "highlightMesh chainScene 200 18 (chainStore, []) = (sa, hla)"
    by (cases "highlightMesh chainScene 200 18 (chainStore, [])")
  have "\<not> ud_isGizmo (userData (chainStore 18))"
    by (simp add: chainStore_18 Mesh_fields)
  then have notGizmo: "\<not> ud_isGizmo (userData (sa 18))"
    using highlightMesh_self[of chainStore 18 chainScene 200 "[]"] first by simp
  have "s1 = fst (highlightMesh chainScene 201 18 (sa, hla))"
    using h2 first by (simp add: applyHighlights_def twoHighlights_def highlightLinkMeshes_def bucket)
  then have mid: "material (s1 18) = Some 201"
    using highlightMesh_self[where s=sa and mesh=18 and sc=chainScene and hm=201 and hl=hla] notGizmo
    by simp
  have r: "restoreAll chainScene hl1 True False (s1, plainMaterials) = (s2, ms2)"
    using h3 by (simp add: revertHighlights_def)
  show ?thesis
    using highlight_round_trip[OF h1 h2 h3] mid h2 r
    by (simp add: chainStore_18 Mesh_fields revertHighlights_def)
qed

section \<open>The builder writes user data only\<close>

lemma writesOnly_refl: "writesOnly L J M s s"
  by (simp add: writesOnly_def sameOutsideUserData_def otherEntriesKept_def linkEntriesKept_def
        jointEntriesKept_def meshEntriesKept_def)

lemma sameOutsideUserData_trans:
  "sameOutsideUserData a b \<Longrightarrow> sameOutsideUserData b c \<Longrightarrow> sameOutsideUserData a c"
  by (simp add: sameOutsideUserData_def)

lemma writesOnly_trans:
  assumes "writesOnly L J M s s'" and "writesOnly L' J' M' s' s''"
  shows "writesOnly (L \<union> L') (J \<union> J') (M \<union> M') s s''"
  unfolding writesOnly_def
proof (intro allI conjI impI)
  fix r
  show "sameOutsideUserData (s r) (s'' r)"
    using assms sameOutsideUserData_trans unfolding writesOnly_def by blast
  show "otherEntriesKept (userData (s r)) (userData (s'' r))"
    using assms unfolding writesOnly_def otherEntriesKept_def by metis
  show "linkEntriesKept (userData (s r)) (userData (s'' r))" if "r \<notin> L \<union> L'"
    using assms that unfolding writesOnly_def linkEntriesKept_def by (metis UnCI)
  show "jointEntriesKept (userData (s r)) (userData (s'' r))" if "r \<notin> J \<union> J'"
    using assms that unfolding writesOnly_def jointEntriesKept_def by (metis UnCI)
  show "meshEntriesKept (userData (s r)) (userData (s'' r))" if "r \<notin> M \<union> M'"
    using assms that unfolding writesOnly_def meshEntriesKept_def by (metis UnCI)
qed

lemma writesOnly_mono:
  "writesOnly L J M s s' \<Longrightarrow> L \<subseteq> L' \<Longrightarrow> J \<subseteq> J' \<Longrightarrow> M \<subseteq> M' \<Longrightarrow> writesOnly L' J' M' s s'"
  unfolding writesOnly_def by blast

lemma updUserData_apply:
  "updUserData f r s x = (if x = r then (s r)\<lparr>userData := f (userData (s r))\<rparr> else s x)"
  by (simp add: updUserData_def)

lemma indexLink_writes:
  "writesOnly {snd e} {} {} s (fst (indexLink e (s, index)))"
  by (cases e)
     (auto simp: indexLink_def Let_def writesOnly_def updUserData_apply sameOutsideUserData_def
        otherEntriesKept_def linkEntriesKept_def jointEntriesKept_def meshEntriesKept_def
        split: option.splits)

lemma indexJoint_writes:
  "writesOnly {} {snd e} {} s (fst (indexJoint e (s, index)))"
  by (cases e)
     (auto simp: indexJoint_def Let_def writesOnly_def updUserData_apply sameOutsideUserData_def
        otherEntriesKept_def linkEntriesKept_def jointEntriesKept_def meshEntriesKept_def
        split: option.splits)

lemma indexMesh_store:
  "fst (indexMesh sc rl c (s, index)) =
     (if indexedMesh s c
      then updUserData (\<lambda>u. u\<lparr>ud_parentLinkName := Some (snd (findNearestLink sc s c (rootOf (robotTree sc)) rl)),
             ud_isCollisionMesh := Some (isCollisionMeshDeep sc s c (rootOf (robotTree sc))),
             ud_isVisualMesh := Some (\<not> isCollisionMeshDeep sc s c (rootOf (robotTree sc))),
             ud_isInKinematicChain := Some (findAffectingJoints sc s c (rootOf (robotTree sc)) \<noteq> []),
             ud_affectingJoints := Some (map (\<lambda>j. name (s j))
                (findAffectingJoints sc s c (rootOf (robotTree sc))))\<rparr>) c s
      else s)"
  by (simp add: indexMesh_def indexedMesh_def Let_def)

lemma indexMesh_writes:
  "writesOnly {} {} {r. r = c \<and> indexedMesh s c} s (fst (indexMesh sc rl c (s, index)))"
  unfolding indexMesh_store
  by (auto simp: writesOnly_def updUserData_apply sameOutsideUserData_def
        otherEntriesKept_def linkEntriesKept_def jointEntriesKept_def meshEntriesKept_def)

lemma writesOnly_indexedMesh:
  assumes "writesOnly L J M s s'"
  shows "indexedMesh s' r = indexedMesh s r"
proof -
  have "sameOutsideUserData (s r) (s' r)" and "otherEntriesKept (userData (s r)) (userData (s' r))"
    using assms by (simp_all add: writesOnly_def)
  then have "isMesh (s' r) = isMesh (s r)" and "ud_isGizmo (userData (s' r)) = ud_isGizmo (userData (s r))"
    by (auto simp: sameOutsideUserData_def otherEntriesKept_def dest: arg_cong[where f=isMesh])
  then show ?thesis by (simp add: indexedMesh_def)
qed

lemma fold_indexLink_writes:
  "writesOnly (snd ` set rl) {} {} s (fst (fold indexLink rl (s, index)))"
proof (induction rl arbitrary: s index)
  case Nil
  show ?case by (simp add: writesOnly_refl)
next
  case (Cons e rl)
  obtain s1 index1 where st: "indexLink e (s, index) = (s1, index1)"
    by (cases "indexLink e (s, index)")
  have "writesOnly {snd e} {} {} s s1"
    using indexLink_writes[of e s index] st by simp
  from writesOnly_trans[OF this Cons.IH[of s1 index1]] show ?case
    by (simp add: st)
qed

lemma fold_indexJoint_writes:
  "writesOnly {} (snd ` set rj) {} s (fst (fold indexJoint rj (s, index)))"
proof (induction rj arbitrary: s index)
  case Nil
  show ?case by (simp add: writesOnly_refl)
next
  case (Cons e rj)
  obtain s1 index1 where st: "indexJoint e (s, index) = (s1, index1)"
    by (cases "indexJoint e (s, index)")
  have "writesOnly {} {snd e} {} s s1"
    using indexJoint_writes[of e s index] st by simp
  from writesOnly_trans[OF this Cons.IH[of s1 index1]] show ?case
    by (simp add: st)
qed

lemma fold_indexMesh_writes:
  "writesOnly {} {} {r \<in> set cs. indexedMesh s r} s (fst (fold (indexMesh sc rl) cs (s, index)))"
proof (induction cs arbitrary: s index)
  case Nil
  show ?case by (simp add: writesOnly_refl)
next
  case (Cons c cs)
  obtain s1 index1 where st: "indexMesh sc rl c (s, index) = (s1, index1)"
    by (cases "indexMesh sc rl c (s, index)")
  have w1: "writesOnly {} {} {r. r = c \<and> indexedMesh s c} s s1"
    using indexMesh_writes[of c s sc rl index] st by simp
  have same: "indexedMesh s1 r = indexedMesh s r" for r
    using writesOnly_indexedMesh[OF w1] .
  have "writesOnly {} {} {r \<in> set cs. indexedMesh s r} s1 (fst (fold (indexMesh sc rl) cs (s1, index1)))"
    using Cons.IH[of s1 index1] by (simp add: same)
  from writesOnly_trans[OF w1 this] show ?case
    by (auto simp: st elim!: writesOnly_mono)
qed

lemma indexLinksAndJoints_writes:
  "writesOnly (snd ` set (nullish (robotLinks (s robot)) []))
     (snd ` set (nullish (robotJoints (s robot)) [])) {} s (fst (indexLinksAndJoints s robot))"
proof -
  obtain s1 index1 where st: "fold indexLink (nullish (robotLinks (s robot)) []) (s, createEmptyIndex) = (s1, index1)"
    by (cases "fold indexLink (nullish (robotLinks (s robot)) []) (s, createEmptyIndex)")
  have w1: "writesOnly (snd ` set (nullish (robotLinks (s robot)) [])) {} {} s s1"
    using fold_indexLink_writes[of "nullish (robotLinks (s robot)) []" s createEmptyIndex] st by simp
  have w2: "writesOnly {} (snd ` set (nullish (robotJoints (s robot)) [])) {} s1
              (fst (fold indexJoint (nullish (robotJoints (s robot)) []) (s1, index1)))"
    by (rule fold_indexJoint_writes)
  from writesOnly_trans[OF w1 w2] show ?thesis
    by (simp add: indexLinksAndJoints_def Let_def st)
qed

lemma buildRobotIndex_writes:
  "writesOnly (snd ` set (nullish (robotLinks (s (rootOf (robotTree sc)))) []))
     (snd ` set (nullish (robotJoints (s (rootOf (robotTree sc)))) []))
     {r \<in> set (preorder (robotTree sc)). indexedMesh s r}
     s (fst (buildRobotIndex sc s))"
proof -
  let ?robot = "rootOf (robotTree sc)"
  obtain s2 index2 where st: "indexLinksAndJoints s ?robot = (s2, index2)"
    by (cases "indexLinksAndJoints s ?robot")
  have w1: "writesOnly (snd ` set (nullish (robotLinks (s ?robot)) []))
     (snd ` set (nullish (robotJoints (s ?robot)) [])) {} s s2"
    using indexLinksAndJoints_writes[of s ?robot] st by simp
  have same: "indexedMesh s2 r = indexedMesh s r" for r
    using writesOnly_indexedMesh[OF w1] .
  have w2: "writesOnly {} {} {r \<in> set (preorder (robotTree sc)). indexedMesh s r} s2
     (fst (fold (indexMesh sc (nullish (robotLinks (s ?robot)) [])) (preorder (robotTree sc)) (s2, index2)))"
    using fold_indexMesh_writes[of "preorder (robotTree sc)" s2 sc _ index2] by (simp add: same)
  from writesOnly_trans[OF w1 w2] show ?thesis
    by (simp add: buildRobotIndex_def Let_def st)
qed

section \<open>What phase 3 records per mesh\<close>

lemma registerAffected_fields:
  "linksVisual (registerAffected s m j index) = linksVisual index"
  "linksCollision (registerAffected s m j index) = linksCollision index"
  "kinematicMeshes (registerAffected s m j index) = kinematicMeshes index"
  "staticMeshes (registerAffected s m j index) = staticMeshes index"
  "meshToLink (registerAffected s m j index) = meshToLink index"
  "meshIsCollider (registerAffected s m j index) = meshIsCollider index"
  by (simp_all add: registerAffected_def Let_def split: option.splits)

lemma fold_registerAffected_fields:
  "linksVisual (fold (registerAffected s m) js index) = linksVisual index"
  "linksCollision (fold (registerAffected s m) js index) = linksCollision index"
  "kinematicMeshes (fold (registerAffected s m) js index) = kinematicMeshes index"
  "staticMeshes (fold (registerAffected s m) js index) = staticMeshes index"
  "meshToLink (fold (registerAffected s m) js index) = meshToLink index"
  "meshIsCollider (fold (registerAffected s m) js index) = meshIsCollider index"
  by (induction js arbitrary: index) (simp_all add: registerAffected_fields)

lemma indexMesh_skip: "\<not> indexedMesh s c \<Longrightarrow> indexMesh sc rl c (s, index) = (s, index)"
  by (auto simp: indexMesh_def indexedMesh_def)

lemma indexMesh_fields:
  assumes "indexedMesh s c"
    and "col = isCollisionMeshDeep sc s c (rootOf (robotTree sc))"
    and "owner = snd (findNearestLink sc s c (rootOf (robotTree sc)) rl)"
    and "js = findAffectingJoints sc s c (rootOf (robotTree sc))"
  shows "meshIsCollider (snd (indexMesh sc rl c (s, index))) = (meshIsCollider index)(c \<mapsto> col)"
    and "meshToLink (snd (indexMesh sc rl c (s, index)))
           = (if owner \<noteq> [] then (meshToLink index)(c \<mapsto> owner) else meshToLink index)"
    and "linksVisual (snd (indexMesh sc rl c (s, index)))
           = (if owner \<noteq> [] \<and> \<not> col then pushBucket owner c (linksVisual index) else linksVisual index)"
    and "linksCollision (snd (indexMesh sc rl c (s, index)))
           = (if owner \<noteq> [] \<and> col then pushBucket owner c (linksCollision index) else linksCollision index)"
    and "kinematicMeshes (snd (indexMesh sc rl c (s, index)))
           = (if js \<noteq> [] then setAdd c (kinematicMeshes index) else kinematicMeshes index)"
    and "staticMeshes (snd (indexMesh sc rl c (s, index)))
           = (if js = [] \<and> \<not> col then setAdd c (staticMeshes index) else staticMeshes index)"
  using assms
  by (simp_all add: indexMesh_def indexedMesh_def Let_def fold_registerAffected_fields)

lemma sameOutsideUserData_fields:
  assumes "sameOutsideUserData a b"
  shows "name b = name a" "otype b = otype a" "isMesh b = isMesh a"
    "isURDFCollider b = isURDFCollider a" "isURDFVisual b = isURDFVisual a"
    "isURDFLink b = isURDFLink a" "urdfName b = urdfName a" "isURDFJoint b = isURDFJoint a"
    "jointType b = jointType a" "axis b = axis a" "limit b = limit a" "angle b = angle a"
    "hasSetJointValue b = hasSetJointValue a" "inertial b = inertial a"
    "inertial_priv b = inertial_priv a" "material b = material a" "visible b = visible a"
    "renderOrder b = renderOrder a" "matrixAutoUpdate b = matrixAutoUpdate a"
    "matrixWorld b = matrixWorld a" "robotLinks b = robotLinks a" "robotJoints b = robotJoints a"
proof -
  have eq: "a\<lparr>userData := emptyUserData\<rparr> = b\<lparr>userData := emptyUserData\<rparr>"
    using assms by (simp add: sameOutsideUserData_def)
  show "name b = name a" using arg_cong[OF eq, of name] by simp
  show "otype b = otype a" using arg_cong[OF eq, of otype] by simp
  show "isMesh b = isMesh a" using arg_cong[OF eq, of isMesh] by simp
  show "isURDFCollider b = isURDFCollider a" using arg_cong[OF eq, of isURDFCollider] by simp
  show "isURDFVisual b = isURDFVisual a" using arg_cong[OF eq, of isURDFVisual] by simp
  show "isURDFLink b = isURDFLink a" using arg_cong[OF eq, of isURDFLink] by simp
  show "urdfName b = urdfName a" using arg_cong[OF eq, of urdfName] by simp
  show "isURDFJoint b = isURDFJoint a" using arg_cong[OF eq, of isURDFJoint] by simp
  show "jointType b = jointType a" using arg_cong[OF eq, of jointType] by simp
  show "axis b = axis a" using arg_cong[OF eq, of axis] by simp
  show "limit b = limit a" using arg_cong[OF eq, of limit] by simp
  show "angle b = angle a" using arg_cong[OF eq, of angle] by simp
  show "hasSetJointValue b = hasSetJointValue a" using arg_cong[OF eq, of hasSetJointValue] by simp
  show "inertial b = inertial a" using arg_cong[OF eq, of inertial] by simp
  show "inertial_priv b = inertial_priv a" using arg_cong[OF eq, of inertial_priv] by simp
  show "material b = material a" using arg_cong[OF eq, of material] by simp
  show "visible b = visible a" using arg_cong[OF eq, of visible] by simp
  show "renderOrder b = renderOrder a" using arg_cong[OF eq, of renderOrder] by simp
  show "matrixAutoUpdate b = matrixAutoUpdate a" using arg_cong[OF eq, of matrixAutoUpdate] by simp
  show "matrixWorld b = matrixWorld a" using arg_cong[OF eq, of matrixWorld] by simp
  show "robotLinks b = robotLinks a" using arg_cong[OF eq, of robotLinks] by simp
  show "robotJoints b = robotJoints a" using arg_cong[OF eq, of robotJoints] by simp
qed

lemma writesOnly_same: "writesOnly L J M s s' \<Longrightarrow> sameOutsideUserData (s r) (s' r)"
  by (simp add: writesOnly_def)

lemma affectingJointsWalk_frame:
  assumes "writesOnly L J M s s'"
  shows "affectingJointsWalk s' robot chain = affectingJointsWalk s robot chain"
  by (induction chain)
     (simp_all add: sameOutsideUserData_fields(8,9)[OF writesOnly_same[OF assms]])

lemma findAffectingJoints_frame:
  "writesOnly L J M s s' \<Longrightarrow> findAffectingJoints sc s' m robot = findAffectingJoints sc s m robot"
  by (simp add: findAffectingJoints_def affectingJointsWalk_frame)

lemma nearestLinkWalk_frame:
  assumes "writesOnly {} J M s s'"
  shows "nearestLinkWalk s' robot rl chain = nearestLinkWalk s robot rl chain"
proof -
  have ud: "ud_isURDFLink (userData (s' r)) = ud_isURDFLink (userData (s r))"
           "ud_linkName (userData (s' r)) = ud_linkName (userData (s r))" for r
    using assms by (simp_all add: writesOnly_def linkEntriesKept_def)
  show ?thesis
    by (induction chain)
       (simp_all add: sameOutsideUserData_fields(1,6,7)[OF writesOnly_same[OF assms]] ud)
qed

lemma findNearestLink_frame:
  "writesOnly {} J M s s' \<Longrightarrow> findNearestLink sc s' m robot rl = findNearestLink sc s m robot rl"
  by (simp add: findNearestLink_def nearestLinkWalk_frame)

lemma pushBucket_get:
  "nullish ((pushBucket k c m) L) [] = (if L = k then nullish (m k) [] @ [c] else nullish (m L) [])"
  by (simp add: pushBucket_def nullish_def split: option.splits)

lemma set_setAdd: "set (setAdd c xs) = insert c (set xs)"
  by (auto simp: setAdd_def)

lemma indexMesh_consistent:
  assumes idx: "indexedMesh s c"
    and fresh: "meshIsCollider index c = None"
    and inv: "\<And>m. indexConsistentAt sc s0 rl index m"
    and fr: "writesOnly {} J M s0 s"
  shows "indexConsistentAt sc s0 rl (snd (indexMesh sc rl c (s, index))) m"
proof -
  let ?robot = "rootOf (robotTree sc)"
  define col where "col = isCollisionMeshDeep sc s c ?robot"
  define owner where "owner = snd (findNearestLink sc s c ?robot rl)"
  define js where "js = findAffectingJoints sc s c ?robot"
  have owner0: "snd (findNearestLink sc s0 c ?robot rl) = owner"
    using findNearestLink_frame[OF fr] by (simp add: owner_def)
  have js0: "findAffectingJoints sc s0 c ?robot = js"
    using findAffectingJoints_frame[OF fr] by (simp add: js_def)
  note f = indexMesh_fields[OF idx col_def owner_def js_def, of index]
  show ?thesis
  proof (cases "m = c")
    case True
    have old: "indexConsistentAt sc s0 rl index c" by (rule inv)
    show ?thesis
      using old fresh unfolding True indexConsistentAt_def Let_def getLinkMeshes_def owner0 js0
      by (simp add: f pushBucket_get set_setAdd)
  next
    case False
    have old: "indexConsistentAt sc s0 rl index m" by (rule inv)
    show ?thesis
      using old False unfolding indexConsistentAt_def Let_def getLinkMeshes_def
      by (simp add: f pushBucket_get set_setAdd)
  qed
qed

lemma indexMesh_collider_other:
  "m \<noteq> c \<Longrightarrow> meshIsCollider (snd (indexMesh sc rl c (s, index))) m = meshIsCollider index m"
  by (cases "indexedMesh s c") (simp_all add: indexMesh_skip indexMesh_fields(1))

lemma indexMesh_collider_self:
  "meshIsCollider (snd (indexMesh sc rl c (s, index))) c \<noteq> None
     \<longleftrightarrow> meshIsCollider index c \<noteq> None \<or> indexedMesh s c"
  by (cases "indexedMesh s c") (simp_all add: indexMesh_skip indexMesh_fields(1))

lemma fold_indexMesh_consistent:
  assumes "distinct cs"
    and "\<forall>c \<in> set cs. meshIsCollider index c = None"
    and "\<And>m. indexConsistentAt sc s0 rl index m"
    and "writesOnly {} J M s0 s"
  shows "indexConsistentAt sc s0 rl (snd (fold (indexMesh sc rl) cs (s, index))) m"
  using assms
proof (induction cs arbitrary: s index J M)
  case Nil
  then show ?case by simp
next
  case (Cons c cs)
  obtain s1 index1 where st: "indexMesh sc rl c (s, index) = (s1, index1)"
    by (cases "indexMesh sc rl c (s, index)")
  have fr1: "writesOnly {} J (M \<union> {r. r = c \<and> indexedMesh s c}) s0 s1"
    using writesOnly_trans[OF Cons.prems(4) indexMesh_writes[of c s sc rl index]] st by simp
  have fresh1: "\<forall>c' \<in> set cs. meshIsCollider index1 c' = None"
  proof
    fix c' assume c': "c' \<in> set cs"
    then have "c' \<noteq> c" using Cons.prems(1) by auto
    then show "meshIsCollider index1 c' = None"
      using indexMesh_collider_other[of c' c sc rl s index] st Cons.prems(2) c' by simp
  qed
  have inv1: "indexConsistentAt sc s0 rl index1 m'" for m'
  proof (cases "indexedMesh s c")
    case True
    have "meshIsCollider index c = None" using Cons.prems(2) by simp
    from indexMesh_consistent[OF True this Cons.prems(3) Cons.prems(4), of m'] show ?thesis
      by (simp add: st)
  next
    case False
    then show ?thesis using Cons.prems(3) st by (simp add: indexMesh_skip)
  qed
  have "distinct cs" using Cons.prems(1) by simp
  from Cons.IH[OF this fresh1 inv1 fr1] show ?case
    by (simp add: st)
qed

lemma fold_indexMesh_collider_dom:
  "meshIsCollider (snd (fold (indexMesh sc rl) cs (s, index))) m \<noteq> None
     \<longleftrightarrow> meshIsCollider index m \<noteq> None \<or> (m \<in> set cs \<and> indexedMesh s m)"
proof (induction cs arbitrary: s index)
  case Nil
  show ?case by simp
next
  case (Cons c cs)
  obtain s1 index1 where st: "indexMesh sc rl c (s, index) = (s1, index1)"
    by (cases "indexMesh sc rl c (s, index)")
  have same: "indexedMesh s1 r = indexedMesh s r" for r
    using writesOnly_indexedMesh[OF indexMesh_writes[of c s sc rl index]] st by simp
  have step: "meshIsCollider index1 m \<noteq> None
                \<longleftrightarrow> meshIsCollider index m \<noteq> None \<or> (m = c \<and> indexedMesh s m)"
    using indexMesh_collider_other[of m c sc rl s index] indexMesh_collider_self[of sc rl c s index] st
    by (cases "m = c") auto
  show ?case
    using Cons.IH[of s1 index1] step by (auto simp: st same)
qed

lemma indexLink_mesh_fields:
  "linksVisual (snd (indexLink e (s, index))) = linksVisual index"
  "linksCollision (snd (indexLink e (s, index))) = linksCollision index"
  "kinematicMeshes (snd (indexLink e (s, index))) = kinematicMeshes index"
  "staticMeshes (snd (indexLink e (s, index))) = staticMeshes index"
  "meshToLink (snd (indexLink e (s, index))) = meshToLink index"
  "meshIsCollider (snd (indexLink e (s, index))) = meshIsCollider index"
  by (cases e; simp add: indexLink_def Let_def split: option.splits)+

lemma indexJoint_mesh_fields:
  "linksVisual (snd (indexJoint e (s, index))) = linksVisual index"
  "linksCollision (snd (indexJoint e (s, index))) = linksCollision index"
  "kinematicMeshes (snd (indexJoint e (s, index))) = kinematicMeshes index"
  "staticMeshes (snd (indexJoint e (s, index))) = staticMeshes index"
  "meshToLink (snd (indexJoint e (s, index))) = meshToLink index"
  "meshIsCollider (snd (indexJoint e (s, index))) = meshIsCollider index"
  by (cases e; simp add: indexJoint_def Let_def)+

lemma fold_indexLink_mesh_fields:
  "meshFieldsOf (snd (fold indexLink rl (s, index))) = meshFieldsOf index"
proof (induction rl arbitrary: s index)
  case Nil
  show ?case by simp
next
  case (Cons e rl)
  obtain s1 index1 where st: "indexLink e (s, index) = (s1, index1)"
    by (cases "indexLink e (s, index)")
  have "meshFieldsOf index1 = meshFieldsOf index"
    using indexLink_mesh_fields[of e s index] st by (simp add: meshFieldsOf_def)
  then show ?case using Cons.IH[of s1 index1] by (simp add: st)
qed

lemma fold_indexJoint_mesh_fields:
  "meshFieldsOf (snd (fold indexJoint rj (s, index))) = meshFieldsOf index"
proof (induction rj arbitrary: s index)
  case Nil
  show ?case by simp
next
  case (Cons e rj)
  obtain s1 index1 where st: "indexJoint e (s, index) = (s1, index1)"
    by (cases "indexJoint e (s, index)")
  have "meshFieldsOf index1 = meshFieldsOf index"
    using indexJoint_mesh_fields[of e s index] st by (simp add: meshFieldsOf_def)
  then show ?case using Cons.IH[of s1 index1] by (simp add: st)
qed

lemma indexLinksAndJoints_mesh_fields:
  "meshFieldsOf (snd (indexLinksAndJoints s robot)) = meshFieldsOf createEmptyIndex"
proof -
  obtain s1 index1 where st: "fold indexLink (nullish (robotLinks (s robot)) []) (s, createEmptyIndex) = (s1, index1)"
    by (cases "fold indexLink (nullish (robotLinks (s robot)) []) (s, createEmptyIndex)")
  have "meshFieldsOf index1 = meshFieldsOf createEmptyIndex"
    using fold_indexLink_mesh_fields[of "nullish (robotLinks (s robot)) []" s createEmptyIndex] st by simp
  then show ?thesis
    using fold_indexJoint_mesh_fields[of "nullish (robotJoints (s robot)) []" s1 index1]
    by (simp add: indexLinksAndJoints_def Let_def st)
qed

lemma indexLinksAndJoints_empty:
  "linksVisual (snd (indexLinksAndJoints s robot)) = Map.empty"
  "linksCollision (snd (indexLinksAndJoints s robot)) = Map.empty"
  "kinematicMeshes (snd (indexLinksAndJoints s robot)) = []"
  "staticMeshes (snd (indexLinksAndJoints s robot)) = []"
  "meshToLink (snd (indexLinksAndJoints s robot)) = Map.empty"
  "meshIsCollider (snd (indexLinksAndJoints s robot)) = Map.empty"
  using indexLinksAndJoints_mesh_fields[of s robot]
  by (simp_all add: meshFieldsOf_def createEmptyIndex_def)

lemma buildRobotIndex_consistent:
  assumes "distinct (preorder (robotTree sc))"
  shows "indexConsistentAt sc (fst (indexLinksAndJoints s (rootOf (robotTree sc))))
           (nullish (robotLinks (s (rootOf (robotTree sc)))) []) (snd (buildRobotIndex sc s)) m"
proof -
  let ?robot = "rootOf (robotTree sc)"
  obtain s2 index2 where st: "indexLinksAndJoints s ?robot = (s2, index2)"
    by (cases "indexLinksAndJoints s ?robot")
  have empty: "linksVisual index2 = Map.empty" "linksCollision index2 = Map.empty"
    "kinematicMeshes index2 = []" "staticMeshes index2 = []"
    "meshToLink index2 = Map.empty" "meshIsCollider index2 = Map.empty"
    using indexLinksAndJoints_empty[of s ?robot] st by simp_all
  have inv: "indexConsistentAt sc s2 (nullish (robotLinks (s ?robot)) []) index2 m'" for m'
    by (simp add: indexConsistentAt_def Let_def getLinkMeshes_def nullish_def empty)
  have fresh: "\<forall>c \<in> set (preorder (robotTree sc)). meshIsCollider index2 c = None"
    by (simp add: empty)
  from fold_indexMesh_consistent[OF assms fresh inv writesOnly_refl[of "{}" "{}" "{}" s2], of m]
  show ?thesis by (simp add: buildRobotIndex_def Let_def st)
qed

lemma buildRobotIndex_collider_dom:
  "meshIsCollider (snd (buildRobotIndex sc s)) m \<noteq> None
     \<longleftrightarrow> m \<in> set (preorder (robotTree sc)) \<and> indexedMesh s m"
proof -
  let ?robot = "rootOf (robotTree sc)"
  obtain s2 index2 where st: "indexLinksAndJoints s ?robot = (s2, index2)"
    by (cases "indexLinksAndJoints s ?robot")
  have empty: "meshIsCollider index2 = Map.empty"
    using indexLinksAndJoints_empty(6)[of s ?robot] st by simp
  have same: "indexedMesh s2 m = indexedMesh s m"
    using writesOnly_indexedMesh[OF indexLinksAndJoints_writes[of s ?robot]] st by simp
  show ?thesis
    using fold_indexMesh_collider_dom[of sc _ "preorder (robotTree sc)" s2 index2 m]
    by (simp add: buildRobotIndex_def Let_def st empty same)
qed

section \<open>Static meshes and the freeze\<close>

lemma affectingJointsWalk_nonempty_iff:
  "affectingJointsWalk s robot chain \<noteq> []
     \<longleftrightarrow> (\<exists>j \<in> set (belowRobot robot chain).
            isURDFJoint (s j) \<and> truthyStr (jointType (s j)) \<and> jointType (s j) \<noteq> Some ''fixed'')"
  by (induction chain) (auto simp: belowRobot_def)

lemma indexMesh_static_mem:
  assumes "x \<in> set (staticMeshes (snd (indexMesh sc rl c (s, index))))"
  shows "x \<in> set (staticMeshes index)
         \<or> (x = c \<and> findAffectingJoints sc s c (rootOf (robotTree sc)) = [])"
proof (cases "indexedMesh s c")
  case True
  from indexMesh_fields(6)[OF True refl refl refl, of sc rl index] assms show ?thesis
    by (auto simp: set_setAdd split: if_splits)
next
  case False
  then show ?thesis using assms by (simp add: indexMesh_skip)
qed

lemma fold_indexMesh_static_mem:
  assumes "writesOnly L J M s0 s"
    and "x \<in> set (staticMeshes (snd (fold (indexMesh sc rl) cs (s, index))))"
  shows "x \<in> set (staticMeshes index) \<or> findAffectingJoints sc s0 x (rootOf (robotTree sc)) = []"
  using assms
proof (induction cs arbitrary: s index L J M)
  case Nil
  then show ?case by simp
next
  case (Cons c cs)
  obtain s1 index1 where st: "indexMesh sc rl c (s, index) = (s1, index1)"
    by (cases "indexMesh sc rl c (s, index)")
  have fr1: "writesOnly (L \<union> {}) (J \<union> {}) (M \<union> {r. r = c \<and> indexedMesh s c}) s0 s1"
    using writesOnly_trans[OF Cons.prems(1) indexMesh_writes[of c s sc rl index]] st by simp
  have "x \<in> set (staticMeshes index1) \<or> findAffectingJoints sc s0 x (rootOf (robotTree sc)) = []"
    using Cons.IH[OF fr1, of index1] Cons.prems(2) by (simp add: st)
  moreover have "x \<in> set (staticMeshes index)
         \<or> (x = c \<and> findAffectingJoints sc s c (rootOf (robotTree sc)) = [])"
    if "x \<in> set (staticMeshes index1)"
    using indexMesh_static_mem[of x sc rl c s index] that st by simp
  ultimately show ?case
    using findAffectingJoints_frame[OF Cons.prems(1), of sc c "rootOf (robotTree sc)"] by auto
qed

lemma buildRobotIndex_static_mem:
  assumes "x \<in> set (staticMeshes (snd (buildRobotIndex sc s)))"
  shows "findAffectingJoints sc s x (rootOf (robotTree sc)) = []"
proof -
  let ?robot = "rootOf (robotTree sc)"
  obtain s2 index2 where st: "indexLinksAndJoints s ?robot = (s2, index2)"
    by (cases "indexLinksAndJoints s ?robot")
  have fr: "writesOnly (snd ` set (nullish (robotLinks (s ?robot)) []))
     (snd ` set (nullish (robotJoints (s ?robot)) [])) {} s s2"
    using indexLinksAndJoints_writes[of s ?robot] st by simp
  have "staticMeshes index2 = []"
    using indexLinksAndJoints_empty(4)[of s ?robot] st by simp
  then show ?thesis
    using fold_indexMesh_static_mem[OF fr, of x sc _ "preorder (robotTree sc)" index2] assms
    by (simp add: buildRobotIndex_def Let_def st)
qed

lemma freezeMesh_matrixAutoUpdate:
  "matrixAutoUpdate (freezeMesh worldOf sc mesh s m)
     = (if m = mesh then False else matrixAutoUpdate (s m))"
proof -
  have "matrixAutoUpdate (fold (\<lambda>n s'. s'(n := (s' n)\<lparr>matrixWorld := worldOf n\<rparr>)) ns s1 x)
          = matrixAutoUpdate (s1 x)" for ns s1 x
    by (induction ns arbitrary: s1) simp_all
  note inner = this
  show ?thesis by (simp add: freezeMesh_def Let_def inner)
qed

lemma freezeStaticMatrices_matrixAutoUpdate:
  "matrixAutoUpdate (freezeStaticMatrices worldOf sc index s m)
     = (if m \<in> set (staticMeshes index) then False else matrixAutoUpdate (s m))"
proof -
  have "matrixAutoUpdate (fold (freezeMesh worldOf sc) ms s m)
          = (if m \<in> set ms then False else matrixAutoUpdate (s m))" for ms
    by (induction ms arbitrary: s) (simp_all add: freezeMesh_matrixAutoUpdate)
  note outer = this
  show ?thesis by (simp add: freezeStaticMatrices_def outer)
qed

text \<open>
  Claim C7. A mesh with a non-fixed joint among its ancestors below the robot is not
  in the static set of the index built from any store, so neither from the store that
  an earlier build left behind; and freezing the static matrices of that index leaves
  the mesh's \<open>matrixAutoUpdate\<close> as it was before the build.
\<close>

theorem kinematic_mesh_never_static:
  assumes "\<exists>j \<in> set (belowRobot (rootOf (robotTree sc)) (parentChain sc m)).
             isURDFJoint (s j) \<and> truthyStr (jointType (s j)) \<and> jointType (s j) \<noteq> Some ''fixed''"
    and "buildRobotIndex sc s = (s', index)"
  shows "m \<notin> set (staticMeshes index)
       \<and> matrixAutoUpdate (freezeStaticMatrices worldOf sc index s' m) = matrixAutoUpdate (s m)"
proof -
  have "findAffectingJoints sc s m (rootOf (robotTree sc)) \<noteq> []"
    using assms(1) by (simp add: findAffectingJoints_def affectingJointsWalk_nonempty_iff)
  then have notStatic: "m \<notin> set (staticMeshes index)"
    using buildRobotIndex_static_mem[of m sc s] assms(2) by auto
  have "sameOutsideUserData (s m) (s' m)"
    using writesOnly_same[OF buildRobotIndex_writes[of s sc]] assms(2) by simp
  then have "matrixAutoUpdate (s' m) = matrixAutoUpdate (s m)"
    by (rule sameOutsideUserData_fields)
  then show ?thesis
    using notStatic by (simp add: freezeStaticMatrices_matrixAutoUpdate)
qed

lemma chainStore_at:
  "chainStore 12 = URDFJoint ''j1'' ''revolute'' (AxisVector3 0 0 1) (- 1.57) 1.57"
  "chainStore 14 = URDFJoint ''j2'' ''revolute'' (AxisVector3 0 1 0) (- 1) 1"
  "chainStore 17 = Mesh 100"
  by (simp_all add: chainStore_def)

lemma URDFJoint_flag: "isURDFJoint (URDFJoint n jt ax lo hi)"
  by (simp add: URDFJoint_def Object3D_def)

lemma Mesh_matrixAutoUpdate: "matrixAutoUpdate (Mesh k)"
  by (simp add: Mesh_def Object3D_def)

lemma chainScene_chain_17: "parentChain chainScene 17 = [16, 15, 14, 13, 12, 11, 10]"
  by (simp add: parentChain_def chainScene_def)

text \<open>The mesh (17) under the two nested revolute joints is not static and is not frozen.\<close>

theorem kinematic_mesh_never_static_witness:
  "parentChain chainScene 17 = [16, 15, 14, 13, 12, 11, 10]
   \<and> isURDFJoint (chainStore 14) \<and> jointType (chainStore 14) = Some ''revolute''
   \<and> isURDFJoint (chainStore 12) \<and> jointType (chainStore 12) = Some ''revolute''
   \<and> 17 \<notin> set (staticMeshes (snd (buildRobotIndex chainScene chainStore)))
   \<and> matrixAutoUpdate (freezeStaticMatrices (\<lambda>r. identity4) chainScene
        (snd (buildRobotIndex chainScene chainStore))
        (fst (buildRobotIndex chainScene chainStore)) 17)"
proof -
  have root: "rootOf (robotTree chainScene) = 10" by (simp add: chainScene_def)
  have "14 \<in> set (belowRobot 10 (parentChain chainScene 17))"
    by (simp add: chainScene_chain_17 belowRobot_def)
  moreover have "isURDFJoint (chainStore 14) \<and> truthyStr (jointType (chainStore 14))
      \<and> jointType (chainStore 14) \<noteq> Some ''fixed''"
    by (simp add: chainStore_at URDFJoint_flag URDFJoint_fields truthyStr_def)
  ultimately have h1: "\<exists>j \<in> set (belowRobot (rootOf (robotTree chainScene)) (parentChain chainScene 17)).
             isURDFJoint (chainStore j) \<and> truthyStr (jointType (chainStore j))
             \<and> jointType (chainStore j) \<noteq> Some ''fixed''"
    unfolding root by blast
  have h2: "buildRobotIndex chainScene chainStore
              = (fst (buildRobotIndex chainScene chainStore), snd (buildRobotIndex chainScene chainStore))"
    by simp
  show ?thesis
    using kinematic_mesh_never_static[OF h1 h2, of "\<lambda>r. identity4"]
    by (simp add: chainScene_chain_17 chainStore_at URDFJoint_flag URDFJoint_fields Mesh_matrixAutoUpdate)
qed

section \<open>Buckets, owners and the two sets\<close>

lemma nearestLinkWalk_None:
  "fst (nearestLinkWalk s robot rl chain) = None \<Longrightarrow> snd (nearestLinkWalk s robot rl chain) = []"
  by (induction chain) (auto split: if_splits)

lemma nearestLinkWalk_registered:
  assumes "writesOnly L J M s s'"
    and "\<forall>c \<in> set (belowRobot robot chain).
           c \<in> L \<longrightarrow> isURDFLink (s c) \<or> (name (s c) \<noteq> [] \<and> recordHas rl (name (s c)))"
  shows "nearestLinkWalk s' robot rl chain = nearestLinkWalk s robot rl chain"
  using assms(2)
proof (induction chain)
  case Nil
  show ?case by simp
next
  case (Cons c chain)
  note f = sameOutsideUserData_fields(1,6,7)[OF writesOnly_same[OF assms(1)]]
  show ?case
  proof (cases "c = robot")
    case True
    then show ?thesis by simp
  next
    case False
    then have tl: "\<forall>c \<in> set (belowRobot robot chain).
           c \<in> L \<longrightarrow> isURDFLink (s c) \<or> (name (s c) \<noteq> [] \<and> recordHas rl (name (s c)))"
      using Cons.prems by (simp add: belowRobot_def)
    have here: "c \<in> L \<longrightarrow> isURDFLink (s c) \<or> (name (s c) \<noteq> [] \<and> recordHas rl (name (s c)))"
      using Cons.prems False by (simp add: belowRobot_def)
    have ud: "c \<notin> L \<Longrightarrow> ud_isURDFLink (userData (s' c)) = ud_isURDFLink (userData (s c))
                \<and> ud_linkName (userData (s' c)) = ud_linkName (userData (s c))"
      using assms(1) by (simp add: writesOnly_def linkEntriesKept_def)
    show ?thesis
      using False here ud Cons.IH[OF tl] by (auto simp: f)
  qed
qed

lemma explicitCollisionMarker_stable:
  assumes "writesOnly L J M s s'"
    and "isURDFCollider (s c) \<or> otype (s c) = ''URDFCollider'' \<or> ud_isURDFCollider (userData (s c))"
  shows "explicitCollisionMarker (s' c)"
proof -
  have "ud_isURDFCollider (userData (s' c)) = ud_isURDFCollider (userData (s c))"
    using assms(1) by (simp add: writesOnly_def otherEntriesKept_def)
  then show ?thesis
    using assms(2) sameOutsideUserData_fields(2,4)[OF writesOnly_same[OF assms(1)], of c]
    by (auto simp: explicitCollisionMarker_def)
qed

lemma isCollisionMeshDeep_stable:
  assumes "writesOnly L J M s s'"
    and "c \<in> set (belowRobot robot (m # parentChain sc m))"
    and "isURDFCollider (s c) \<or> otype (s c) = ''URDFCollider'' \<or> ud_isURDFCollider (userData (s c))"
  shows "isCollisionMeshDeep sc s' m robot"
  using explicitCollisionMarker_stable[OF assms(1,3)] assms(2)
  by (auto simp: isCollisionMeshDeep_def collisionFlagWalk_iff)

lemma writesOnly_UNIV: "writesOnly L J M s s' \<Longrightarrow> writesOnly UNIV UNIV UNIV s s'"
  by (simp add: writesOnly_def)

lemma fold_indexMesh_collider_value:
  assumes "writesOnly L J M s0 s"
    and "\<And>sv. writesOnly UNIV UNIV UNIV s0 sv \<Longrightarrow> isCollisionMeshDeep sc sv m (rootOf (robotTree sc)) = b"
    and "meshIsCollider (snd (fold (indexMesh sc rl) cs (s, index))) m = Some b'"
  shows "meshIsCollider index m = Some b' \<or> b' = b"
  using assms(1,3)
proof (induction cs arbitrary: s index L J M)
  case Nil
  then show ?case by simp
next
  case (Cons c cs)
  obtain s1 index1 where st: "indexMesh sc rl c (s, index) = (s1, index1)"
    by (cases "indexMesh sc rl c (s, index)")
  have fr1: "writesOnly (L \<union> {}) (J \<union> {}) (M \<union> {r. r = c \<and> indexedMesh s c}) s0 s1"
    using writesOnly_trans[OF Cons.prems(1) indexMesh_writes[of c s sc rl index]] st by simp
  have "meshIsCollider index1 m = Some b' \<or> b' = b"
    using Cons.IH[OF fr1, of index1] Cons.prems(2) by (simp add: st)
  moreover have "meshIsCollider index m = Some b' \<or> b' = b" if h: "meshIsCollider index1 m = Some b'"
  proof (cases "m = c \<and> indexedMesh s c")
    case True
    then have "meshIsCollider index1 m = Some (isCollisionMeshDeep sc s c (rootOf (robotTree sc)))"
      using indexMesh_fields(1)[OF _ refl refl refl, of s c sc rl index] st by simp
    moreover have "isCollisionMeshDeep sc s m (rootOf (robotTree sc)) = b"
      using assms(2)[OF writesOnly_UNIV[OF Cons.prems(1)]] .
    ultimately show ?thesis using h True by simp
  next
    case False
    then have "meshIsCollider index1 m = meshIsCollider index m"
      using indexMesh_collider_other[of m c sc rl s index] indexMesh_skip[of s c sc rl index] st
      by (cases "m = c") auto
    then show ?thesis using h by simp
  qed
  ultimately show ?case by blast
qed

lemma buildRobotIndex_collider_value:
  assumes "\<And>sv. writesOnly UNIV UNIV UNIV s sv \<Longrightarrow> isCollisionMeshDeep sc sv m (rootOf (robotTree sc)) = b"
    and "meshIsCollider (snd (buildRobotIndex sc s)) m = Some b'"
  shows "b' = b"
proof -
  let ?robot = "rootOf (robotTree sc)"
  obtain s2 index2 where st: "indexLinksAndJoints s ?robot = (s2, index2)"
    by (cases "indexLinksAndJoints s ?robot")
  have fr: "writesOnly (snd ` set (nullish (robotLinks (s ?robot)) []))
     (snd ` set (nullish (robotJoints (s ?robot)) [])) {} s s2"
    using indexLinksAndJoints_writes[of s ?robot] st by simp
  have "meshIsCollider index2 = Map.empty"
    using indexLinksAndJoints_empty(6)[of s ?robot] st by simp
  then show ?thesis
    using fold_indexMesh_collider_value[OF fr assms(1), of _ "preorder (robotTree sc)" index2 b'] assms(2)
    by (simp add: buildRobotIndex_def Let_def st)
qed

lemma count_list_zero_iff: "count_list xs x = 0 \<longleftrightarrow> x \<notin> set xs"
  by (induction xs) auto

lemma buildRobotIndex_joints_frame:
  "findAffectingJoints sc (fst (indexLinksAndJoints s robot)) m r = findAffectingJoints sc s m r"
  using findAffectingJoints_frame[OF indexLinksAndJoints_writes[of s robot]] by simp

subsection \<open>Parent chains in a tree of distinct nodes\<close>

lemma pathF_None_iff:
  assumes "\<And>t acc. t \<in> set ts \<Longrightarrow> (pathT acc t n = None) = (n \<notin> set (preorder t))"
  shows "(pathF acc ts n = None) = (n \<notin> set (preorderF ts))"
  using assms
proof (induction ts)
  case Nil
  show ?case by simp
next
  case (Cons t ts)
  have a: "(pathT acc t n = None) = (n \<notin> set (preorder t))"
    using Cons.prems by simp
  have b: "(pathF acc ts n = None) = (n \<notin> set (preorderF ts))"
    using Cons.IH Cons.prems by simp
  show ?case using a b by (cases "pathT acc t n") auto
qed

lemma pathT_None_iff: "(pathT acc t n = None) = (n \<notin> set (preorder t))"
proof (induction t arbitrary: acc)
  case (Node r ts)
  show ?case using pathF_None_iff[of ts n "r # acc"] Node.IH by auto
qed

lemma pathF_None_iff': "(pathF acc ts n = None) = (n \<notin> set (preorderF ts))"
  by (rule pathF_None_iff) (rule pathT_None_iff)

lemma pathF_prop:
  assumes "\<And>t acc. t \<in> set ts \<Longrightarrow> distinct (preorder t)
             \<Longrightarrow> pathProp acc (pathT acc t) (set (preorder t)) n"
    and "distinct (preorderF ts)"
  shows "pathProp acc (pathF acc ts) (set (preorderF ts)) n"
  using assms
proof (induction ts)
  case Nil
  show ?case by (simp add: pathProp_def)
next
  case (Cons t ts)
  have dt: "distinct (preorder t)" and dts: "distinct (preorderF ts)"
    and disj: "set (preorder t) \<inter> set (preorderF ts) = {}"
    using Cons.prems(2) by auto
  have pt: "pathProp acc (pathT acc t) (set (preorder t)) n"
    using Cons.prems(1)[of t acc] dt by simp
  have pts: "pathProp acc (pathF acc ts) (set (preorderF ts)) n"
    using Cons.IH Cons.prems(1) dts by simp
  show ?case
    unfolding pathProp_def
  proof (intro allI impI)
    fix p assume look: "pathF acc (t # ts) n = Some p"
    show "\<exists>q. p = q @ acc \<and> set q \<subseteq> set (preorderF (t # ts))
             \<and> (\<forall>q1 c q2. q = q1 @ c # q2 \<longrightarrow> pathF acc (t # ts) c = Some (q2 @ acc))"
    proof (cases "pathT acc t n")
      case (Some p')
      then have "p' = p" using look by simp
      then obtain q where q: "p = q @ acc" "set q \<subseteq> set (preorder t)"
        "\<forall>q1 c q2. q = q1 @ c # q2 \<longrightarrow> pathT acc t c = Some (q2 @ acc)"
        using pt Some unfolding pathProp_def by blast
      then show ?thesis by (intro exI[of _ q]) auto
    next
      case None
      then have "pathF acc ts n = Some p" using look by simp
      then obtain q where q: "p = q @ acc" "set q \<subseteq> set (preorderF ts)"
        "\<forall>q1 c q2. q = q1 @ c # q2 \<longrightarrow> pathF acc ts c = Some (q2 @ acc)"
        using pts unfolding pathProp_def by blast
      have "pathT acc t c = None" if "c \<in> set q" for c
        using that q(2) disj by (auto simp: pathT_None_iff)
      then show ?thesis using q by (intro exI[of _ q]) auto
    qed
  qed
qed

lemma pathT_prop:
  "distinct (preorder t) \<Longrightarrow> pathProp acc (pathT acc t) (set (preorder t)) n"
proof (induction t arbitrary: acc)
  case (Node r ts)
  have d: "distinct (preorderF ts)" and rn: "r \<notin> set (preorderF ts)"
    using Node.prems by auto
  have dsub: "distinct (preorder t)" if "t \<in> set ts" for t
    using that d by (induction ts) auto
  have pf: "pathProp (r # acc) (pathF (r # acc) ts) (set (preorderF ts)) n"
    by (rule pathF_prop) (use Node.IH d in auto)
  show ?case
    unfolding pathProp_def
  proof (intro allI impI)
    fix p assume look: "pathT acc (Node r ts) n = Some p"
    show "\<exists>q. p = q @ acc \<and> set q \<subseteq> set (preorder (Node r ts))
            \<and> (\<forall>q1 c q2. q = q1 @ c # q2 \<longrightarrow> pathT acc (Node r ts) c = Some (q2 @ acc))"
    proof (cases "r = n")
      case True
      then have "p = acc" using look by simp
      then show ?thesis by (intro exI[of _ "[]"]) simp
    next
      case False
      then have "pathF (r # acc) ts n = Some p" using look by simp
      then obtain q where q: "p = q @ r # acc" "set q \<subseteq> set (preorderF ts)"
        "\<forall>q1 c q2. q = q1 @ c # q2 \<longrightarrow> pathF (r # acc) ts c = Some (q2 @ r # acc)"
        using pf unfolding pathProp_def by blast
      have "pathT acc (Node r ts) c = Some (q2 @ acc)" if split: "q @ [r] = q1 @ c # q2" for q1 c q2
      proof (cases q2 rule: rev_cases)
        case Nil
        then have "c = r" using split by simp
        then show ?thesis using Nil by simp
      next
        case (snoc q2' x)
        then have "q = q1 @ c # q2'" and "x = r" using split by simp_all
        then have "pathF (r # acc) ts c = Some (q2' @ r # acc)" and "c \<in> set q"
          using q(3) by auto
        moreover have "c \<noteq> r" using \<open>c \<in> set q\<close> q(2) rn by auto
        ultimately show ?thesis using snoc \<open>x = r\<close> by simp
      qed
      then show ?thesis using q(1,2) by (intro exI[of _ "q @ [r]"]) auto
    qed
  qed
qed

lemma takeWhile_split:
  "x \<in> set (takeWhile P xs) \<Longrightarrow>
     \<exists>ys zs. xs = ys @ x # zs \<and> (\<forall>y \<in> set ys. P y) \<and> P x"
proof (induction xs)
  case Nil
  then show ?case by simp
next
  case (Cons a xs)
  show ?case
  proof (cases "x = a")
    case True
    then show ?thesis using Cons.prems by (intro exI[of _ "[]"] exI[of _ xs]) (auto split: if_splits)
  next
    case False
    then have "P a" and "x \<in> set (takeWhile P xs)"
      using Cons.prems by (auto split: if_splits)
    then obtain ys zs where "xs = ys @ x # zs" "\<forall>y \<in> set ys. P y" "P x"
      using Cons.IH by blast
    then show ?thesis using \<open>P a\<close> by (intro exI[of _ "a # ys"] exI[of _ zs]) auto
  qed
qed

lemma chain_suffix:
  assumes d: "distinct (preorder (robotTree sc))"
    and ab: "set (above sc) \<inter> set (preorder (robotTree sc)) = {}"
    and c: "c \<in> set (belowRobot robot (parentChain sc m))"
  shows "set (belowRobot robot (c # parentChain sc c)) \<subseteq> set (belowRobot robot (parentChain sc m))"
proof (cases "pathT (above sc) (robotTree sc) m")
  case None
  then show ?thesis using c by (simp add: parentChain_def belowRobot_def)
next
  case (Some p)
  then obtain q where q: "p = q @ above sc" "set q \<subseteq> set (preorder (robotTree sc))"
    and sp: "\<And>q1 c q2. q = q1 @ c # q2
               \<Longrightarrow> pathT (above sc) (robotTree sc) c = Some (q2 @ above sc)"
    using pathT_prop[OF d, of "above sc" m] unfolding pathProp_def by blast
  have chain: "parentChain sc m = q @ above sc"
    using Some q(1) by (simp add: parentChain_def)
  let ?P = "\<lambda>x. x \<noteq> robot"
  obtain ys zs where split: "q @ above sc = ys @ c # zs" and ys: "\<forall>y \<in> set ys. ?P y" and pc: "?P c"
    using takeWhile_split[of c ?P "q @ above sc"] c by (auto simp: belowRobot_def chain)
  have whole: "belowRobot robot (parentChain sc m) = ys @ c # takeWhile ?P zs"
    using ys pc by (simp add: belowRobot_def chain split takeWhile_append)
  from split consider
      (inq) us where "q = ys @ c # us" "zs = us @ above sc"
    | (inabove) "c \<in> set (above sc)"
    by (auto simp: append_eq_append_conv2 Cons_eq_append_conv append_eq_Cons_conv)
  then show ?thesis
  proof cases
    case inq
    have "parentChain sc c = zs"
      using sp[OF inq(1)] inq(2) by (simp add: parentChain_def)
    then show ?thesis using pc by (auto simp: belowRobot_def whole[unfolded belowRobot_def])
  next
    case inabove
    then have "c \<notin> set (preorder (robotTree sc))" using ab by auto
    then have "pathT (above sc) (robotTree sc) c = None"
      by (simp add: pathT_None_iff)
    then have "parentChain sc c = []"
      by (simp add: parentChain_def)
    then show ?thesis using pc by (simp add: belowRobot_def whole[unfolded belowRobot_def])
  qed
qed

lemma isCollisionMeshDeep_iff:
  "isCollisionMeshDeep sc s m robot
     \<longleftrightarrow> (\<exists>c \<in> set (belowRobot robot (m # parentChain sc m)).
            explicitCollisionMarker (s c) \<or> COLLISION_PATH_REGEX (name (s c)))"
  by (auto simp: isCollisionMeshDeep_def Let_def collisionFlagWalk_iff collisionNameWalk_iff)

lemma cone_subset:
  assumes d: "distinct (preorder (robotTree sc) @ above sc)"
    and c: "c \<in> set (belowRobot robot (m # parentChain sc m))"
  shows "set (belowRobot robot (c # parentChain sc c))
           \<subseteq> set (belowRobot robot (m # parentChain sc m))"
proof (cases "c \<in> set (belowRobot robot (parentChain sc m))")
  case True
  have "set (belowRobot robot (c # parentChain sc c)) \<subseteq> set (belowRobot robot (parentChain sc m))"
    by (rule chain_suffix[OF _ _ True]) (use d in auto)
  moreover have "set (belowRobot robot (parentChain sc m))
                   \<subseteq> set (belowRobot robot (m # parentChain sc m))"
    using c by (auto simp: belowRobot_def split: if_splits)
  ultimately show ?thesis by blast
next
  case False
  then have "c = m" using c by (auto simp: belowRobot_def split: if_splits)
  then show ?thesis by simp
qed

lemma classifiedSoFar_same:
  assumes d: "distinct (preorder (robotTree sc) @ above sc)"
    and r: "classifiedSoFar sc s0 sv"
  shows "isCollisionMeshDeep sc sv m (rootOf (robotTree sc))
           = isCollisionMeshDeep sc s0 m (rootOf (robotTree sc))"
proof -
  let ?robot = "rootOf (robotTree sc)"
  let ?C = "\<lambda>x. set (belowRobot ?robot (x # parentChain sc x))"
  have fr: "writesOnly {} {} UNIV s0 sv" using r by (simp add: classifiedSoFar_def)
  have nm: "name (sv c) = name (s0 c)" and ty: "otype (sv c) = otype (s0 c)"
    and fl: "isURDFCollider (sv c) = isURDFCollider (s0 c)" for c
    using sameOutsideUserData_fields(1,2,4)[OF writesOnly_same[OF fr], of c] by simp_all
  have uc: "ud_isURDFCollider (userData (sv c)) = ud_isURDFCollider (userData (s0 c))" for c
    using fr by (simp add: writesOnly_def otherEntriesKept_def)
  have cm: "ud_isCollisionMesh (userData (sv c)) = ud_isCollisionMesh (userData (s0 c))
            \<or> ud_isCollisionMesh (userData (sv c)) = Some (isCollisionMeshDeep sc s0 c ?robot)" for c
    using r by (simp add: classifiedSoFar_def)
  have up: "isCollisionMeshDeep sc s0 c ?robot \<Longrightarrow> isCollisionMeshDeep sc s0 m ?robot"
    if "c \<in> ?C m" for c
    using cone_subset[OF d that] unfolding isCollisionMeshDeep_iff by blast
  have own: "isCollisionMeshDeep sc s0 c ?robot"
    if "c \<in> ?C m" and "ud_isCollisionMesh (userData (s0 c)) = Some True" for c
  proof -
    have "c \<noteq> ?robot" using that(1) by (auto simp: belowRobot_def dest: set_takeWhileD split: if_splits)
    then have "c \<in> ?C c" by (simp add: belowRobot_def)
    then show ?thesis
      unfolding isCollisionMeshDeep_iff using that(2) by (auto simp: explicitCollisionMarker_def)
  qed
  show ?thesis
  proof
    assume "isCollisionMeshDeep sc sv m ?robot"
    then obtain c where c: "c \<in> ?C m"
      and mk: "explicitCollisionMarker (sv c) \<or> COLLISION_PATH_REGEX (name (sv c))"
      unfolding isCollisionMeshDeep_iff by blast
    show "isCollisionMeshDeep sc s0 m ?robot"
    proof (cases "ud_isCollisionMesh (userData (sv c)) = Some True
                  \<and> ud_isCollisionMesh (userData (s0 c)) \<noteq> Some True")
      case True
      then have "isCollisionMeshDeep sc s0 c ?robot" using cm[of c] by auto
      then show ?thesis by (rule up[OF c])
    next
      case False
      then have "explicitCollisionMarker (s0 c) \<or> COLLISION_PATH_REGEX (name (s0 c))"
        using mk by (auto simp: explicitCollisionMarker_def nm ty fl uc)
      then show ?thesis unfolding isCollisionMeshDeep_iff using c by blast
    qed
  next
    assume "isCollisionMeshDeep sc s0 m ?robot"
    then obtain c where c: "c \<in> ?C m"
      and mk: "explicitCollisionMarker (s0 c) \<or> COLLISION_PATH_REGEX (name (s0 c))"
      unfolding isCollisionMeshDeep_iff by blast
    have "explicitCollisionMarker (sv c) \<or> COLLISION_PATH_REGEX (name (sv c))"
    proof (cases "ud_isCollisionMesh (userData (s0 c)) = Some True")
      case True
      have "isCollisionMeshDeep sc s0 c ?robot" by (rule own[OF c True])
      then have "ud_isCollisionMesh (userData (sv c)) = Some True"
        using cm[of c] True by auto
      then show ?thesis by (simp add: explicitCollisionMarker_def)
    next
      case False
      then show ?thesis using mk by (auto simp: explicitCollisionMarker_def nm ty fl uc)
    qed
    then show "isCollisionMeshDeep sc sv m ?robot"
      unfolding isCollisionMeshDeep_iff using c by blast
  qed
qed

lemma classifiedSoFar_refl: "classifiedSoFar sc s s"
  by (simp add: classifiedSoFar_def writesOnly_refl)

lemma indexMesh_classifiedSoFar:
  assumes d: "distinct (preorder (robotTree sc) @ above sc)"
    and r: "classifiedSoFar sc s0 sv"
  shows "classifiedSoFar sc s0 (fst (indexMesh sc rl c (sv, index)))"
proof -
  have fr: "writesOnly {} {} UNIV s0 sv" using r by (simp add: classifiedSoFar_def)
  have "writesOnly {} {} UNIV sv (fst (indexMesh sc rl c (sv, index)))"
    using indexMesh_writes[of c sv sc rl index] by (rule writesOnly_mono) auto
  from writesOnly_trans[OF fr this]
  have fr': "writesOnly {} {} UNIV s0 (fst (indexMesh sc rl c (sv, index)))" by simp
  have cm: "ud_isCollisionMesh (userData (fst (indexMesh sc rl c (sv, index)) x))
              = ud_isCollisionMesh (userData (s0 x))
            \<or> ud_isCollisionMesh (userData (fst (indexMesh sc rl c (sv, index)) x))
              = Some (isCollisionMeshDeep sc s0 x (rootOf (robotTree sc)))" for x
  proof (cases "indexedMesh sv c \<and> x = c")
    case True
    then have "ud_isCollisionMesh (userData (fst (indexMesh sc rl c (sv, index)) x))
                 = Some (isCollisionMeshDeep sc sv c (rootOf (robotTree sc)))"
      by (simp add: indexMesh_store updUserData_apply)
    then show ?thesis using classifiedSoFar_same[OF d r, of c] True by simp
  next
    case False
    then have "ud_isCollisionMesh (userData (fst (indexMesh sc rl c (sv, index)) x))
                 = ud_isCollisionMesh (userData (sv x))"
      by (auto simp: indexMesh_store updUserData_apply)
    then show ?thesis using r by (simp add: classifiedSoFar_def)
  qed
  show ?thesis
    unfolding classifiedSoFar_def using fr' cm by blast
qed

lemma fold_indexMesh_classification:
  assumes d: "distinct (preorder (robotTree sc) @ above sc)"
    and "classifiedSoFar sc s0 sv"
    and "meshIsCollider (snd (fold (indexMesh sc rl) cs (sv, index))) m = Some b"
  shows "meshIsCollider index m = Some b \<or> b = isCollisionMeshDeep sc s0 m (rootOf (robotTree sc))"
  using assms(2,3)
proof (induction cs arbitrary: sv index)
  case Nil
  then show ?case by simp
next
  case (Cons c cs)
  obtain s1 index1 where st: "indexMesh sc rl c (sv, index) = (s1, index1)"
    by (cases "indexMesh sc rl c (sv, index)")
  have r1: "classifiedSoFar sc s0 s1"
    using indexMesh_classifiedSoFar[OF d Cons.prems(1), of rl c index] st by simp
  have "meshIsCollider index1 m = Some b \<or> b = isCollisionMeshDeep sc s0 m (rootOf (robotTree sc))"
    using Cons.IH[OF r1, of index1] Cons.prems(2) by (simp add: st)
  moreover have "meshIsCollider index m = Some b
                   \<or> b = isCollisionMeshDeep sc s0 m (rootOf (robotTree sc))"
    if h: "meshIsCollider index1 m = Some b"
  proof (cases "m = c \<and> indexedMesh sv c")
    case True
    then have "meshIsCollider index1 m = Some (isCollisionMeshDeep sc sv c (rootOf (robotTree sc)))"
      using indexMesh_fields(1)[OF _ refl refl refl, of sv c sc rl index] st by simp
    then show ?thesis
      using h True classifiedSoFar_same[OF d Cons.prems(1), of c] by simp
  next
    case False
    then have "meshIsCollider index1 m = meshIsCollider index m"
      using indexMesh_collider_other[of m c sc rl sv index] indexMesh_skip[of sv c sc rl index] st
      by (cases "m = c") auto
    then show ?thesis using h by simp
  qed
  ultimately show ?case by blast
qed

lemma isCollisionMeshDeep_frame:
  assumes "writesOnly L J {} s s'"
  shows "isCollisionMeshDeep sc s' m robot = isCollisionMeshDeep sc s m robot"
proof -
  have "explicitCollisionMarker (s' c) = explicitCollisionMarker (s c)" for c
    using assms sameOutsideUserData_fields(2,4)[OF writesOnly_same[OF assms], of c]
    by (simp add: explicitCollisionMarker_def writesOnly_def otherEntriesKept_def meshEntriesKept_def)
  moreover have "name (s' c) = name (s c)" for c
    using sameOutsideUserData_fields(1)[OF writesOnly_same[OF assms]] .
  ultimately show ?thesis by (simp add: isCollisionMeshDeep_iff)
qed

lemma buildRobotIndex_classification:
  assumes "distinct (preorder (robotTree sc) @ above sc)"
    and "m \<in> set (preorder (robotTree sc))" and "indexedMesh s m"
  shows "meshIsCollider (snd (buildRobotIndex sc s)) m
           = Some (isCollisionMeshDeep sc s m (rootOf (robotTree sc)))"
proof -
  let ?robot = "rootOf (robotTree sc)"
  obtain s2 index2 where st: "indexLinksAndJoints s ?robot = (s2, index2)"
    by (cases "indexLinksAndJoints s ?robot")
  have fr: "writesOnly (snd ` set (nullish (robotLinks (s ?robot)) []))
     (snd ` set (nullish (robotJoints (s ?robot)) [])) {} s s2"
    using indexLinksAndJoints_writes[of s ?robot] st by simp
  have empty: "meshIsCollider index2 = Map.empty"
    using indexLinksAndJoints_empty(6)[of s ?robot] st by simp
  have "meshIsCollider (snd (buildRobotIndex sc s)) m \<noteq> None"
    using buildRobotIndex_collider_dom[of sc s m] assms(2,3) by simp
  then obtain b where b: "meshIsCollider (snd (buildRobotIndex sc s)) m = Some b" by blast
  then have "meshIsCollider (snd (fold (indexMesh sc (nullish (robotLinks (s ?robot)) []))
               (preorder (robotTree sc)) (s2, index2))) m = Some b"
    by (simp add: buildRobotIndex_def Let_def st)
  from fold_indexMesh_classification[OF assms(1) classifiedSoFar_refl this]
  have "b = isCollisionMeshDeep sc s2 m ?robot" by (simp add: empty)
  then show ?thesis
    using b isCollisionMeshDeep_frame[OF fr, of sc m ?robot] by simp
qed

subsection \<open>The partition of the meshes\<close>

text \<open>
  Claim C1, as the code has it. Take a scene in which every object occurs once, and a
  mesh that is reachable from the root of the robot, is no gizmo, and so is indexed.
  The index flags it as a collider exactly when the classifier says so on the tree as
  it is before the build. Its owner is the link name that the owner walk finds once
  the links and joints are registered. If that name is not empty, the mesh occurs
  exactly once in one bucket of that link (the collision bucket when it is a collider,
  the visual bucket otherwise) and in no other bucket of any link; if it is empty, the
  mesh is in no bucket. The mesh is in the kinematic set exactly when it has a non-fixed
  joint ancestor below the robot, and in the static set exactly when it has none and
  is no collider: never in both, and a collision mesh without such an ancestor is in
  neither.
\<close>

theorem mesh_buckets_and_sets:
  assumes "distinct (preorder (robotTree sc) @ above sc)"
    and "m \<in> set (preorder (robotTree sc))"
    and "indexedMesh s m"
    and "robot = rootOf (robotTree sc)"
    and "owner = snd (findNearestLink sc (fst (indexLinksAndJoints s robot)) m robot
                        (nullish (robotLinks (s robot)) []))"
    and "col = isCollisionMeshDeep sc s m robot"
    and "buildRobotIndex sc s = (s', index)"
  shows "meshIsCollider index m = Some col
       \<and> (\<forall>L. count_list (getLinkMeshes index L Visual) m
                = (if \<not> col \<and> owner = L \<and> L \<noteq> [] then 1 else 0))
       \<and> (\<forall>L. count_list (getLinkMeshes index L Collision) m
                = (if col \<and> owner = L \<and> L \<noteq> [] then 1 else 0))
       \<and> (m \<in> set (kinematicMeshes index) \<longleftrightarrow> findAffectingJoints sc s m robot \<noteq> [])
       \<and> (m \<in> set (staticMeshes index) \<longleftrightarrow> findAffectingJoints sc s m robot = [] \<and> \<not> col)"
proof -
  have idx: "index = snd (buildRobotIndex sc s)" using assms(7) by simp
  have col: "meshIsCollider index m = Some col"
    using buildRobotIndex_classification[OF assms(1,2,3)] idx assms(4,6) by simp
  have d: "distinct (preorder (robotTree sc))" using assms(1) by simp
  have cons: "indexConsistentAt sc (fst (indexLinksAndJoints s robot))
           (nullish (robotLinks (s robot)) []) index m"
    using buildRobotIndex_consistent[OF d, of s m] idx assms(4) by simp
  show ?thesis
    using cons col unfolding indexConsistentAt_def Let_def
    by (auto simp: assms(4,5) buildRobotIndex_joints_frame)
qed

text \<open>
  Claim C9, as the code has it. Take a scene in which every object occurs once, and an
  indexed mesh whose owner walk, once the links and joints are registered, reaches the
  robot without finding a link. The built index (the builder is a total function: it
  returns for every input) has the mesh in no visual and in no collision bucket of any
  link and gives it no owner, and it records the collider flag that the classifier
  gives the mesh. The mesh is in the kinematic set exactly when it has a non-fixed
  joint ancestor, and in the static set exactly when it has none and is no collider; a
  collision mesh without such an ancestor is in neither set.
\<close>

theorem ownerless_mesh_excluded:
  assumes "distinct (preorder (robotTree sc) @ above sc)"
    and "m \<in> set (preorder (robotTree sc))"
    and "indexedMesh s m"
    and "robot = rootOf (robotTree sc)"
    and "fst (findNearestLink sc (fst (indexLinksAndJoints s robot)) m robot
               (nullish (robotLinks (s robot)) [])) = None"
    and "col = isCollisionMeshDeep sc s m robot"
    and "buildRobotIndex sc s = (s', index)"
  shows "(\<forall>L. m \<notin> set (getLinkMeshes index L Visual) \<and> m \<notin> set (getLinkMeshes index L Collision))
       \<and> meshToLink index m = None
       \<and> meshIsCollider index m = Some col
       \<and> (m \<in> set (kinematicMeshes index) \<longleftrightarrow> findAffectingJoints sc s m robot \<noteq> [])
       \<and> (m \<in> set (staticMeshes index) \<longleftrightarrow> findAffectingJoints sc s m robot = [] \<and> \<not> col)"
proof -
  have idx: "index = snd (buildRobotIndex sc s)" using assms(7) by simp
  have col: "meshIsCollider index m = Some col"
    using buildRobotIndex_classification[OF assms(1,2,3)] idx assms(4,6) by simp
  have d: "distinct (preorder (robotTree sc))" using assms(1) by simp
  have owner: "snd (findNearestLink sc (fst (indexLinksAndJoints s robot)) m robot
               (nullish (robotLinks (s robot)) [])) = []"
    using assms(5) by (simp add: findNearestLink_def nearestLinkWalk_None)
  have cons: "indexConsistentAt sc (fst (indexLinksAndJoints s robot))
           (nullish (robotLinks (s robot)) []) index m"
    using buildRobotIndex_consistent[OF d, of s m] idx assms(4) by simp
  have buckets: "count_list (getLinkMeshes index L Visual) m = 0
               \<and> count_list (getLinkMeshes index L Collision) m = 0" for L
    using cons owner unfolding indexConsistentAt_def Let_def assms(4)[symmetric] by auto
  have rest: "meshToLink index m = None
       \<and> (m \<in> set (kinematicMeshes index) \<longleftrightarrow> findAffectingJoints sc s m robot \<noteq> [])
       \<and> (m \<in> set (staticMeshes index) \<longleftrightarrow> findAffectingJoints sc s m robot = [] \<and> \<not> col)"
    using cons owner col unfolding indexConsistentAt_def Let_def assms(4)[symmetric]
    by (auto simp: buildRobotIndex_joints_frame)
  show ?thesis
    using buckets rest col by (simp add: count_list_zero_iff)
qed

lemmas example_objects = URDFLink_def URDFJoint_def Mesh_def URDFCollider_def URDFVisual_def
  Object3D_def emptyUserData_def

lemma staticScene_shape:
  "rootOf (robotTree staticScene) = 10"
  "preorder (robotTree staticScene) = [10, 11, 12, 13, 14, 15, 16]"
  "parentChain staticScene 13 = [12, 11, 10]"
  "parentChain staticScene 15 = [14, 10]"
  "parentChain staticScene 16 = [10]"
  by (simp_all add: staticScene_def parentChain_def)

lemma staticStore_at:
  "staticStore 10 = (URDFLink ''robot'')\<lparr>robotLinks := Some [(''base'', 11)], robotJoints := Some []\<rparr>"
  "staticStore 11 = (URDFLink ''base'')\<lparr>inertial := Some (InertialRaw (Some 2) None None)\<rparr>"
  "staticStore 12 = URDFCollider"
  "staticStore 13 = Mesh 100"
  "staticStore 14 = URDFCollider"
  "staticStore 15 = Mesh 101"
  "staticStore 16 = Mesh 102"
  by (simp_all add: staticStore_def)

lemma staticStore_links:
  "nullish (robotLinks (staticStore 10)) [] = [(''base'', 11)]"
  "nullish (robotJoints (staticStore 10)) [] = []"
  by (simp_all add: staticStore_at nullish_def URDFLink_def)

lemma staticStore_indexed:
  "indexedMesh staticStore 13" "indexedMesh staticStore 15" "indexedMesh staticStore 16"
  by (simp_all add: indexedMesh_def staticStore_at example_objects)

lemma staticStore_no_joints:
  "findAffectingJoints staticScene staticStore 13 10 = []"
  "findAffectingJoints staticScene staticStore 15 10 = []"
  "findAffectingJoints staticScene staticStore 16 10 = []"
  by (simp_all add: findAffectingJoints_def staticScene_shape staticStore_at example_objects)

lemma staticStore_collider:
  assumes "writesOnly UNIV UNIV UNIV staticStore sv"
  shows "isCollisionMeshDeep staticScene sv 13 10" and "isCollisionMeshDeep staticScene sv 15 10"
proof -
  have "12 \<in> set (belowRobot 10 (13 # parentChain staticScene 13))"
    by (simp add: belowRobot_def staticScene_shape)
  moreover have "isURDFCollider (staticStore 12)"
    by (simp add: staticStore_at example_objects)
  ultimately show "isCollisionMeshDeep staticScene sv 13 10"
    using isCollisionMeshDeep_stable[OF assms, of 12 10 13 staticScene] by simp
  have "14 \<in> set (belowRobot 10 (15 # parentChain staticScene 15))"
    by (simp add: belowRobot_def staticScene_shape)
  moreover have "isURDFCollider (staticStore 14)"
    by (simp add: staticStore_at example_objects)
  ultimately show "isCollisionMeshDeep staticScene sv 15 10"
    using isCollisionMeshDeep_stable[OF assms, of 14 10 15 staticScene] by simp
qed

lemma staticScene_build_collider:
  "meshIsCollider (snd (buildRobotIndex staticScene staticStore)) 13 = Some True"
  "meshIsCollider (snd (buildRobotIndex staticScene staticStore)) 15 = Some True"
proof -
  have "meshIsCollider (snd (buildRobotIndex staticScene staticStore)) 13 \<noteq> None"
    using buildRobotIndex_collider_dom[of staticScene staticStore 13]
    by (simp add: staticScene_shape staticStore_indexed)
  then obtain b where b: "meshIsCollider (snd (buildRobotIndex staticScene staticStore)) 13 = Some b"
    by blast
  have "b = True"
    using buildRobotIndex_collider_value[of staticStore staticScene 13 True b] b staticStore_collider(1)
    by (simp add: staticScene_shape)
  with b show "meshIsCollider (snd (buildRobotIndex staticScene staticStore)) 13 = Some True" by simp
  have "meshIsCollider (snd (buildRobotIndex staticScene staticStore)) 15 \<noteq> None"
    using buildRobotIndex_collider_dom[of staticScene staticStore 15]
    by (simp add: staticScene_shape staticStore_indexed)
  then obtain c where c: "meshIsCollider (snd (buildRobotIndex staticScene staticStore)) 15 = Some c"
    by blast
  have "c = True"
    using buildRobotIndex_collider_value[of staticStore staticScene 15 True c] c staticStore_collider(2)
    by (simp add: staticScene_shape)
  with c show "meshIsCollider (snd (buildRobotIndex staticScene staticStore)) 15 = Some True" by simp
qed

lemma staticScene_consistent:
  "indexConsistentAt staticScene (fst (indexLinksAndJoints staticStore 10)) [(''base'', 11)]
     (snd (buildRobotIndex staticScene staticStore)) m"
  using buildRobotIndex_consistent[of staticScene staticStore m]
  by (simp add: staticScene_shape staticStore_links)

text \<open>
  Claim C1 as stated fails: the mesh (13) in the collider group of the link \<open>base\<close> is
  reachable from the root and is no gizmo, and the built index has it neither in the
  kinematic set nor in the static set, since the static set takes visual meshes only.
\<close>

theorem static_collision_mesh_in_neither_set:
  "13 \<in> set (preorder (robotTree staticScene)) \<and> indexedMesh staticStore 13
   \<and> 13 \<notin> set (kinematicMeshes (snd (buildRobotIndex staticScene staticStore)))
   \<and> 13 \<notin> set (staticMeshes (snd (buildRobotIndex staticScene staticStore)))"
  using staticScene_consistent[of 13]
  unfolding indexConsistentAt_def Let_def
  by (simp add: staticScene_shape staticStore_indexed staticScene_build_collider
        buildRobotIndex_joints_frame staticStore_no_joints)

lemma staticScene_owner_15:
  "findNearestLink staticScene (fst (indexLinksAndJoints staticStore 10)) 15 10 [(''base'', 11)]
     = (None, [])"
proof -
  have fr: "writesOnly {11} {} {} staticStore (fst (indexLinksAndJoints staticStore 10))"
    using indexLinksAndJoints_writes[of staticStore 10] by (simp add: staticStore_links)
  have "nearestLinkWalk (fst (indexLinksAndJoints staticStore 10)) 10 [(''base'', 11)] [14, 10]
          = nearestLinkWalk staticStore 10 [(''base'', 11)] [14, 10]"
    by (rule nearestLinkWalk_registered[OF fr]) (simp add: belowRobot_def)
  then show ?thesis
    by (simp add: findNearestLink_def staticScene_shape staticStore_at example_objects)
qed

text \<open>
  Claim C9 as stated fails in one part: the mesh (15) in a collider group outside
  every link has no owner and is recorded as a collider, and the built index has it
  neither in the kinematic set nor in the static set.
\<close>

theorem ownerless_collision_mesh_in_neither_set:
  "fst (findNearestLink staticScene (fst (indexLinksAndJoints staticStore 10)) 15 10
          [(''base'', 11)]) = None
   \<and> indexedMesh staticStore 15
   \<and> meshIsCollider (snd (buildRobotIndex staticScene staticStore)) 15 = Some True
   \<and> 15 \<notin> set (kinematicMeshes (snd (buildRobotIndex staticScene staticStore)))
   \<and> 15 \<notin> set (staticMeshes (snd (buildRobotIndex staticScene staticStore)))"
  using staticScene_consistent[of 15]
  unfolding indexConsistentAt_def Let_def
  by (simp add: staticScene_shape staticStore_indexed staticScene_build_collider
        buildRobotIndex_joints_frame staticStore_no_joints staticScene_owner_15)

text \<open>
  The visual mesh (16) directly under the robot has no owner: it is in no bucket of the
  link \<open>base\<close>, it has no entry in the owner map, it is recorded as no collider, and
  it is in the static set and not in the kinematic set.
\<close>

theorem ownerless_mesh_excluded_witness:
  "parentChain staticScene 16 = [10] \<and> indexedMesh staticStore 16
   \<and> 16 \<notin> set (getLinkMeshes (snd (buildRobotIndex staticScene staticStore)) ''base'' Visual)
   \<and> 16 \<notin> set (getLinkMeshes (snd (buildRobotIndex staticScene staticStore)) ''base'' Collision)
   \<and> meshToLink (snd (buildRobotIndex staticScene staticStore)) 16 = None
   \<and> meshIsCollider (snd (buildRobotIndex staticScene staticStore)) 16 = Some False
   \<and> 16 \<notin> set (kinematicMeshes (snd (buildRobotIndex staticScene staticStore)))
   \<and> 16 \<in> set (staticMeshes (snd (buildRobotIndex staticScene staticStore)))"
proof -
  have h1: "distinct (preorder (robotTree staticScene) @ above staticScene)"
    by (simp add: staticScene_shape staticScene_def)
  have h2: "16 \<in> set (preorder (robotTree staticScene))" by (simp add: staticScene_shape)
  have h4: "10 = rootOf (robotTree staticScene)" by (simp add: staticScene_shape)
  have h5: "fst (findNearestLink staticScene (fst (indexLinksAndJoints staticStore 10)) 16 10
               (nullish (robotLinks (staticStore 10)) [])) = None"
    by (simp add: findNearestLink_def staticScene_shape)
  have h6: "False = isCollisionMeshDeep staticScene staticStore 16 10"
    by (simp add: isCollisionMeshDeep_iff belowRobot_def staticScene_shape staticStore_at
          example_no_marker example_names regex_empty)
  have h7: "buildRobotIndex staticScene staticStore
              = (fst (buildRobotIndex staticScene staticStore), snd (buildRobotIndex staticScene staticStore))"
    by simp
  show ?thesis
    using ownerless_mesh_excluded[OF h1 h2 staticStore_indexed(3) h4 h5 h6 h7]
    by (auto simp: staticScene_shape staticStore_indexed staticStore_no_joints)
qed

lemma chainScene_shape:
  "rootOf (robotTree chainScene) = 10"
  "preorder (robotTree chainScene) = [10, 11, 18, 12, 13, 14, 15, 16, 17]"
  by (simp_all add: chainScene_def)

lemma chainStore_nodes:
  "chainStore 10 = (URDFLink ''robot'')\<lparr>robotLinks := Some [(''base'', 11), (''l1'', 13), (''l2'', 15)],
                                robotJoints := Some [(''j1'', 12), (''j2'', 14)]\<rparr>"
  "chainStore 11 = URDFLink ''base''"
  "chainStore 13 = URDFLink ''l1''"
  "chainStore 15 = URDFLink ''l2''"
  "chainStore 16 = URDFVisual"
  by (simp_all add: chainStore_def)

lemma chainStore_links:
  "nullish (robotLinks (chainStore 10)) [] = [(''base'', 11), (''l1'', 13), (''l2'', 15)]"
  "nullish (robotJoints (chainStore 10)) [] = [(''j1'', 12), (''j2'', 14)]"
  by (simp_all add: chainStore_nodes nullish_def URDFLink_def)

lemma chainScene_owner_17:
  "findNearestLink chainScene (fst (indexLinksAndJoints chainStore 10)) 17 10
     [(''base'', 11), (''l1'', 13), (''l2'', 15)] = (Some 15, ''l2'')"
proof -
  have fr: "writesOnly {11, 13, 15} {12, 14} {} chainStore (fst (indexLinksAndJoints chainStore 10))"
    using indexLinksAndJoints_writes[of chainStore 10] by (simp add: chainStore_links)
  have "nearestLinkWalk (fst (indexLinksAndJoints chainStore 10)) 10
          [(''base'', 11), (''l1'', 13), (''l2'', 15)] [16, 15, 14, 13, 12, 11, 10]
        = nearestLinkWalk chainStore 10 [(''base'', 11), (''l1'', 13), (''l2'', 15)]
            [16, 15, 14, 13, 12, 11, 10]"
    by (rule nearestLinkWalk_registered[OF fr])
       (simp add: belowRobot_def chainStore_nodes URDFLink_def)
  then show ?thesis
    by (simp add: findNearestLink_def chainScene_chain_17 chainStore_nodes example_objects strOr_def)
qed

lemma chainStore_joints_17: "findAffectingJoints chainScene chainStore 17 10 = [14, 12]"
  by (simp add: findAffectingJoints_def chainScene_chain_17 chainStore_nodes chainStore_at
        example_objects truthyStr_def)

lemma chainStore_visual_17: "\<not> isCollisionMeshDeep chainScene chainStore 17 10"
proof -
  have names: "\<not> COLLISION_PATH_REGEX ''l2''" "\<not> COLLISION_PATH_REGEX ''j2''"
    "\<not> COLLISION_PATH_REGEX ''l1''" "\<not> COLLISION_PATH_REGEX ''j1''"
    "\<not> COLLISION_PATH_REGEX ''base''"
    by (simp_all add: regex_eval)
  have joint: "\<not> explicitCollisionMarker (URDFJoint n jt ax lo hi)" for n jt ax lo hi
    by (simp add: explicitCollisionMarker_def URDFJoint_def Object3D_def emptyUserData_def)
  show ?thesis
    by (simp add: isCollisionMeshDeep_iff belowRobot_def chainScene_chain_17 chainStore_at
          chainStore_nodes example_no_marker example_names regex_empty names joint
          URDFJoint_fields)
qed

text \<open>
  The mesh (17) of the link \<open>l2\<close>, under both revolute joints: it occurs once in the
  visual bucket of \<open>l2\<close>, not in its collision bucket and not in the buckets of
  \<open>base\<close>; it is in the kinematic set and not in the static set.
\<close>

theorem mesh_buckets_and_sets_witness:
  "indexedMesh chainStore 17
   \<and> count_list (getLinkMeshes (snd (buildRobotIndex chainScene chainStore)) ''l2'' Visual) 17 = 1
   \<and> count_list (getLinkMeshes (snd (buildRobotIndex chainScene chainStore)) ''l2'' Collision) 17 = 0
   \<and> count_list (getLinkMeshes (snd (buildRobotIndex chainScene chainStore)) ''base'' Visual) 17 = 0
   \<and> count_list (getLinkMeshes (snd (buildRobotIndex chainScene chainStore)) ''base'' Collision) 17 = 0
   \<and> 17 \<in> set (kinematicMeshes (snd (buildRobotIndex chainScene chainStore)))
   \<and> 17 \<notin> set (staticMeshes (snd (buildRobotIndex chainScene chainStore)))"
proof -
  have h1: "distinct (preorder (robotTree chainScene) @ above chainScene)"
    by (simp add: chainScene_shape chainScene_def)
  have h2: "17 \<in> set (preorder (robotTree chainScene))" by (simp add: chainScene_shape)
  have h3: "indexedMesh chainStore 17"
    by (simp add: indexedMesh_def chainStore_at example_objects)
  have h4: "10 = rootOf (robotTree chainScene)" by (simp add: chainScene_shape)
  have h5: "''l2'' = snd (findNearestLink chainScene (fst (indexLinksAndJoints chainStore 10)) 17 10
                        (nullish (robotLinks (chainStore 10)) []))"
    by (simp add: chainStore_links chainScene_owner_17)
  have h6: "False = isCollisionMeshDeep chainScene chainStore 17 10"
    using chainStore_visual_17 by simp
  have h7: "buildRobotIndex chainScene chainStore
              = (fst (buildRobotIndex chainScene chainStore), snd (buildRobotIndex chainScene chainStore))"
    by simp
  note t = mesh_buckets_and_sets[OF h1 h2 h3 h4 h5 h6 h7]
  have v: "count_list (getLinkMeshes (snd (buildRobotIndex chainScene chainStore)) L Visual) 17
          = (if ''l2'' = L \<and> L \<noteq> [] then 1 else 0)"
    and c: "count_list (getLinkMeshes (snd (buildRobotIndex chainScene chainStore)) L Collision) 17 = 0"
    for L
    using t by simp_all
  have k: "17 \<in> set (kinematicMeshes (snd (buildRobotIndex chainScene chainStore)))"
    and st: "17 \<notin> set (staticMeshes (snd (buildRobotIndex chainScene chainStore)))"
    using t by (simp_all add: chainStore_joints_17)
  show ?thesis
    using h3 v[of "''l2''"] v[of "''base''"] c[of "''l2''"] c[of "''base''"] k st by simp
qed

section \<open>The recorded joint axis\<close>

lemma extractJointData_frame:
  "sameOutsideUserData a b \<Longrightarrow> extractJointData b = extractJointData a"
  by (simp add: extractJointData_def sameOutsideUserData_fields)

lemma indexJoint_jointData:
  "jointData (snd (indexJoint (n, j) (s, index))) = (jointData index)(n \<mapsto> extractJointData (s j))"
  by (simp add: indexJoint_def Let_def)

lemma fold_indexJoint_jointData:
  assumes "writesOnly L J M s0 s"
  shows "jointData (snd (fold indexJoint rj (s, index))) n
         = (case map_of (rev rj) n of
              Some j \<Rightarrow> Some (extractJointData (s0 j))
            | None \<Rightarrow> jointData index n)"
  using assms
proof (induction rj arbitrary: s index L J M)
  case Nil
  show ?case by simp
next
  case (Cons e rj)
  obtain n' j' where e: "e = (n', j')" by (cases e)
  obtain s1 index1 where st: "indexJoint (n', j') (s, index) = (s1, index1)"
    by (cases "indexJoint (n', j') (s, index)")
  have fr1: "writesOnly (L \<union> {}) (J \<union> {j'}) (M \<union> {}) s0 s1"
    using writesOnly_trans[OF Cons.prems indexJoint_writes[of "(n', j')" s index]] st by simp
  have jd1: "jointData index1 = (jointData index)(n' \<mapsto> extractJointData (s0 j'))"
    using indexJoint_jointData[of n' j' s index] st
      extractJointData_frame[OF writesOnly_same[OF Cons.prems], of j'] by simp
  show ?case
    using Cons.IH[OF fr1, of index1] jd1
    by (simp add: st e map_add_def split: option.splits)
qed

lemma registerAffected_jointAxes:
  "jointAxes (registerAffected s m j index) = jointAxes index"
  by (auto simp: jointAxes_def registerAffected_def Let_def fun_eq_iff split: option.splits)

lemma fold_registerAffected_jointAxes:
  "jointAxes (fold (registerAffected s m) js index) = jointAxes index"
  by (induction js arbitrary: index) (simp_all add: registerAffected_jointAxes)

lemma indexMesh_jointAxes:
  "jointAxes (snd (indexMesh sc rl c (s, index))) = jointAxes index"
proof (cases "indexedMesh s c")
  case True
  have "jointAxes (snd (indexMesh sc rl c (s, index)))
          = jointAxes (fold (registerAffected
               (fst (indexMesh sc rl c (s, index))) c)
               (findAffectingJoints sc s c (rootOf (robotTree sc)))
               index)"
    using True
    by (simp add: indexMesh_def indexedMesh_def Let_def jointAxes_def fold_registerAffected_jointAxes[unfolded jointAxes_def])
  then show ?thesis by (simp add: fold_registerAffected_jointAxes)
next
  case False
  then show ?thesis by (simp add: indexMesh_skip)
qed

lemma fold_indexMesh_jointAxes:
  "jointAxes (snd (fold (indexMesh sc rl) cs (s, index))) = jointAxes index"
proof (induction cs arbitrary: s index)
  case Nil
  show ?case by simp
next
  case (Cons c cs)
  obtain s1 index1 where st: "indexMesh sc rl c (s, index) = (s1, index1)"
    by (cases "indexMesh sc rl c (s, index)")
  have "jointAxes index1 = jointAxes index"
    using indexMesh_jointAxes[of sc rl c s index] st by simp
  then show ?case using Cons.IH[of s1 index1] by (simp add: st)
qed

lemma fold_indexLink_jointData:
  "jointData (snd (fold indexLink rl (s, index))) = jointData index"
proof (induction rl arbitrary: s index)
  case Nil
  show ?case by simp
next
  case (Cons e rl)
  obtain s1 index1 where st: "indexLink e (s, index) = (s1, index1)"
    by (cases "indexLink e (s, index)")
  have "jointData index1 = jointData index"
    using st by (cases e) (auto simp: indexLink_def Let_def split: option.splits)
  then show ?case using Cons.IH[of s1 index1] by (simp add: st)
qed

lemma buildRobotIndex_jointAxes:
  "jointAxes (snd (buildRobotIndex sc s)) n
     = (case map_of (rev (nullish (robotJoints (s (rootOf (robotTree sc)))) [])) n of
          Some j \<Rightarrow> Some (jd_axis (extractJointData (s j)))
        | None \<Rightarrow> None)"
proof -
  let ?robot = "rootOf (robotTree sc)"
  let ?rl = "nullish (robotLinks (s ?robot)) []"
  let ?rj = "nullish (robotJoints (s ?robot)) []"
  obtain s1 index1 where st1: "fold indexLink ?rl (s, createEmptyIndex) = (s1, index1)"
    by (cases "fold indexLink ?rl (s, createEmptyIndex)")
  have fr: "writesOnly (snd ` set ?rl) {} {} s s1"
    using fold_indexLink_writes[of ?rl s createEmptyIndex] st1 by simp
  have jd1: "jointData index1 = Map.empty"
    using fold_indexLink_jointData[of ?rl s createEmptyIndex] st1
    by (simp add: createEmptyIndex_def)
  obtain s2 index2 where st2: "fold indexJoint ?rj (s1, index1) = (s2, index2)"
    by (cases "fold indexJoint ?rj (s1, index1)")
  have "jointData index2 n
         = (case map_of (rev ?rj) n of Some j \<Rightarrow> Some (extractJointData (s j)) | None \<Rightarrow> None)"
    using fold_indexJoint_jointData[OF fr, of ?rj index1 n] st2
    by (simp add: jd1 split: option.splits)
  then have "jointAxes index2 n
         = (case map_of (rev ?rj) n of Some j \<Rightarrow> Some (jd_axis (extractJointData (s j))) | None \<Rightarrow> None)"
    by (simp add: jointAxes_def split: option.splits)
  moreover have "indexLinksAndJoints s ?robot = (s2, index2)"
    by (simp add: indexLinksAndJoints_def Let_def st1 st2)
  ultimately show ?thesis
    by (simp add: buildRobotIndex_def Let_def fold_indexMesh_jointAxes)
qed

lemma jd_axis_extractJointData:
  "jd_axis (extractJointData joint)
     = (case axis joint of
          None \<Rightarrow> (Some 0, Some 0, Some 1)
        | Some (AxisVector3 x y z) \<Rightarrow> (Some x, Some y, Some z)
        | Some (AxisObject x y z) \<Rightarrow> (if x \<noteq> None then (x, y, z) else (Some 0, Some 0, Some 1))
        | Some AxisOther \<Rightarrow> (Some 0, Some 0, Some 1))"
  by (simp add: extractJointData_def Let_def split: option.splits axis_raw.splits)

text \<open>
  Claim C5, as the code has it. For every joint registered by the builder (the names of
  \<open>robot.joints\<close> are distinct, as the keys of an object are), the axis that the index
  records is a copy of the components of the joint's axis when that is a \<open>Vector3\<close> or an
  object with a numeric \<open>x\<close>, and \<open>(0, 0, 1)\<close> when the axis is absent or of another
  form. The builder neither normalizes the axis nor replaces a zero vector.
\<close>

theorem recorded_axis_is_copied:
  assumes "robot = rootOf (robotTree sc)"
    and "distinct (map fst (nullish (robotJoints (s robot)) []))"
    and "(jointName, j) \<in> set (nullish (robotJoints (s robot)) [])"
    and "buildRobotIndex sc s = (s', index)"
  shows "jointAxes index jointName
         = Some (case axis (s j) of
                   None \<Rightarrow> (Some 0, Some 0, Some 1)
                 | Some (AxisVector3 x y z) \<Rightarrow> (Some x, Some y, Some z)
                 | Some (AxisObject x y z) \<Rightarrow>
                     (if x \<noteq> None then (x, y, z) else (Some 0, Some 0, Some 1))
                 | Some AxisOther \<Rightarrow> (Some 0, Some 0, Some 1))"
proof -
  have "distinct (map fst (rev (nullish (robotJoints (s robot)) [])))"
    using assms(2) by (simp add: rev_map[symmetric])
  moreover have "(jointName, j) \<in> set (rev (nullish (robotJoints (s robot)) []))"
    using assms(3) by simp
  ultimately have "map_of (rev (nullish (robotJoints (s robot)) [])) jointName = Some j"
    by (rule map_of_is_SomeI)
  then show ?thesis
    using buildRobotIndex_jointAxes[of sc s jointName] assms(1,4)
    by (simp add: jd_axis_extractJointData)
qed

text \<open>The index records the axis \<open>(0, 1, 0)\<close> of the joint \<open>j2\<close> of the chain.\<close>

theorem recorded_axis_is_copied_witness:
  "axis (chainStore 14) = Some (AxisVector3 0 1 0)
   \<and> jointAxes (snd (buildRobotIndex chainScene chainStore)) ''j2'' = Some (Some 0, Some 1, Some 0)"
proof -
  have h1: "10 = rootOf (robotTree chainScene)" by (simp add: chainScene_shape)
  have h2: "distinct (map fst (nullish (robotJoints (chainStore 10)) []))"
    by (simp add: chainStore_links)
  have h3: "(''j2'', 14) \<in> set (nullish (robotJoints (chainStore 10)) [])"
    by (simp add: chainStore_links)
  have h4: "buildRobotIndex chainScene chainStore
              = (fst (buildRobotIndex chainScene chainStore), snd (buildRobotIndex chainScene chainStore))"
    by simp
  show ?thesis
    using recorded_axis_is_copied[OF h1 h2 h3 h4]
    by (simp add: chainStore_at URDFJoint_fields)
qed

lemma zeroAxisStore_at:
  "zeroAxisStore 30 = (URDFLink ''robot'')\<lparr>robotLinks := Some [], robotJoints := Some [(''jz'', 31)]\<rparr>"
  "zeroAxisStore 31 = URDFJoint ''jz'' ''revolute'' (AxisVector3 0 0 0) (- 1) 1"
  by (simp_all add: zeroAxisStore_def)

text \<open>
  Claim C5 as stated fails: the joint \<open>jz\<close> is registered with the zero vector as its
  axis, and the index records the zero vector for it, neither normalized nor replaced.
\<close>

theorem zero_axis_is_recorded:
  "rootOf (robotTree zeroAxisScene) = 30
   \<and> robotJoints (zeroAxisStore 30) = Some [(''jz'', 31)]
   \<and> axis (zeroAxisStore 31) = Some (AxisVector3 0 0 0)
   \<and> jointAxes (snd (buildRobotIndex zeroAxisScene zeroAxisStore)) ''jz''
       = Some (Some 0, Some 0, Some 0)"
proof -
  have root: "rootOf (robotTree zeroAxisScene) = 30" by (simp add: zeroAxisScene_def)
  have rj: "robotJoints (zeroAxisStore 30) = Some [(''jz'', 31)]"
    by (simp add: zeroAxisStore_at URDFLink_def)
  have ax: "axis (zeroAxisStore 31) = Some (AxisVector3 0 0 0)"
    by (simp add: zeroAxisStore_at URDFJoint_fields)
  show ?thesis
    using buildRobotIndex_jointAxes[of zeroAxisScene zeroAxisStore "''jz''"]
    by (simp add: root rj ax nullish_def jd_axis_extractJointData)
qed

section \<open>What the build writes\<close>

lemma extractInertialData_userData:
  assumes "ud_inertial (f (userData ob)) = ud_inertial (userData ob)"
  shows "extractInertialData (ob\<lparr>userData := f (userData ob)\<rparr>) n = extractInertialData ob n"
  using assms by (simp add: extractInertialData_def)

lemma indexLink_other:
  "l \<noteq> snd e \<Longrightarrow> fst (indexLink e (s, index)) l = s l"
  by (cases e) (simp add: indexLink_def Let_def updUserData_apply split: option.splits)

lemma indexLink_self:
  "linkEntriesWritten n (s l) (userData (fst (indexLink (n, l) (s, index)) l))"
proof -
  have ex: "extractInertialData
              ((s l)\<lparr>userData := (userData (s l))\<lparr>ud_isURDFLink := True, ud_linkName := Some n\<rparr>\<rparr>) n
            = extractInertialData (s l) n"
    by (simp add: extractInertialData_def)
  show ?thesis
    by (cases "extractInertialData (s l) n")
       (auto simp: indexLink_def Let_def ex updUserData_apply linkEntriesWritten_def)
qed

lemma fold_indexLink_other:
  "l \<notin> snd ` set rl \<Longrightarrow> fst (fold indexLink rl (s, index)) l = s l"
proof (induction rl arbitrary: s index)
  case Nil
  then show ?case by simp
next
  case (Cons e rl)
  obtain s1 index1 where st: "indexLink e (s, index) = (s1, index1)"
    by (cases "indexLink e (s, index)")
  have "s1 l = s l"
    using indexLink_other[of l e s index] Cons.prems st by simp
  then show ?case using Cons.IH[of s1 index1] Cons.prems by (simp add: st)
qed

lemma fold_indexLink_written:
  assumes "distinct (map snd rl)" and "(n, l) \<in> set rl"
  shows "linkEntriesWritten n (s l) (userData (fst (fold indexLink rl (s, index)) l))"
  using assms
proof (induction rl arbitrary: s index)
  case Nil
  then show ?case by simp
next
  case (Cons e rl)
  obtain s1 index1 where st: "indexLink e (s, index) = (s1, index1)"
    by (cases "indexLink e (s, index)")
  have notin: "snd e \<notin> snd ` set rl" and d: "distinct (map snd rl)"
    using Cons.prems(1) by simp_all
  show ?case
  proof (cases "e = (n, l)")
    case True
    have "linkEntriesWritten n (s l) (userData (s1 l))"
      using indexLink_self[of n s l index] st True by simp
    moreover have "fst (fold indexLink rl (s1, index1)) l = s1 l"
      using notin True by (intro fold_indexLink_other) simp
    ultimately show ?thesis by (simp add: st)
  next
    case False
    then have mem: "(n, l) \<in> set rl" using Cons.prems(2) by simp
    then have "l \<in> snd ` set rl" by force
    then have "l \<noteq> snd e" using notin by blast
    then have "s1 l = s l"
      using indexLink_other[of l e s index] st by simp
    then show ?thesis
      using Cons.IH[OF d mem, of s1 index1] by (simp add: st)
  qed
qed

lemma linkEntriesWritten_kept:
  "linkEntriesKept u u' \<Longrightarrow> linkEntriesWritten n ob u \<Longrightarrow> linkEntriesWritten n ob u'"
  by (simp add: linkEntriesKept_def linkEntriesWritten_def split: option.splits)

lemma jointEntriesWritten_kept:
  "jointEntriesKept u u' \<Longrightarrow> jointEntriesWritten ob u \<Longrightarrow> jointEntriesWritten ob u'"
  by (simp add: jointEntriesKept_def jointEntriesWritten_def)

lemma writesOnly_links_kept:
  "writesOnly {} J M s s' \<Longrightarrow> linkEntriesWritten n ob (userData (s r))
     \<Longrightarrow> linkEntriesWritten n ob (userData (s' r))"
  by (rule linkEntriesWritten_kept) (simp_all add: writesOnly_def)

lemma writesOnly_joints_kept:
  "writesOnly L {} M s s' \<Longrightarrow> jointEntriesWritten ob (userData (s r))
     \<Longrightarrow> jointEntriesWritten ob (userData (s' r))"
  by (rule jointEntriesWritten_kept) (simp_all add: writesOnly_def)

lemma extractJointData_same:
  assumes "sameOutsideUserData a b"
  shows "extractJointData b = extractJointData a"
  by (simp add: extractJointData_def sameOutsideUserData_fields(9,10,11)[OF assms])

lemma indexJoint_other:
  "r \<noteq> snd e \<Longrightarrow> fst (indexJoint e (s, index)) r = s r"
  by (cases e) (simp add: indexJoint_def Let_def updUserData_apply)

lemma indexJoint_self:
  "jointEntriesWritten (s j) (userData (fst (indexJoint (n, j) (s, index)) j))"
  by (simp add: indexJoint_def Let_def updUserData_apply jointEntriesWritten_def)

lemma fold_indexJoint_preserves:
  assumes "writesOnly L J M s0 s" and "jointEntriesWritten (s0 r) (userData (s r))"
  shows "jointEntriesWritten (s0 r) (userData (fst (fold indexJoint rj (s, index)) r))"
  using assms
proof (induction rj arbitrary: s index L J M)
  case Nil
  then show ?case by simp
next
  case (Cons e rj)
  obtain n' j' where e: "e = (n', j')" by (cases e)
  obtain s1 index1 where st: "indexJoint (n', j') (s, index) = (s1, index1)"
    by (cases "indexJoint (n', j') (s, index)")
  have fr1: "writesOnly (L \<union> {}) (J \<union> {j'}) (M \<union> {}) s0 s1"
    using writesOnly_trans[OF Cons.prems(1) indexJoint_writes[of "(n', j')" s index]] st by simp
  have "jointEntriesWritten (s0 r) (userData (s1 r))"
  proof (cases "r = j'")
    case True
    have "extractJointData (s r) = extractJointData (s0 r)"
      using extractJointData_same[OF writesOnly_same[OF Cons.prems(1), of r]] .
    then show ?thesis
      using indexJoint_self[of s j' n' index] st True
      by (simp add: jointEntriesWritten_def)
  next
    case False
    then have "s1 r = s r" using indexJoint_other[of r "(n', j')" s index] st by simp
    then show ?thesis using Cons.prems(2) by simp
  qed
  then show ?case
    using Cons.IH[OF fr1, of index1] by (simp add: e st)
qed

lemma fold_indexJoint_written:
  assumes "writesOnly L J M s0 s" and "j \<in> snd ` set rj"
  shows "jointEntriesWritten (s0 j) (userData (fst (fold indexJoint rj (s, index)) j))"
  using assms
proof (induction rj arbitrary: s index L J M)
  case Nil
  then show ?case by simp
next
  case (Cons e rj)
  obtain n' j' where e: "e = (n', j')" by (cases e)
  obtain s1 index1 where st: "indexJoint (n', j') (s, index) = (s1, index1)"
    by (cases "indexJoint (n', j') (s, index)")
  have fr1: "writesOnly (L \<union> {}) (J \<union> {j'}) (M \<union> {}) s0 s1"
    using writesOnly_trans[OF Cons.prems(1) indexJoint_writes[of "(n', j')" s index]] st by simp
  show ?case
  proof (cases "j \<in> snd ` set rj")
    case True
    from Cons.IH[OF fr1 True, of index1] show ?thesis by (simp add: e st)
  next
    case False
    then have j: "j = j'" using Cons.prems(2) e by auto
    have "extractJointData (s j) = extractJointData (s0 j)"
      using extractJointData_same[OF writesOnly_same[OF Cons.prems(1), of j]] .
    then have "jointEntriesWritten (s0 j) (userData (s1 j))"
      using indexJoint_self[of s j' n' index] st j by (simp add: jointEntriesWritten_def)
    then show ?thesis
      using fold_indexJoint_preserves[OF fr1, of j rj index1] by (simp add: e st)
  qed
qed

lemma indexMesh_other:
  "r \<noteq> c \<Longrightarrow> fst (indexMesh sc rl c (s, index)) r = s r"
  unfolding indexMesh_store by (simp add: updUserData_apply)

lemma fold_indexMesh_other:
  "r \<notin> set cs \<Longrightarrow> fst (fold (indexMesh sc rl) cs (s, index)) r = s r"
proof (induction cs arbitrary: s index)
  case Nil
  then show ?case by simp
next
  case (Cons c cs)
  obtain s1 index1 where st: "indexMesh sc rl c (s, index) = (s1, index1)"
    by (cases "indexMesh sc rl c (s, index)")
  have "s1 r = s r"
    using indexMesh_other[of r c sc rl s index] Cons.prems st by simp
  then show ?case using Cons.IH[of s1 index1] Cons.prems by (simp add: st)
qed

lemma fold_indexMesh_written:
  assumes d: "distinct (preorder (robotTree sc) @ above sc)"
    and "classifiedSoFar sc s2 sv" and "distinct cs" and "m \<in> set cs" and "indexedMesh sv m"
    and "u = userData (fst (fold (indexMesh sc rl) cs (sv, index)) m)"
    and "robot = rootOf (robotTree sc)"
  shows "ud_parentLinkName u = Some (snd (findNearestLink sc s2 m robot rl))
       \<and> ud_isCollisionMesh u = Some (isCollisionMeshDeep sc s2 m robot)
       \<and> ud_isVisualMesh u = Some (\<not> isCollisionMeshDeep sc s2 m robot)
       \<and> ud_isInKinematicChain u = Some (findAffectingJoints sc s2 m robot \<noteq> [])
       \<and> ud_affectingJoints u = Some (map (\<lambda>j. name (s2 j)) (findAffectingJoints sc s2 m robot))"
  using assms(2,3,4,5,6)
proof (induction cs arbitrary: sv index)
  case Nil
  then show ?case by simp
next
  case (Cons c cs)
  obtain s1 index1 where st: "indexMesh sc rl c (sv, index) = (s1, index1)"
    by (cases "indexMesh sc rl c (sv, index)")
  have fr: "writesOnly {} {} UNIV s2 sv"
    using Cons.prems(1) by (simp add: classifiedSoFar_def)
  show ?case
  proof (cases "c = m")
    case True
    have notin: "m \<notin> set cs" using Cons.prems(2) True by simp
    have keep: "fst (fold (indexMesh sc rl) cs (s1, index1)) m = s1 m"
      using notin by (rule fold_indexMesh_other)
    have s1: "s1 = updUserData (\<lambda>u. u\<lparr>ud_parentLinkName := Some (snd (findNearestLink sc sv m robot rl)),
             ud_isCollisionMesh := Some (isCollisionMeshDeep sc sv m robot),
             ud_isVisualMesh := Some (\<not> isCollisionMeshDeep sc sv m robot),
             ud_isInKinematicChain := Some (findAffectingJoints sc sv m robot \<noteq> []),
             ud_affectingJoints := Some (map (\<lambda>j. name (sv j))
                (findAffectingJoints sc sv m robot))\<rparr>) m sv"
      using indexMesh_store[of sc rl c sv index] st True Cons.prems(4) assms(7) by simp
    have own: "findNearestLink sc sv m robot rl = findNearestLink sc s2 m robot rl"
      using fr by (rule findNearestLink_frame)
    have js: "findAffectingJoints sc sv m robot = findAffectingJoints sc s2 m robot"
      using fr by (rule findAffectingJoints_frame)
    have col: "isCollisionMeshDeep sc sv m robot = isCollisionMeshDeep sc s2 m robot"
      unfolding assms(7) using d Cons.prems(1) by (rule classifiedSoFar_same)
    have nm: "name (sv j) = name (s2 j)" for j
      using sameOutsideUserData_fields(1)[OF writesOnly_same[OF fr, of j]] .
    show ?thesis
      using Cons.prems(5) keep
      by (simp add: st s1 updUserData_apply own js col nm)
  next
    case False
    then have mem: "m \<in> set cs" using Cons.prems(3) by simp
    have cl: "classifiedSoFar sc s2 s1"
      using indexMesh_classifiedSoFar[OF d Cons.prems(1), of rl c index] st by simp
    have im: "indexedMesh s1 m"
      using writesOnly_indexedMesh[OF indexMesh_writes[of c sv sc rl index], of m] st Cons.prems(4)
      by simp
    have dc: "distinct cs" using Cons.prems(2) by simp
    show ?thesis
      using Cons.IH[OF cl dc mem im, of index1] Cons.prems(5) by (simp add: st)
  qed
qed

lemma buildRobotIndex_entries_written:
  assumes "robot = rootOf (robotTree sc)"
    and "rl = nullish (robotLinks (s robot)) []"
    and "rj = nullish (robotJoints (s robot)) []"
    and "buildRobotIndex sc s = (s', index)"
  shows "distinct (map snd rl) \<Longrightarrow> (n, l) \<in> set rl
           \<Longrightarrow> linkEntriesWritten n (s l) (userData (s' l))"
    and "j \<in> snd ` set rj \<Longrightarrow> jointEntriesWritten (s j) (userData (s' j))"
    and "distinct (preorder (robotTree sc) @ above sc) \<Longrightarrow> m \<in> set (preorder (robotTree sc))
           \<Longrightarrow> indexedMesh s m \<Longrightarrow> meshEntriesWritten sc s m (userData (s' m))"
proof -
  obtain s1 index1 where st1: "fold indexLink rl (s, createEmptyIndex) = (s1, index1)"
    by (cases "fold indexLink rl (s, createEmptyIndex)")
  obtain s2 index2 where st2: "fold indexJoint rj (s1, index1) = (s2, index2)"
    by (cases "fold indexJoint rj (s1, index1)")
  have st12: "indexLinksAndJoints s robot = (s2, index2)"
    by (simp add: indexLinksAndJoints_def Let_def assms(2,3)[symmetric] st1 st2)
  have st3: "fold (indexMesh sc rl) (preorder (robotTree sc)) (s2, index2) = (s', index)"
    using assms(4) by (simp add: buildRobotIndex_def Let_def assms(1,2)[symmetric] st12)
  have w1: "writesOnly (snd ` set rl) {} {} s s1"
    using fold_indexLink_writes[of rl s createEmptyIndex] st1 by simp
  have w2: "writesOnly {} (snd ` set rj) {} s1 s2"
    using fold_indexJoint_writes[of rj s1 index1] st2 by simp
  have w12: "writesOnly (snd ` set rl) (snd ` set rj) {} s s2"
    using writesOnly_trans[OF w1 w2] by simp
  have w3: "writesOnly {} {} {r \<in> set (preorder (robotTree sc)). indexedMesh s2 r} s2 s'"
    using fold_indexMesh_writes[of "preorder (robotTree sc)" s2 sc rl index2] st3 by simp
  have same2: "indexedMesh s2 r = indexedMesh s r" for r
    using writesOnly_indexedMesh[OF w12, of r] by simp
  show "linkEntriesWritten n (s l) (userData (s' l))"
    if "distinct (map snd rl)" and "(n, l) \<in> set rl"
  proof -
    have "linkEntriesWritten n (s l) (userData (s1 l))"
      using fold_indexLink_written[OF that, of s createEmptyIndex] st1 by simp
    then have "linkEntriesWritten n (s l) (userData (s2 l))"
      by (rule writesOnly_links_kept[OF w2])
    then show ?thesis
      by (rule writesOnly_links_kept[OF w3])
  qed
  show "jointEntriesWritten (s j) (userData (s' j))" if "j \<in> snd ` set rj"
  proof -
    have "jointEntriesWritten (s j) (userData (s2 j))"
      using fold_indexJoint_written[OF w1 that, of index1] st2 by simp
    then show ?thesis
      by (rule writesOnly_joints_kept[OF w3])
  qed
  show "meshEntriesWritten sc s m (userData (s' m))"
    if d: "distinct (preorder (robotTree sc) @ above sc)"
      and mem: "m \<in> set (preorder (robotTree sc))" and im: "indexedMesh s m"
  proof -
    have dp: "distinct (preorder (robotTree sc))" using d by simp
    have u: "userData (s' m)
             = userData (fst (fold (indexMesh sc rl) (preorder (robotTree sc)) (s2, index2)) m)"
      by (simp add: st3)
    note wr = fold_indexMesh_written[OF d classifiedSoFar_refl dp mem _ u assms(1)]
    have col: "isCollisionMeshDeep sc s2 m robot = isCollisionMeshDeep sc s m robot"
      using w12 by (rule isCollisionMeshDeep_frame)
    have js: "findAffectingJoints sc s2 m robot = findAffectingJoints sc s m robot"
      using w12 by (rule findAffectingJoints_frame)
    have nm: "name (s2 j) = name (s j)" for j
      using sameOutsideUserData_fields(1)[OF writesOnly_same[OF w12, of j]] .
    show ?thesis
      using wr im same2[of m]
      by (simp add: meshEntriesWritten_def Let_def assms(1,2)[symmetric] st12 col js nm)
  qed
qed

lemma sameOutsideUserData_eq:
  assumes "sameOutsideUserData a b" and "userData b = userData a"
  shows "b = a"
proof -
  have "a\<lparr>userData := emptyUserData\<rparr> = b\<lparr>userData := emptyUserData\<rparr>"
    using assms(1) by (simp add: sameOutsideUserData_def)
  from arg_cong[OF this, of "\<lambda>ob. ob\<lparr>userData := userData a\<rparr>"]
  have "a = b\<lparr>userData := userData a\<rparr>" by simp
  also have "\<dots> = b\<lparr>userData := userData b\<rparr>" by (simp only: assms(2))
  also have "\<dots> = b" by simp
  finally show ?thesis by simp
qed

text \<open>
  Claim C10, as the code has it. The build changes the store in \<open>userData\<close> entries
  only, so names, flags, joint properties, materials, visibility and matrices stay as
  they are. The entries \<open>isURDFLink\<close>, \<open>linkName\<close>, \<open>inertialData\<close> and \<open>isSensor\<close>
  change on registered links only; \<open>isURDFJoint\<close>, \<open>jointType\<close>, \<open>axis\<close> and \<open>limit\<close> on
  registered joints only; \<open>parentLinkName\<close>, \<open>isCollisionMesh\<close>, \<open>isVisualMesh\<close>,
  \<open>isInKinematicChain\<close> and \<open>affectingJoints\<close> on indexed meshes only; no other entry
  changes. After the build, when no link object is registered twice, every registered
  link has \<open>isURDFLink\<close>, the name under which it is registered as \<open>linkName\<close> and,
  if it carries inertial data, the extracted data as \<open>inertialData\<close>, with \<open>isSensor\<close>
  set when the data says it is a sensor. Every registered joint has \<open>isURDFJoint\<close>
  and the type, axis and limit extracted from the joint. When every object occurs once
  in the scene, every indexed mesh has its owner's name, its classification and the
  names of the joints that move it, all as they are found on the tree before the
  build.
\<close>

theorem build_writes_user_data_only:
  assumes "robot = rootOf (robotTree sc)"
    and "rl = nullish (robotLinks (s robot)) []"
    and "rj = nullish (robotJoints (s robot)) []"
    and "buildRobotIndex sc s = (s', index)"
  shows "writesOnly (snd ` set rl) (snd ` set rj)
           {m \<in> set (preorder (robotTree sc)). indexedMesh s m} s s'
       \<and> (distinct (map snd rl) \<longrightarrow>
            (\<forall>e \<in> set rl. linkEntriesWritten (fst e) (s (snd e)) (userData (s' (snd e)))))
       \<and> (\<forall>j \<in> snd ` set rj. jointEntriesWritten (s j) (userData (s' j)))
       \<and> (distinct (preorder (robotTree sc) @ above sc) \<longrightarrow>
            (\<forall>m \<in> set (preorder (robotTree sc)).
               indexedMesh s m \<longrightarrow> meshEntriesWritten sc s m (userData (s' m))))"
proof -
  have frame: "writesOnly (snd ` set rl) (snd ` set rj)
           {m \<in> set (preorder (robotTree sc)). indexedMesh s m} s s'"
    using buildRobotIndex_writes[of s sc] assms by simp
  have lk: "linkEntriesWritten (fst e) (s (snd e)) (userData (s' (snd e)))"
    if "distinct (map snd rl)" and "e \<in> set rl" for e
    using buildRobotIndex_entries_written(1)[OF assms that(1), of "fst e" "snd e"] that(2) by simp
  show ?thesis
    using frame lk buildRobotIndex_entries_written(2,3)[OF assms] by blast
qed

lemma sensorScene_shape:
  "rootOf (robotTree sensorScene) = 40"
  "preorder (robotTree sensorScene) = [40, 41, 42]"
  "above sensorScene = []"
  "parentChain sensorScene 42 = [41, 40]"
  by (simp_all add: sensorScene_def parentChain_def)

lemma sensorStore_at:
  "sensorStore 40 = (URDFLink ''robot'')\<lparr>robotLinks := Some [(''imu_link'', 41)], robotJoints := Some []\<rparr>"
  "sensorStore 41 = (URDFLink ''imu_link'')\<lparr>inertial := Some (InertialRaw (Some 0) None None)\<rparr>"
  "sensorStore 42 = (Mesh 100)\<lparr>userData := emptyUserData\<lparr>ud_parentLinkName := Some ''old'',
                 ud_isCollisionMesh := Some False, ud_isVisualMesh := Some True,
                 ud_isInKinematicChain := Some True, ud_affectingJoints := Some [''gone'']\<rparr>\<rparr>"
  by (simp_all add: sensorStore_def)

lemma sensorStore_links:
  "nullish (robotLinks (sensorStore 40)) [] = [(''imu_link'', 41)]"
  "nullish (robotJoints (sensorStore 40)) [] = []"
  by (simp_all add: sensorStore_at nullish_def URDFLink_def)

lemma sensorScene_owner_42:
  "findNearestLink sensorScene (fst (indexLinksAndJoints sensorStore 40)) 42 40
     [(''imu_link'', 41)] = (Some 41, ''imu_link'')"
proof -
  have fr: "writesOnly {41} {} {} sensorStore (fst (indexLinksAndJoints sensorStore 40))"
    using indexLinksAndJoints_writes[of sensorStore 40] by (simp add: sensorStore_links)
  have "nearestLinkWalk (fst (indexLinksAndJoints sensorStore 40)) 40 [(''imu_link'', 41)] [41, 40]
        = nearestLinkWalk sensorStore 40 [(''imu_link'', 41)] [41, 40]"
    by (rule nearestLinkWalk_registered[OF fr])
       (simp add: belowRobot_def sensorStore_at URDFLink_def)
  then show ?thesis
    by (simp add: findNearestLink_def sensorScene_shape sensorStore_at example_objects strOr_def)
qed

lemma sensorStore_joints_42: "findAffectingJoints sensorScene sensorStore 42 40 = []"
  by (simp add: findAffectingJoints_def sensorScene_shape sensorStore_at example_objects)

lemma sensorStore_visual_42: "\<not> isCollisionMeshDeep sensorScene sensorStore 42 40"
proof -
  have "\<not> COLLISION_PATH_REGEX ''imu_link''" by (simp add: regex_eval)
  then show ?thesis
    by (simp add: isCollisionMeshDeep_iff belowRobot_def sensorScene_shape sensorStore_at
          explicitCollisionMarker_def example_objects regex_empty)
qed

lemma sensorStore_inertial:
  "extractInertialData (sensorStore 41) ''imu_link''
     = Some (InertialData 0 (0, 0, 0) (0, 0, 0, 0, 0, 0) (0, 0, 0) (0, 0, 0) True)"
  by (simp add: extractInertialData_def sensorStore_at example_objects orElse_def nullish_def Let_def)

lemma chainStore_joint_names: "name (chainStore 14) = ''j2''" "name (chainStore 12) = ''j1''"
  by (simp_all add: chainStore_at URDFJoint_fields)

lemma extractJointData_j2:
  "extractJointData (chainStore 14)
     = JointData ''revolute'' (Some 0, Some 1, Some 0) (JointLimit (- 1) 1 None None) []"
  by (simp add: extractJointData_def chainStore_at URDFJoint_fields strOr_def nullish_def Let_def)

text \<open>
  In the chain, the build leaves the material of the mesh (17) and the world matrix and
  the axis of the joint (12) as they are, and does not touch the object (16), which is
  neither registered nor a mesh; it writes the entries of the link (11), of the joint
  (14) and of the mesh (17). In the robot that has been indexed before, the build marks
  the link (41) as a sensor and replaces the stale entries of the mesh (42).
\<close>

theorem build_writes_user_data_only_witness:
  "material (fst (buildRobotIndex chainScene chainStore) 17) = Some 100
   \<and> matrixWorld (fst (buildRobotIndex chainScene chainStore) 12) = identity4
   \<and> axis (fst (buildRobotIndex chainScene chainStore) 12) = Some (AxisVector3 0 0 1)
   \<and> fst (buildRobotIndex chainScene chainStore) 16 = chainStore 16
   \<and> ud_isURDFLink (userData (fst (buildRobotIndex chainScene chainStore) 11))
   \<and> ud_linkName (userData (fst (buildRobotIndex chainScene chainStore) 11)) = Some ''base''
   \<and> ud_isURDFJoint (userData (fst (buildRobotIndex chainScene chainStore) 14))
   \<and> ud_jointType (userData (fst (buildRobotIndex chainScene chainStore) 14)) = Some ''revolute''
   \<and> ud_axis (userData (fst (buildRobotIndex chainScene chainStore) 14))
       = Some (Some 0, Some 1, Some 0)
   \<and> ud_limit (userData (fst (buildRobotIndex chainScene chainStore) 14))
       = Some (JointLimit (- 1) 1 None None)
   \<and> ud_parentLinkName (userData (fst (buildRobotIndex chainScene chainStore) 17)) = Some ''l2''
   \<and> ud_isCollisionMesh (userData (fst (buildRobotIndex chainScene chainStore) 17)) = Some False
   \<and> ud_isVisualMesh (userData (fst (buildRobotIndex chainScene chainStore) 17)) = Some True
   \<and> ud_isInKinematicChain (userData (fst (buildRobotIndex chainScene chainStore) 17)) = Some True
   \<and> ud_affectingJoints (userData (fst (buildRobotIndex chainScene chainStore) 17))
       = Some [''j2'', ''j1'']
   \<and> ud_isSensor (userData (sensorStore 41)) = False
   \<and> ud_linkName (userData (fst (buildRobotIndex sensorScene sensorStore) 41)) = Some ''imu_link''
   \<and> ud_inertialData (userData (fst (buildRobotIndex sensorScene sensorStore) 41))
       = Some (InertialData 0 (0, 0, 0) (0, 0, 0, 0, 0, 0) (0, 0, 0) (0, 0, 0) True)
   \<and> ud_isSensor (userData (fst (buildRobotIndex sensorScene sensorStore) 41)) = True
   \<and> ud_parentLinkName (userData (sensorStore 42)) = Some ''old''
   \<and> ud_parentLinkName (userData (fst (buildRobotIndex sensorScene sensorStore) 42))
       = Some ''imu_link''
   \<and> ud_isInKinematicChain (userData (fst (buildRobotIndex sensorScene sensorStore) 42))
       = Some False
   \<and> ud_affectingJoints (userData (fst (buildRobotIndex sensorScene sensorStore) 42)) = Some []"
proof -
  let ?s' = "fst (buildRobotIndex chainScene chainStore)"
  let ?t' = "fst (buildRobotIndex sensorScene sensorStore)"
  have h1: "10 = rootOf (robotTree chainScene)" by (simp add: chainScene_shape)
  have h2: "[(''base'', 11), (''l1'', 13), (''l2'', 15)] = nullish (robotLinks (chainStore 10)) []"
    by (simp add: chainStore_links)
  have h3: "[(''j1'', 12), (''j2'', 14)] = nullish (robotJoints (chainStore 10)) []"
    by (simp add: chainStore_links)
  have h4: "buildRobotIndex chainScene chainStore = (?s', snd (buildRobotIndex chainScene chainStore))"
    by simp
  note t = build_writes_user_data_only[OF h1 h2 h3 h4]
  have w: "writesOnly {11, 13, 15} {12, 14}
             {m \<in> set (preorder (robotTree chainScene)). indexedMesh chainStore m} chainStore ?s'"
    using t by simp
  have same: "sameOutsideUserData (chainStore r) (?s' r)" for r
    using w by (simp add: writesOnly_def)
  have notMesh: "\<not> indexedMesh chainStore 16"
    by (simp add: indexedMesh_def chainStore_nodes example_objects)
  have "otherEntriesKept (userData (chainStore 16)) (userData (?s' 16))"
    and "linkEntriesKept (userData (chainStore 16)) (userData (?s' 16))"
    and "jointEntriesKept (userData (chainStore 16)) (userData (?s' 16))"
    and "meshEntriesKept (userData (chainStore 16)) (userData (?s' 16))"
    using w notMesh by (simp_all add: writesOnly_def)
  then have "userData (?s' 16) = userData (chainStore 16)"
    by (simp add: otherEntriesKept_def linkEntriesKept_def jointEntriesKept_def meshEntriesKept_def)
  then have untouched: "?s' 16 = chainStore 16"
    by (rule sameOutsideUserData_eq[OF same[of 16]])
  have idx17: "indexedMesh chainStore 17"
    by (simp add: indexedMesh_def chainStore_at example_objects)
  have dl: "distinct (map snd [(''base'', 11), (''l1'', 13), (''l2'', 15 :: nat)])" by simp
  have dt: "distinct (preorder (robotTree chainScene) @ above chainScene)"
    by (simp add: chainScene_shape chainScene_def)
  have link11: "linkEntriesWritten ''base'' (chainStore 11) (userData (?s' 11))"
    using t dl by simp
  have joint14: "jointEntriesWritten (chainStore 14) (userData (?s' 14))"
    using t by simp
  have mesh17: "meshEntriesWritten chainScene chainStore 17 (userData (?s' 17))"
    using t dt idx17 by (simp add: chainScene_shape)
  have chain: "material (?s' 17) = Some 100 \<and> matrixWorld (?s' 12) = identity4
      \<and> axis (?s' 12) = Some (AxisVector3 0 0 1) \<and> ?s' 16 = chainStore 16"
    using sameOutsideUserData_fields(16)[OF same[of 17]]
      sameOutsideUserData_fields(10,20)[OF same[of 12]] untouched
    by (simp add: chainStore_at URDFJoint_fields Mesh_fields)
  have c11: "ud_isURDFLink (userData (?s' 11)) \<and> ud_linkName (userData (?s' 11)) = Some ''base''"
    using link11 by (simp add: linkEntriesWritten_def)
  have c12: "ud_isURDFJoint (userData (?s' 14))
      \<and> ud_jointType (userData (?s' 14)) = Some ''revolute''
      \<and> ud_axis (userData (?s' 14)) = Some (Some 0, Some 1, Some 0)
      \<and> ud_limit (userData (?s' 14)) = Some (JointLimit (- 1) 1 None None)"
    using joint14 by (simp add: jointEntriesWritten_def extractJointData_j2)
  have c17: "ud_parentLinkName (userData (?s' 17)) = Some ''l2''
      \<and> ud_isCollisionMesh (userData (?s' 17)) = Some False
      \<and> ud_isVisualMesh (userData (?s' 17)) = Some True
      \<and> ud_isInKinematicChain (userData (?s' 17)) = Some True
      \<and> ud_affectingJoints (userData (?s' 17)) = Some [''j2'', ''j1'']"
    using mesh17
    by (simp add: meshEntriesWritten_def Let_def chainScene_shape chainStore_links
          chainScene_owner_17 chainStore_visual_17 chainStore_joints_17 chainStore_joint_names)
  have g1: "40 = rootOf (robotTree sensorScene)" by (simp add: sensorScene_shape)
  have g2: "[(''imu_link'', 41)] = nullish (robotLinks (sensorStore 40)) []"
    by (simp add: sensorStore_links)
  have g3: "[] = nullish (robotJoints (sensorStore 40)) []"
    by (simp add: sensorStore_links)
  have g4: "buildRobotIndex sensorScene sensorStore = (?t', snd (buildRobotIndex sensorScene sensorStore))"
    by simp
  note u = build_writes_user_data_only[OF g1 g2 g3 g4]
  have idx42: "indexedMesh sensorStore 42"
    by (simp add: indexedMesh_def sensorStore_at example_objects)
  have ds: "distinct (preorder (robotTree sensorScene) @ above sensorScene)"
    by (simp add: sensorScene_shape)
  have link41: "linkEntriesWritten ''imu_link'' (sensorStore 41) (userData (?t' 41))"
    using u by simp
  have mesh42: "meshEntriesWritten sensorScene sensorStore 42 (userData (?t' 42))"
    using u ds idx42 by (simp add: sensorScene_shape)
  have c41: "ud_linkName (userData (?t' 41)) = Some ''imu_link''
      \<and> ud_inertialData (userData (?t' 41))
           = Some (InertialData 0 (0, 0, 0) (0, 0, 0, 0, 0, 0) (0, 0, 0) (0, 0, 0) True)
      \<and> ud_isSensor (userData (?t' 41)) = True"
    using link41 by (simp add: linkEntriesWritten_def sensorStore_inertial)
  have c42: "ud_parentLinkName (userData (?t' 42)) = Some ''imu_link''
      \<and> ud_isInKinematicChain (userData (?t' 42)) = Some False
      \<and> ud_affectingJoints (userData (?t' 42)) = Some []"
    using mesh42
    by (simp add: meshEntriesWritten_def Let_def sensorScene_shape sensorStore_links
          sensorScene_owner_42 sensorStore_joints_42)
  have before: "ud_isSensor (userData (sensorStore 41)) = False
      \<and> ud_parentLinkName (userData (sensorStore 42)) = Some ''old''"
    by (simp add: sensorStore_at example_objects)
  show ?thesis
    using chain c11 c12 c17 c41 c42 before by simp
qed

text \<open>
  Claim C10 as stated fails: the build writes a \<open>userData\<close> entry that the claim does
  not list. The link \<open>base\<close> (11) has inertial data and no \<open>inertialData\<close> entry
  before the build, and has one after it.
\<close>

theorem build_writes_inertial_data:
  "robotLinks (staticStore 10) = Some [(''base'', 11)]
   \<and> inertial (staticStore 11) = Some (InertialRaw (Some 2) None None)
   \<and> ud_inertialData (userData (staticStore 11)) = None
   \<and> ud_inertialData (userData (fst (buildRobotIndex staticScene staticStore) 11)) \<noteq> None"
proof -
  have h1: "10 = rootOf (robotTree staticScene)" by (simp add: staticScene_shape)
  have h2: "[(''base'', 11)] = nullish (robotLinks (staticStore 10)) []"
    by (simp add: staticStore_links)
  have h3: "[] = nullish (robotJoints (staticStore 10)) []"
    by (simp add: staticStore_links)
  have h4: "buildRobotIndex staticScene staticStore
              = (fst (buildRobotIndex staticScene staticStore), snd (buildRobotIndex staticScene staticStore))"
    by simp
  have ex: "extractInertialData (staticStore 11) ''base'' \<noteq> None"
    by (simp add: extractInertialData_def staticStore_at example_objects orElse_def Let_def)
  have "linkEntriesWritten ''base'' (staticStore 11)
          (userData (fst (buildRobotIndex staticScene staticStore) 11))"
    using buildRobotIndex_entries_written(1)[OF h1 h2 h3 h4, of "''base''" 11] by simp
  then have "ud_inertialData (userData (fst (buildRobotIndex staticScene staticStore) 11)) \<noteq> None"
    using ex by (auto simp: linkEntriesWritten_def split: option.splits)
  then show ?thesis
    by (simp add: staticStore_at URDFLink_def Object3D_def emptyUserData_def)
qed

end
